(* ===== verification/Prelude.thy ===== *)
theory Prelude
  imports Complex_Main
begin

text \<open>
  Shared vocabulary of the development: sequencing of fallible calls (the Go idiom
  \<open>if err != nil { return ..., err }\<close>), machine integers with their wrap-around, the
  time type, and the lemmas on keyed lists (tables) that every component uses.
\<close>

section \<open>Theorem collections\<close>

named_theorems stmt_defs "definitions of the SQL statements"

section \<open>Sequencing fallible calls\<close>

text \<open>
  A fallible Go call returns a value or an error: \<open>Inl e\<close> is the error, \<open>Inr x\<close> the
  value. \<open>bindE m f\<close> is \<open>x, err := m; if err != nil { return err }; f(x)\<close>.
\<close>

definition bindE :: "'e + 'a \<Rightarrow> ('a \<Rightarrow> 'e + 'b) \<Rightarrow> 'e + 'b" where
  "bindE m f = (case m of Inl e \<Rightarrow> Inl e | Inr x \<Rightarrow> f x)"

definition mapErr :: "('e \<Rightarrow> 'f) \<Rightarrow> 'e + 'a \<Rightarrow> 'f + 'a" where
  "mapErr g m = (case m of Inl e \<Rightarrow> Inl (g e) | Inr x \<Rightarrow> Inr x)"

lemma bindE_simps [simp]: "bindE (Inl e) f = Inl e" "bindE (Inr x) f = f x"
  by (simp_all add: bindE_def)

lemma mapErr_simps [simp]: "mapErr g (Inl e) = Inl (g e)" "mapErr g (Inr x) = Inr x"
  by (simp_all add: mapErr_def)

lemma bindE_eq_Inr: "bindE m f = Inr y \<longleftrightarrow> (\<exists>x. m = Inr x \<and> f x = Inr y)"
  by (cases m) auto

lemma bindE_eq_Inl: "bindE m f = Inl e \<longleftrightarrow> m = Inl e \<or> (\<exists>x. m = Inr x \<and> f x = Inl e)"
  by (cases m) auto

lemma mapErr_eq_Inr [simp]: "mapErr g m = Inr y \<longleftrightarrow> m = Inr y"
  by (cases m) auto

lemma mapErr_eq_Inl: "mapErr g m = Inl e \<longleftrightarrow> (\<exists>e'. m = Inl e' \<and> e = g e')"
  by (cases m) auto

lemma bindE_InrE:
  assumes "bindE m f = Inr y"
  obtains x where "m = Inr x" and "f x = Inr y"
  using assms by (cases m) auto

section \<open>Machine integers\<close>

text \<open>
  Go's \<open>int64\<close> wraps around; Postgres' \<open>BIGINT\<close> and \<open>INTEGER\<close> raise when a value
  leaves their range.
\<close>

definition i64_max :: int where "i64_max = 9223372036854775807"
definition i64_min :: int where "i64_min = - 9223372036854775808"
definition i32_max :: int where "i32_max = 2147483647"

definition i64_inc :: "int \<Rightarrow> int" where
  "i64_inc v = (if v = i64_max then i64_min else v + 1)"

lemma i64_inc_below: "v < i64_max \<Longrightarrow> i64_inc v = v + 1"
  by (simp add: i64_inc_def)

lemma i64_inc_neq: "i64_inc v \<noteq> v"
  by (simp add: i64_inc_def i64_max_def i64_min_def)

text \<open>The values of an \<open>int64\<close>, and of a BIGINT column.\<close>

definition fits_i64 :: "int \<Rightarrow> bool" where
  "fits_i64 v \<longleftrightarrow> i64_min \<le> v \<and> v \<le> i64_max"

lemma fits_i64_inc [simp]: "fits_i64 v \<Longrightarrow> fits_i64 (i64_inc v)"
  by (simp add: fits_i64_def i64_inc_def i64_max_def i64_min_def)

lemma fits_i64_small [simp]: "fits_i64 0" "fits_i64 1" "fits_i64 (numeral n) \<longleftrightarrow> numeral n \<le> i64_max"
  by (simp_all add: fits_i64_def i64_min_def i64_max_def)

section \<open>Time\<close>

text \<open>
  A \<open>time.Time\<close> is a number of nanoseconds from the Unix epoch; Go's zero time is the
  first of January of year 1. A \<open>TIMESTAMPTZ\<close> column keeps microseconds.
\<close>

type_synonym gotime = int

definition go_zero_time :: gotime where
  "go_zero_time = - 62135596800000000000"

definition pg_time :: "gotime \<Rightarrow> gotime" where
  "pg_time t = t - t mod 1000"

lemma pg_time_idem [simp]: "pg_time (pg_time t) = pg_time t"
  by (simp add: pg_time_def minus_mod_eq_mult_div)

lemma pg_time_le: "pg_time t \<le> t"
  by (simp add: pg_time_def)

lemma pg_time_close: "t - pg_time t < 1000"
  by (simp add: pg_time_def)

lemma pg_time_mono: "s \<le> t \<Longrightarrow> pg_time s \<le> pg_time t"
  by (simp add: pg_time_def minus_mod_eq_mult_div zdiv_mono1)

section \<open>Decimal numbers\<close>

text \<open>\<open>%d\<close> of \<open>fmt.Sprintf\<close>.\<close>

definition digit_char :: "nat \<Rightarrow> char" where
  "digit_char n = ''0123456789'' ! n"

fun nat_digits :: "nat \<Rightarrow> string" where
  "nat_digits n = (if n < 10 then [digit_char n] else nat_digits (n div 10) @ [digit_char (n mod 10)])"

declare nat_digits.simps [simp del]

definition go_itoa :: "int \<Rightarrow> string" where
  "go_itoa i = (if i < 0 then CHR ''-'' # nat_digits (nat (- i)) else nat_digits (nat i))"

lemma digit_char_in: "n < 10 \<Longrightarrow> digit_char n \<in> set ''0123456789''"
  unfolding digit_char_def by (rule nth_mem) simp

lemma digit_char_inj: "m < 10 \<Longrightarrow> n < 10 \<Longrightarrow> digit_char m = digit_char n \<longleftrightarrow> m = n"
proof -
  assume "m < 10" "n < 10"
  moreover have "distinct ''0123456789''" by code_simp
  ultimately show ?thesis
    unfolding digit_char_def by (intro nth_eq_iff_index_eq) simp_all
qed

lemma nat_digits_chars: "set (nat_digits n) \<subseteq> set ''0123456789''"
proof (induction n rule: nat_digits.induct)
  case (1 n)
  show ?case
  proof (cases "n < 10")
    case True
    then show ?thesis using digit_char_in [of n] by (subst nat_digits.simps) auto
  next
    case False
    with 1 show ?thesis using digit_char_in [of "n mod 10"] by (subst nat_digits.simps) auto
  qed
qed

lemma nat_digits_nonempty: "nat_digits n \<noteq> []"
  by (subst nat_digits.simps) simp

lemma nat_digits_inj: "nat_digits m = nat_digits n \<longleftrightarrow> m = n"
proof (induction m arbitrary: n rule: nat_digits.induct)
  case (1 m)
  show ?case
  proof (cases "m < 10"; cases "n < 10")
    assume "m < 10" "n < 10"
    then show ?thesis by (simp add: nat_digits.simps [of m] nat_digits.simps [of n] digit_char_inj)
  next
    assume "m < 10" "\<not> n < 10"
    then show ?thesis
      using nat_digits_nonempty [of "n div 10"]
      by (auto simp: nat_digits.simps [of m] nat_digits.simps [of n] Cons_eq_append_conv)
  next
    assume "\<not> m < 10" "n < 10"
    then show ?thesis
      using nat_digits_nonempty [of "m div 10"]
      by (auto simp: nat_digits.simps [of m] nat_digits.simps [of n] append_eq_Cons_conv)
  next
    assume big: "\<not> m < 10" "\<not> n < 10"
    then have "nat_digits m = nat_digits n \<longleftrightarrow> m div 10 = n div 10 \<and> m mod 10 = n mod 10"
      using 1 by (simp add: nat_digits.simps [of m] nat_digits.simps [of n] digit_char_inj)
    then show ?thesis by (metis div_mult_mod_eq)
  qed
qed

lemma go_itoa_inj: "go_itoa i = go_itoa j \<longleftrightarrow> i = j"
proof -
  have "CHR ''-'' \<notin> set (nat_digits n)" for n
    using nat_digits_chars [of n] by auto
  then have hyphen: "CHR ''-'' # ds \<noteq> nat_digits n" "nat_digits n \<noteq> CHR ''-'' # ds" for ds n
    by (metis list.set_intros(1))+
  show ?thesis
  proof (cases "i < 0"; cases "j < 0")
  qed (auto simp: go_itoa_def nat_digits_inj hyphen)
qed

lemma go_itoa_no_colon: "CHR '':'' \<notin> set (go_itoa i)"
  using nat_digits_chars [of "nat i"] nat_digits_chars [of "nat (- i)"]
  by (auto simp: go_itoa_def)

section \<open>Tables as keyed lists\<close>

text \<open>\<open>find\<close> over a table whose keys are distinct behaves as a map lookup.\<close>

lemma find_append: "find P (xs @ ys) = (case find P xs of None \<Rightarrow> find P ys | Some x \<Rightarrow> Some x)"
  by (induction xs) auto

lemma find_SomeD: "find P xs = Some x \<Longrightarrow> x \<in> set xs \<and> P x"
  by (induction xs) (auto split: if_splits)

lemma find_None: "find P xs = None \<longleftrightarrow> (\<forall>x\<in>set xs. \<not> P x)"
  by (induction xs) auto

lemma find_no_key: "k \<notin> set (map key xs) \<Longrightarrow> find (\<lambda>x. key x = k) xs = None"
  by (induction xs) auto

lemma find_distinct_key:
  "distinct (map key xs) \<Longrightarrow> x \<in> set xs \<Longrightarrow> find (\<lambda>y. key y = key x) xs = Some x"
  by (induction xs) (auto simp: rev_image_eqI)

lemma distinct_key_inj:
  "distinct (map key xs) \<Longrightarrow> x \<in> set xs \<Longrightarrow> y \<in> set xs \<Longrightarrow> key x = key y \<Longrightarrow> x = y"
  by (simp add: distinct_map inj_on_def)

text \<open>An \<open>UPDATE ... WHERE p\<close>: every row that satisfies \<open>p\<close> is rewritten in place.\<close>

definition update_where :: "('r \<Rightarrow> bool) \<Rightarrow> ('r \<Rightarrow> 'r) \<Rightarrow> 'r list \<Rightarrow> 'r list" where
  "update_where p f rows = map (\<lambda>r. if p r then f r else r) rows"

definition count_where :: "('r \<Rightarrow> bool) \<Rightarrow> 'r list \<Rightarrow> nat" where
  "count_where p rows = length (filter p rows)"

lemma update_where_nil [simp]: "update_where p f [] = []"
  by (simp add: update_where_def)

lemma length_update_where [simp]: "length (update_where p f rows) = length rows"
  by (simp add: update_where_def)

lemma set_update_where: "set (update_where p f rows) = (\<lambda>r. if p r then f r else r) ` set rows"
  by (simp add: update_where_def)

lemma update_where_none: "\<forall>r\<in>set rows. \<not> p r \<Longrightarrow> update_where p f rows = rows"
  by (simp add: update_where_def map_idI)

lemma count_where_0: "count_where p rows = 0 \<longleftrightarrow> (\<forall>r\<in>set rows. \<not> p r)"
  by (simp add: count_where_def filter_empty_conv)

lemma map_update_where:
  assumes "\<And>r. p r \<Longrightarrow> k (f r) = k r"
  shows "map k (update_where p f rows) = map k rows"
  using assms by (simp add: update_where_def)

lemma count_where_le_1:
  assumes d: "distinct (map key rows)" and "\<And>r. p r \<Longrightarrow> key r = k"
  shows "count_where p rows \<le> 1"
  using assms
proof (induction rows)
  case Nil
  then show ?case by (simp add: count_where_def)
next
  case (Cons r rows)
  show ?case
  proof (cases "p r")
    case True
    with Cons.prems have "\<forall>r'\<in>set rows. \<not> p r'" by (auto simp: image_iff)
    then show ?thesis by (simp add: count_where_def True filter_empty_conv[THEN iffD2])
  next
    case False
    with Cons show ?thesis by (simp add: count_where_def)
  qed
qed

lemma count_where_1:
  assumes "distinct (map key rows)" and "\<And>r. p r \<Longrightarrow> key r = k" and "x \<in> set rows" and "p x"
  shows "count_where p rows = 1"
proof -
  have "count_where p rows \<le> 1" by (rule count_where_le_1 [OF assms(1,2)])
  moreover have "count_where p rows \<noteq> 0" using assms(3,4) by (auto simp: count_where_0)
  ultimately show ?thesis by simp
qed

text \<open>An update whose condition fixes a unique key rewrites one row in place.\<close>

lemma update_where_unique:
  assumes d: "distinct (map key rows)" and k: "\<And>r. p r \<Longrightarrow> key r = k" and "\<exists>r\<in>set rows. p r"
  shows "\<exists>as r bs. rows = as @ r # bs \<and> p r \<and> update_where p f rows = as @ f r # bs \<and> count_where p rows = 1"
proof -
  from assms(3) obtain as r bs where r: "rows = as @ r # bs" "p r" by (meson split_list)
  with d k have rest: "\<forall>x\<in>set as. \<not> p x" "\<forall>x\<in>set bs. \<not> p x" by (auto simp: image_iff)
  have "update_where p f rows = as @ f r # bs"
    using r update_where_none [OF rest(1), of f] update_where_none [OF rest(2), of f] by (simp add: update_where_def)
  moreover have "count_where p rows = 1" using r by (intro count_where_1 [OF d k, where x = r]) simp_all
  ultimately show ?thesis using r by blast
qed

lemma find_update_where:
  assumes "\<And>r. p r \<Longrightarrow> q (f r) = q r"
  shows "find q (update_where p f rows) = map_option (\<lambda>r. if p r then f r else r) (find q rows)"
  using assms by (induction rows) (auto simp: update_where_def)

end
