(* ===== verification/GoErrors.thy ===== *)
theory GoErrors
  imports Prelude
begin

text \<open>
  Errors of the module: the sentinels of \<^verbatim>\<open>errors.go\<close>, what the database driver
  reports, and Go's wrapping (\<open>fmt.Errorf("...%w")\<close>), joining (\<open>errors.Join\<close>) and
  matching (\<open>errors.Is\<close>).
\<close>

section \<open>Error values\<close>

text \<open>What a statement can report: no row for \<open>QueryRow\<close>, a violated constraint of the
  schema, a value out of its column's range, or any failure of the connection or the server
  that the environment chooses.\<close>

datatype pg_error =
    NoRows
  | UniqueViolation string
  | CheckViolation string
  | NotNullViolation string
  | NumericOutOfRange
  | InvalidLimit
  | SyntaxError
  | UndefinedTable string
  | UndefinedColumn string
  | DriverFailure string

text \<open>\<open>Wrap m e\<close> is \<open>fmt.Errorf(m + "%w", e)\<close>; \<open>Annot e a\<close> is
  \<open>fmt.Errorf("%w: ...", e, a)\<close> with the formatted argument; \<open>Joined\<close> is the result of
  \<open>errors.Join\<close>; \<open>Plain\<close> is \<open>errors.New\<close> or \<open>fmt.Errorf\<close> with no wrapped
  error, and also stands for the errors of publishers outside the module.\<close>

datatype err =
    ErrVersionConflict
  | ErrIdempotencyConflict
  | ErrNotFound
  | ErrSchemaVersionAhead
  | ErrRelayPublishFailed
  | ErrInvalidEventType
  | ErrLeaseLost
  | Plain string
  | Pg pg_error
  | JsonErr
  | Wrap string err
  | Annot err string
  | Joined "err list"

fun errors_is :: "err \<Rightarrow> err \<Rightarrow> bool" where
  "errors_is (Wrap m e) t \<longleftrightarrow> Wrap m e = t \<or> errors_is e t"
| "errors_is (Annot e a) t \<longleftrightarrow> Annot e a = t \<or> errors_is e t"
| "errors_is (Joined es) t \<longleftrightarrow> Joined es = t \<or> list_ex (\<lambda>e. errors_is e t) es"
| "errors_is e t \<longleftrightarrow> e = t"

text \<open>\<open>errors.Join\<close> drops the nil errors and is nil when nothing is left.\<close>

fun non_nil :: "err option list \<Rightarrow> err list" where
  "non_nil [] = []"
| "non_nil (None # es) = non_nil es"
| "non_nil (Some e # es) = e # non_nil es"

definition errors_Join :: "err option list \<Rightarrow> err option" where
  "errors_Join es = (case non_nil es of [] \<Rightarrow> None | xs \<Rightarrow> Some (Joined xs))"

definition isNoRows :: "pg_error \<Rightarrow> bool" where
  "isNoRows e \<longleftrightarrow> e = NoRows"

text \<open>
  The outcome of \<open>tx.Commit\<close>: done, refused (the transaction is rolled back), or an error
  after the server applied the transaction (the connection broke before its answer).
\<close>

datatype commit_outcome = Committed | CommitRefused string | CommitUnknown string

section \<open>Lemmas\<close>

lemma errors_is_refl [simp]: "errors_is e e"
  by (cases e) auto

lemma set_non_nil: "set (non_nil es) = {e. Some e \<in> set es}"
  by (induction es rule: non_nil.induct) auto

lemma non_nil_Nil: "non_nil es = [] \<longleftrightarrow> (\<forall>x\<in>set es. x = None)"
  by (induction es rule: non_nil.induct) auto

lemma non_nil_append: "non_nil (xs @ ys) = non_nil xs @ non_nil ys"
  by (induction xs rule: non_nil.induct) auto

lemma errors_Join_None: "errors_Join es = None \<longleftrightarrow> (\<forall>x\<in>set es. x = None)"
  using non_nil_Nil [of es] by (cases "non_nil es") (auto simp: errors_Join_def)

lemma errors_Join_is:
  assumes "errors_Join es = Some j" and "\<And>xs. t \<noteq> Joined xs"
  shows "errors_is j t \<longleftrightarrow> (\<exists>e. Some e \<in> set es \<and> errors_is e t)"
proof -
  have j: "j = Joined (non_nil es)"
    using assms(1) by (auto simp: errors_Join_def split: list.splits)
  have "Joined (non_nil es) \<noteq> t" using assms(2) by metis
  then have "errors_is j t \<longleftrightarrow> (\<exists>e\<in>set (non_nil es). errors_is e t)"
    unfolding j by (simp add: list_ex_iff)
  then show ?thesis by (simp add: set_non_nil)
qed

end
