(* ===== verification/Config.thy ===== *)
theory Config
  imports GoErrors "HOL-Library.Sublist"
begin

text \<open>
  \<^verbatim>\<open>postgres/config.go\<close>: the table prefix, its validation, and the table names every
  other component uses. A Go string is a list of bytes; ranging over it decodes UTF-8, with
  U+FFFD for each byte that starts no valid sequence.
\<close>

section \<open>Ranging over a Go string\<close>

type_synonym rune = nat

definition byte_of :: "char \<Rightarrow> nat" where
  "byte_of c = of_char c"

definition utf8_cont :: "nat \<Rightarrow> bool" where
  "utf8_cont b \<longleftrightarrow> 128 \<le> b \<and> b \<le> 191"

text \<open>The second byte of a sequence has a narrower range after E0, ED, F0 and F4.\<close>

definition utf8_second :: "nat \<Rightarrow> nat \<Rightarrow> bool" where
  "utf8_second b0 b1 \<longleftrightarrow>
     (if b0 = 224 then 160 \<le> b1 \<and> b1 \<le> 191
      else if b0 = 237 then 128 \<le> b1 \<and> b1 \<le> 159
      else if b0 = 240 then 144 \<le> b1 \<and> b1 \<le> 191
      else if b0 = 244 then 128 \<le> b1 \<and> b1 \<le> 143
      else utf8_cont b1)"

text \<open>\<open>utf8.DecodeRune\<close> on a non-ASCII first byte: the rune and the further bytes it takes.\<close>

definition utf8_multi :: "nat \<Rightarrow> nat list \<Rightarrow> rune \<times> nat" where
  "utf8_multi b0 bs =
     (if 194 \<le> b0 \<and> b0 \<le> 223 then
        (case bs of b1 # _ \<Rightarrow>
           if utf8_cont b1 then ((b0 - 192) * 64 + (b1 - 128), 1) else (65533, 0)
         | [] \<Rightarrow> (65533, 0))
      else if 224 \<le> b0 \<and> b0 \<le> 239 then
        (case bs of b1 # b2 # _ \<Rightarrow>
           if utf8_second b0 b1 \<and> utf8_cont b2
           then ((b0 - 224) * 4096 + (b1 - 128) * 64 + (b2 - 128), 2) else (65533, 0)
         | _ \<Rightarrow> (65533, 0))
      else if 240 \<le> b0 \<and> b0 \<le> 244 then
        (case bs of b1 # b2 # b3 # _ \<Rightarrow>
           if utf8_second b0 b1 \<and> utf8_cont b2 \<and> utf8_cont b3
           then ((b0 - 240) * 262144 + (b1 - 128) * 4096 + (b2 - 128) * 64 + (b3 - 128), 3)
           else (65533, 0)
         | _ \<Rightarrow> (65533, 0))
      else (65533, 0))"

function runes_of_bytes :: "nat list \<Rightarrow> rune list" where
  "runes_of_bytes [] = []"
| "runes_of_bytes (b # bs) =
     (if b < 128 then b # runes_of_bytes bs
      else fst (utf8_multi b bs) # runes_of_bytes (drop (snd (utf8_multi b bs)) bs))"
  by pat_completeness auto
termination
  by (relation "measure length") (auto simp: less_Suc_eq_le)

definition go_runes :: "string \<Rightarrow> rune list" where
  "go_runes s = runes_of_bytes (map byte_of s)"

lemma utf8_multi_ge: "128 \<le> b \<Longrightarrow> 128 \<le> fst (utf8_multi b bs)"
proof -
  assume b: "128 \<le> b"
  have two: "128 \<le> (b - 192) * 64 + x" if "194 \<le> b" for x :: nat
    using that by (simp add: trans_le_add1)
  have three: "128 \<le> (b - 224) * 4096 + (b1 - 128) * 64 + x"
    if "utf8_second b b1" "224 \<le> b" "b \<le> 239" for b1 x :: nat
  proof (cases "b = 224")
    case True
    with that have "160 \<le> b1" by (simp add: utf8_second_def)
    then show ?thesis by simp
  next
    case False
    with that show ?thesis by simp
  qed
  have four: "128 \<le> (b - 240) * 262144 + (b1 - 128) * 4096 + y + x"
    if "utf8_second b b1" "240 \<le> b" for b1 x y :: nat
  proof (cases "b = 240")
    case True
    with that have "144 \<le> b1" by (simp add: utf8_second_def)
    then show ?thesis by simp
  next
    case False
    with that show ?thesis by simp
  qed
  show ?thesis
    using b two three four by (auto simp: utf8_multi_def split: list.splits)
qed

text \<open>An ASCII string ranges over its own bytes; any other string has a rune beyond ASCII.\<close>

lemma runes_ascii: "\<forall>b\<in>set bs. b < 128 \<Longrightarrow> runes_of_bytes bs = bs"
  by (induction bs) auto

lemma runes_non_ascii: "b \<in> set bs \<Longrightarrow> 128 \<le> b \<Longrightarrow> \<exists>r\<in>set (runes_of_bytes bs). 128 \<le> r"
proof (induction bs rule: runes_of_bytes.induct)
  case 1
  then show ?case by simp
next
  case (2 c bs)
  then show ?case using utf8_multi_ge [of c bs] by (auto simp: not_less)
qed

lemma all_runes_ascii:
  assumes "\<And>r. P r \<Longrightarrow> r < 128"
  shows "(\<forall>r\<in>set (go_runes s). P r) \<longleftrightarrow> (\<forall>c\<in>set s. P (byte_of c))"
proof (cases "\<forall>b\<in>set (map byte_of s). b < 128")
  case True
  then show ?thesis by (simp add: go_runes_def runes_ascii)
next
  case False
  then obtain c where c: "c \<in> set s" "128 \<le> byte_of c" by (auto simp: not_less)
  then obtain r where "r \<in> set (go_runes s)" "128 \<le> r"
    using runes_non_ascii [of "byte_of c" "map byte_of s"] by (auto simp: go_runes_def)
  with c assms show ?thesis by (meson not_less)
qed

section \<open>Identifiers and table names\<close>

definition is_lower :: "rune \<Rightarrow> bool" where "is_lower r \<longleftrightarrow> 97 \<le> r \<and> r \<le> 122"
definition is_upper :: "rune \<Rightarrow> bool" where "is_upper r \<longleftrightarrow> 65 \<le> r \<and> r \<le> 90"
definition is_digit :: "rune \<Rightarrow> bool" where "is_digit r \<longleftrightarrow> 48 \<le> r \<and> r \<le> 57"

definition safe_rune :: "rune \<Rightarrow> bool" where
  "safe_rune r \<longleftrightarrow> is_lower r \<or> is_upper r \<or> is_digit r \<or> r = 95"

definition isSafeIdent :: "string \<Rightarrow> bool" where
  "isSafeIdent s \<longleftrightarrow>
     (if s = [] then False
      else if \<not> list_all safe_rune (go_runes s) then False
      else \<not> prefix ''_'' s)"

record Config =
  TablePrefix :: string

definition tableName :: "Config \<Rightarrow> string \<Rightarrow> string" where
  "tableName cfg base = (if TablePrefix cfg = [] then base else TablePrefix cfg @ ''_'' @ base)"

definition schemaVersionTable :: "Config \<Rightarrow> string" where
  "schemaVersionTable cfg = tableName cfg ''schema_version''"
definition memoryRecordTable :: "Config \<Rightarrow> string" where
  "memoryRecordTable cfg = tableName cfg ''memory_record''"
definition memoryEventTable :: "Config \<Rightarrow> string" where
  "memoryEventTable cfg = tableName cfg ''memory_event''"
definition idempotencyTable :: "Config \<Rightarrow> string" where
  "idempotencyTable cfg = tableName cfg ''memory_idempotency''"
definition outboxTable :: "Config \<Rightarrow> string" where
  "outboxTable cfg = tableName cfg ''outbox_event''"
definition memoryDecisionTraceTable :: "Config \<Rightarrow> string" where
  "memoryDecisionTraceTable cfg = tableName cfg ''memory_decision_trace''"
definition dedupeIndexTable :: "Config \<Rightarrow> string" where
  "dedupeIndexTable cfg = tableName cfg ''memory_dedupe_index''"

text \<open>\<open>New\<close>: the pool is a handle of the driver, of any type; the store keeps it and the
  configuration.\<close>

record 'pool Store =
  pool :: 'pool
  store_cfg :: Config

definition New :: "'pool option \<Rightarrow> Config \<Rightarrow> err + 'pool Store" where
  "New p cfg =
     (case p of None \<Rightarrow> Inl (Plain ''memory/postgres: pool is required'')
      | Some h \<Rightarrow>
          if TablePrefix cfg \<noteq> [] \<and> \<not> isSafeIdent (TablePrefix cfg)
          then Inl (Plain (''memory/postgres: invalid table prefix '' @ TablePrefix cfg))
          else Inr \<lparr>pool = h, store_cfg = cfg\<rparr>)"

definition tableBases :: "string list" where
  "tableBases = [''schema_version'', ''memory_record'', ''memory_event'',
     ''memory_idempotency'', ''outbox_event'', ''memory_decision_trace'',
     ''memory_dedupe_index'']"

lemmas table_name_defs = schemaVersionTable_def memoryRecordTable_def memoryEventTable_def
  idempotencyTable_def outboxTable_def memoryDecisionTraceTable_def dedupeIndexTable_def
  tableName_def

section \<open>Lemmas\<close>

lemma safe_rune_ascii: "safe_rune r \<Longrightarrow> r < 128"
  by (auto simp: safe_rune_def is_lower_def is_upper_def is_digit_def)

lemma isSafeIdent_bytes:
  "isSafeIdent s \<longleftrightarrow> s \<noteq> [] \<and> (\<forall>c\<in>set s. safe_rune (byte_of c)) \<and> hd s \<noteq> CHR ''_''"
proof -
  have "list_all safe_rune (go_runes s) \<longleftrightarrow> (\<forall>c\<in>set s. safe_rune (byte_of c))"
    using all_runes_ascii [of safe_rune s] safe_rune_ascii by (simp add: list_all_iff)
  then show ?thesis by (cases s) (auto simp: isSafeIdent_def)
qed

lemma New_prefix_ok:
  "New p cfg = Inr st \<Longrightarrow> store_cfg st = cfg \<and> p = Some (pool st)
     \<and> (TablePrefix cfg = [] \<or> isSafeIdent (TablePrefix cfg))"
  by (auto simp: New_def split: option.splits if_splits)

text \<open>No base name ends in an underscore followed by another base name: this is what keeps
  the tables of two prefixes apart.\<close>

lemma bases_no_suffix:
  "a \<in> set tableBases \<Longrightarrow> b \<in> set tableBases \<Longrightarrow> \<not> suffix (''_'' @ a) b"
  unfolding tableBases_def by (simp, elim disjE; simp add: suffix_def; code_simp)

end
