(* ===== verification/WorkerId.thy ===== *)
theory WorkerId
  imports Config "HOL-Library.Word"
begin

text \<open>
  \<^verbatim>\<open>postgres/worker_id.go\<close>: the identity of a relay worker, a sanitised host name, a
  hyphen and the hexadecimal form of sixteen random bytes. The host name lookup and the
  random bytes are arguments.
\<close>

section \<open>Definitions\<close>

definition alnum_rune :: "rune \<Rightarrow> bool" where
  "alnum_rune r \<longleftrightarrow> is_digit r \<or> is_lower r \<or> is_upper r"

text \<open>\<open>strings.Map\<close> over the runes of the name; each kept rune is ASCII, one byte.\<close>

definition sanitize_rune :: "rune \<Rightarrow> char" where
  "sanitize_rune r = (if alnum_rune r then char_of r else CHR ''_'')"

definition sanitizeHostname :: "string \<Rightarrow> string" where
  "sanitizeHostname s = map sanitize_rune (go_runes s)"

definition hex_digit :: "nat \<Rightarrow> char" where
  "hex_digit n = ''0123456789abcdef'' ! n"

definition hex_byte :: "8 word \<Rightarrow> string" where
  "hex_byte b = [hex_digit (unat b div 16), hex_digit (unat b mod 16)]"

definition hex_EncodeToString :: "8 word list \<Rightarrow> string" where
  "hex_EncodeToString bs = concat (map hex_byte bs)"

definition NewRandomWorkerID :: "err + string \<Rightarrow> 8 word list \<Rightarrow> string" where
  "NewRandomWorkerID host buf =
     (let name = (case host of Inl _ \<Rightarrow> ''unknown''
                  | Inr h \<Rightarrow> if h = [] then ''unknown'' else h)
      in sanitizeHostname name @ ''-'' @ hex_EncodeToString buf)"

section \<open>Lemmas\<close>

lemma alnum_rune_ascii: "alnum_rune r \<Longrightarrow> r < 128"
  by (auto simp: alnum_rune_def is_digit_def is_lower_def is_upper_def)

lemma byte_of_char_of: "r < 256 \<Longrightarrow> byte_of (char_of r) = r"
  by (simp add: byte_of_def)

lemma sanitize_rune_safe: "safe_rune (byte_of (sanitize_rune r))"
proof (cases "alnum_rune r")
  case True
  with alnum_rune_ascii [OF True] show ?thesis
    by (auto simp: sanitize_rune_def byte_of_char_of safe_rune_def alnum_rune_def)
next
  case False
  then show ?thesis by (simp add: sanitize_rune_def safe_rune_def byte_of_def)
qed

lemma sanitizeHostname_safe: "c \<in> set (sanitizeHostname s) \<Longrightarrow> safe_rune (byte_of c)"
  by (auto simp: sanitizeHostname_def sanitize_rune_safe)

lemma safe_not_hyphen: "safe_rune (byte_of c) \<Longrightarrow> c \<noteq> CHR ''-''"
  by (auto simp: safe_rune_def is_lower_def is_upper_def is_digit_def byte_of_def)

lemma hyphen_notin_sanitized: "CHR ''-'' \<notin> set (sanitizeHostname s)"
  using sanitizeHostname_safe safe_not_hyphen by blast

lemma runes_nonempty: "s \<noteq> [] \<Longrightarrow> go_runes s \<noteq> []"
  by (cases s) (auto simp: go_runes_def)

lemma sanitizeHostname_nonempty: "s \<noteq> [] \<Longrightarrow> sanitizeHostname s \<noteq> []"
  by (simp add: sanitizeHostname_def runes_nonempty)

lemma hex_digits_distinct: "distinct ''0123456789abcdef''"
  by code_simp

lemma hex_digit_inj: "m < 16 \<Longrightarrow> n < 16 \<Longrightarrow> hex_digit m = hex_digit n \<longleftrightarrow> m = n"
  unfolding hex_digit_def by (rule nth_eq_iff_index_eq [OF hex_digits_distinct]) simp_all

lemma unat_byte_bound: "unat (b :: 8 word) div 16 < 16"
  using unsigned_less [of b, where ?'a = nat] by (simp add: less_mult_imp_div_less)

lemma hex_byte_inj: "hex_byte a = hex_byte b \<longleftrightarrow> a = b"
proof
  assume "hex_byte a = hex_byte b"
  then have "unat a div 16 = unat b div 16" and "unat a mod 16 = unat b mod 16"
    by (simp_all add: hex_byte_def hex_digit_inj unat_byte_bound)
  then have "unat a = unat b" by (metis div_mult_mod_eq)
  then show "a = b" by (simp add: word_unat_eq_iff)
qed simp

lemma length_hex: "length (hex_EncodeToString bs) = 2 * length bs"
  by (induction bs) (simp_all add: hex_EncodeToString_def hex_byte_def)

lemma hex_inj: "hex_EncodeToString as = hex_EncodeToString bs \<longleftrightarrow> as = bs"
proof (induction as arbitrary: bs)
  case Nil
  then show ?case by (cases bs) (simp_all add: hex_EncodeToString_def hex_byte_def)
next
  case (Cons a as)
  show ?case
  proof (cases bs)
    case Nil
    then show ?thesis by (simp add: hex_EncodeToString_def hex_byte_def)
  next
    case (Cons b bs')
    have "hex_EncodeToString (a # as) = hex_EncodeToString (b # bs')
      \<longleftrightarrow> hex_byte a = hex_byte b \<and> hex_EncodeToString as = hex_EncodeToString bs'"
      by (simp add: hex_EncodeToString_def hex_byte_def)
    with Cons Cons.IH [of bs'] show ?thesis by (simp add: hex_byte_inj)
  qed
qed

lemma split_at_hyphen:
  "CHR ''-'' \<notin> set h \<Longrightarrow> takeWhile (\<lambda>c. c \<noteq> CHR ''-'') (h @ ''-'' @ x) = h"
  by (induction h) auto

lemma split_at_hyphen_eq:
  assumes "h @ ''-'' @ x = h' @ ''-'' @ x'" and "CHR ''-'' \<notin> set h" and "CHR ''-'' \<notin> set h'"
  shows "h = h' \<and> x = x'"
  using split_at_hyphen [of h x] split_at_hyphen [of h' x'] assms by simp

lemma sanitizeHostname_alnum:
  assumes "\<forall>c\<in>set s. alnum_rune (byte_of c)"
  shows "sanitizeHostname s = s"
proof -
  have "\<forall>b\<in>set (map byte_of s). b < 128" using assms alnum_rune_ascii by auto
  then have "go_runes s = map byte_of s" by (simp add: go_runes_def runes_ascii)
  with assms show ?thesis by (auto simp: sanitizeHostname_def sanitize_rune_def byte_of_def intro!: map_idI)
qed

end
