(* ===== verification/Naming.thy ===== *)
theory Naming
  imports WorkerId
begin

text \<open>
  Properties of \<^verbatim>\<open>config.go\<close> and \<^verbatim>\<open>worker_id.go\<close>: which names the store can form,
  that the tables of two stores never coincide, and the form of a worker identity.
\<close>

section \<open>Table names\<close>

lemma join_inj:
  assumes "p @ CHR ''_'' # a = p' @ CHR ''_'' # b"
    and "\<not> suffix (CHR ''_'' # a) b" and "\<not> suffix (CHR ''_'' # b) a"
  shows "p = p' \<and> a = b"
proof -
  obtain us where "p = p' @ us \<and> us @ CHR ''_'' # a = CHR ''_'' # b
      \<or> p @ us = p' \<and> CHR ''_'' # a = us @ CHR ''_'' # b"
    using assms(1) by (auto simp: append_eq_append_conv2)
  then show ?thesis
  proof
    assume h: "p = p' @ us \<and> us @ CHR ''_'' # a = CHR ''_'' # b"
    then show ?thesis using assms(2) by (cases us) (auto simp: suffix_def)
  next
    assume h: "p @ us = p' \<and> CHR ''_'' # a = us @ CHR ''_'' # b"
    then show ?thesis using assms(3) by (cases us) (auto simp: suffix_def)
  qed
qed

text \<open>Table names identify their store and their table: whatever the two prefixes, two table
  names of the package are equal only for the same prefix and the same table, so stores with
  different prefixes share no table (as long as Postgres keeps the names as written).\<close>

theorem table_names_disjoint:
  assumes "a \<in> set tableBases" and "b \<in> set tableBases" and "tableName cfg a = tableName cfg' b"
  shows "TablePrefix cfg = TablePrefix cfg' \<and> a = b"
proof -
  have ns: "\<not> suffix (CHR ''_'' # a) b" "\<not> suffix (CHR ''_'' # b) a"
    using bases_no_suffix [OF assms(1,2)] bases_no_suffix [OF assms(2,1)] by simp_all
  show ?thesis
  proof (cases "TablePrefix cfg = []"; cases "TablePrefix cfg' = []")
    assume "TablePrefix cfg = []" "TablePrefix cfg' \<noteq> []"
    with assms(3) ns show ?thesis by (auto simp: tableName_def suffix_def)
  next
    assume "TablePrefix cfg \<noteq> []" "TablePrefix cfg' = []"
    with assms(3) ns show ?thesis by (auto simp: tableName_def suffix_def)
  next
    assume "TablePrefix cfg \<noteq> []" "TablePrefix cfg' \<noteq> []"
    with assms(3) join_inj [OF _ ns, of "TablePrefix cfg" "TablePrefix cfg'"] show ?thesis
      by (simp add: tableName_def)
  qed (use assms(3) in \<open>simp add: tableName_def\<close>)
qed

lemma table_names_disjoint_witness:
  "tableName \<lparr>TablePrefix = ''m8''\<rparr> ''outbox_event'' = tableName \<lparr>TablePrefix = ''m8''\<rparr> ''outbox_event''
   \<and> (TablePrefix \<lparr>TablePrefix = ''m8''\<rparr> = ''m8'' \<and> ''outbox_event'' = ''outbox_event'')"
  using table_names_disjoint [of "''outbox_event''" "''outbox_event''"
      "\<lparr>TablePrefix = ''m8''\<rparr>" "\<lparr>TablePrefix = ''m8''\<rparr>"]
  by (simp add: tableBases_def)

text \<open>Nothing but letters, digits and underscores reaches a statement: when \<open>New\<close> accepts a
  configuration, every byte of every table name the store splices into SQL is one of these, so
  no prefix can close a quote, end a statement or start a comment.\<close>

theorem table_names_safe:
  assumes "New p cfg = Inr st" and "b \<in> set tableBases" and "c \<in> set (tableName (store_cfg st) b)"
  shows "safe_rune (byte_of c)"
proof -
  have base: "\<forall>c\<in>set b. safe_rune (byte_of c)"
    using assms(2) unfolding tableBases_def
    by (auto simp: safe_rune_def is_lower_def is_upper_def is_digit_def byte_of_def)
  have "TablePrefix cfg = [] \<or> isSafeIdent (TablePrefix cfg)" and cfg: "store_cfg st = cfg"
    using New_prefix_ok [OF assms(1)] by auto
  moreover have "safe_rune (byte_of CHR ''_'')" by (simp add: safe_rune_def byte_of_def)
  ultimately show ?thesis
    using base assms(3) by (auto simp: tableName_def isSafeIdent_bytes split: if_splits)
qed

lemma table_names_safe_witness:
  "\<forall>c\<in>set (tableName \<lparr>TablePrefix = ''a1''\<rparr> ''memory_record''). safe_rune (byte_of c)"
proof -
  have "New (Some ()) \<lparr>TablePrefix = ''a1''\<rparr> = Inr \<lparr>pool = (), store_cfg = \<lparr>TablePrefix = ''a1''\<rparr>\<rparr>"
    by (simp add: New_def isSafeIdent_bytes safe_rune_def is_lower_def is_digit_def byte_of_def)
  from table_names_safe [OF this, of "''memory_record''"] show ?thesis by (simp add: tableBases_def)
qed

section \<open>Worker identities\<close>

text \<open>The form of a worker identity. It has exactly one hyphen: before it is the sanitised host
  name (never empty, letters, digits and underscores only, \<open>unknown\<close> when the lookup failed or
  gave nothing), after it are the 32 hexadecimal digits of the sixteen random bytes; so the
  suffix can be recovered, and two identities are equal only if their random bytes are.\<close>

theorem worker_id_form:
  assumes "length buf = 16" and "length buf' = 16"
  shows "(let w = NewRandomWorkerID host buf; h = takeWhile (\<lambda>c. c \<noteq> CHR ''-'') w in
      w = h @ ''-'' @ hex_EncodeToString buf \<and> h \<noteq> [] \<and> (\<forall>c\<in>set h. safe_rune (byte_of c))
      \<and> length (hex_EncodeToString buf) = 32
      \<and> ((\<exists>e. host = Inl e) \<or> host = Inr '''' \<longrightarrow> h = ''unknown''))
    \<and> (NewRandomWorkerID host buf = NewRandomWorkerID host' buf' \<longrightarrow> buf = buf')"
proof -
  obtain n where n: "n \<noteq> []" "NewRandomWorkerID host buf = sanitizeHostname n @ ''-'' @ hex_EncodeToString buf"
    and un: "(\<exists>e. host = Inl e) \<or> host = Inr '''' \<Longrightarrow> n = ''unknown''"
    by (cases host; cases "host = Inr ''''") (auto simp: NewRandomWorkerID_def Let_def)
  obtain n' where n': "NewRandomWorkerID host' buf' = sanitizeHostname n' @ ''-'' @ hex_EncodeToString buf'"
    by (auto simp: NewRandomWorkerID_def Let_def)
  have san: "sanitizeHostname ''unknown'' = ''unknown''"
    by (rule sanitizeHostname_alnum) (simp add: alnum_rune_def byte_of_def is_lower_def)
  have "takeWhile (\<lambda>c. c \<noteq> CHR ''-'') (NewRandomWorkerID host buf) = sanitizeHostname n"
    unfolding n(2) by (rule split_at_hyphen [OF hyphen_notin_sanitized])
  moreover have "buf = buf'" if "NewRandomWorkerID host buf = NewRandomWorkerID host' buf'"
    using that split_at_hyphen_eq [OF _ hyphen_notin_sanitized hyphen_notin_sanitized, of n _ n']
    unfolding n(2) n' by (metis hex_inj)
  ultimately show ?thesis
    using n un san assms(1) sanitizeHostname_nonempty [OF n(1)] sanitizeHostname_safe [of _ n]
    by (simp add: Let_def length_hex)
qed

lemma worker_id_form_witness:
  "takeWhile (\<lambda>c. c \<noteq> CHR ''-'') (NewRandomWorkerID (Inr '''') (replicate 16 0)) = ''unknown''"
  using worker_id_form [of "replicate 16 0" "replicate 16 0" "Inr ''''" "Inr ''''"]
  by (simp add: Let_def)

end
