(* ===== verification/Schema.thy ===== *)
theory Schema
  imports Config
begin

text \<open>
  \<^verbatim>\<open>postgres/schema.go\<close>: the migration runner and the statements of its groups, over
  a catalog of tables, indexes and recorded schema versions. Each DDL statement is a value of
  \<open>ddl\<close>; \<open>exec_ddl\<close> is its effect on the catalog. Postgres folds an unquoted identifier to
  lower case and cuts it at 63 bytes (\<open>pg_ident\<close>); a string compared as a value is left as it
  is.
\<close>

section \<open>Catalog and DDL\<close>

datatype sql_type = BIGINT | INTEGER | TEXT | BOOLEAN | DOUBLE_PRECISION | JSONB | TIMESTAMPTZ | UUID

record column =
  col_name :: string
  col_type :: sql_type
  col_not_null :: bool
  col_default :: "string option"

datatype table_constraint =
    PrimaryKey "string list"
  | Unique "string list"
  | CheckUnitInterval string
  | CheckIn string "string list"

record table_def =
  td_columns :: "column list"
  td_constraints :: "table_constraint list"

datatype index_pred = EveryRow | WhereNotNull string | WhereEq string string

datatype ddl =
    CreateTable string table_def
  | CreateIndex string string "(string \<times> bool) list" index_pred
  | AddColumn string column
  | ReplaceKindCheck string "string list"
  | CommentOnColumn string string string

record catalog =
  tables :: "(string \<times> table_def) list"
  indexes :: "string list"
  version_rows :: "(string \<times> int) list"

definition empty_catalog :: catalog where
  "empty_catalog = \<lparr>tables = [], indexes = [], version_rows = []\<rparr>"

definition pg_fold :: "char \<Rightarrow> char" where
  "pg_fold c = (if is_upper (byte_of c) then char_of (byte_of c + 32) else c)"

definition pg_ident :: "string \<Rightarrow> string" where
  "pg_ident s = take 63 (map pg_fold s)"

definition find_table :: "catalog \<Rightarrow> string \<Rightarrow> table_def option" where
  "find_table cat n = map_of (tables cat) (pg_ident n)"

definition relation_exists :: "catalog \<Rightarrow> string \<Rightarrow> bool" where
  "relation_exists cat n \<longleftrightarrow> pg_ident n \<in> set (map fst (tables cat)) \<or> pg_ident n \<in> set (indexes cat)"

definition column_names :: "table_def \<Rightarrow> string list" where
  "column_names t = map col_name (td_columns t)"

definition set_table :: "string \<Rightarrow> table_def \<Rightarrow> catalog \<Rightarrow> catalog" where
  "set_table n t cat = cat\<lparr>tables := map (\<lambda>(m, u). if m = pg_ident n then (m, t) else (m, u)) (tables cat)\<rparr>"

text \<open>\<open>pg_get_constraintdef(oid) ILIKE '%kind%'\<close> on the CHECK constraints of the schema.\<close>

fun contains :: "string \<Rightarrow> string \<Rightarrow> bool" where
  "contains pat [] = (pat = [])"
| "contains pat (c # s) = (prefix pat (c # s) \<or> contains pat s)"

fun check_mentions :: "string \<Rightarrow> table_constraint \<Rightarrow> bool" where
  "check_mentions w (CheckIn c vs) = (contains w (map pg_fold c) \<or> (\<exists>v\<in>set vs. contains w (map pg_fold v)))"
| "check_mentions w (CheckUnitInterval c) = contains w (map pg_fold c)"
| "check_mentions w _ = False"

fun ddl_effect :: "ddl \<Rightarrow> catalog \<Rightarrow> pg_error + catalog" where
  "ddl_effect (CreateTable n t) cat =
     (if relation_exists cat n then Inr cat
      else Inr (cat\<lparr>tables := tables cat @ [(pg_ident n, t)]\<rparr>))"
| "ddl_effect (CreateIndex i n keys p) cat =
     (case find_table cat n of None \<Rightarrow> Inl (UndefinedTable n)
      | Some t \<Rightarrow>
          if \<not> (\<forall>k\<in>set keys. fst k \<in> set (column_names t)) then Inl (UndefinedColumn n)
          else if relation_exists cat i then Inr cat
          else Inr (cat\<lparr>indexes := indexes cat @ [pg_ident i]\<rparr>))"
| "ddl_effect (AddColumn n c) cat =
     (case find_table cat n of None \<Rightarrow> Inl (UndefinedTable n)
      | Some t \<Rightarrow>
          if col_name c \<in> set (column_names t) then Inr cat
          else Inr (set_table n (t\<lparr>td_columns := td_columns t @ [c]\<rparr>) cat))"
| "ddl_effect (ReplaceKindCheck n kinds) cat =
     (case find_table cat n of None \<Rightarrow> Inl (UndefinedTable n)
      | Some t \<Rightarrow>
          Inr (set_table n (t\<lparr>td_constraints :=
            filter (\<lambda>k. \<not> check_mentions ''kind'' k) (td_constraints t) @ [CheckIn ''kind'' kinds]\<rparr>) cat))"
| "ddl_effect (CommentOnColumn n c txt) cat =
     (case find_table cat n of None \<Rightarrow> Inl (UndefinedTable n)
      | Some t \<Rightarrow> if c \<in> set (column_names t) then Inr cat else Inl (UndefinedColumn n))"

text \<open>The names are spliced into the statement unquoted: one that starts with a digit is a
  syntax error.\<close>

definition ident_start_ok :: "string \<Rightarrow> bool" where
  "ident_start_ok n \<longleftrightarrow> n \<noteq> [] \<and> \<not> is_digit (byte_of (hd n))"

fun ddl_idents :: "ddl \<Rightarrow> string list" where
  "ddl_idents (CreateTable n t) = [n]"
| "ddl_idents (CreateIndex i n keys p) = [i, n]"
| "ddl_idents (AddColumn n c) = [n]"
| "ddl_idents (ReplaceKindCheck n kinds) = [n]"
| "ddl_idents (CommentOnColumn n c txt) = [n]"

definition exec_ddl :: "ddl \<Rightarrow> catalog \<Rightarrow> pg_error + catalog" where
  "exec_ddl d cat = (if list_all ident_start_ok (ddl_idents d) then ddl_effect d cat else Inl SyntaxError)"

section \<open>The statements of the groups\<close>

definition req :: "string \<Rightarrow> sql_type \<Rightarrow> column" where
  "req n t = \<lparr>col_name = n, col_type = t, col_not_null = True, col_default = None\<rparr>"

definition opt :: "string \<Rightarrow> sql_type \<Rightarrow> column" where
  "opt n t = \<lparr>col_name = n, col_type = t, col_not_null = False, col_default = None\<rparr>"

definition dflt :: "string \<Rightarrow> sql_type \<Rightarrow> string \<Rightarrow> column" where
  "dflt n t d = \<lparr>col_name = n, col_type = t, col_not_null = True, col_default = Some d\<rparr>"

definition kinds_v1 :: "string list" where
  "kinds_v1 = [''episodic'', ''semantic'']"

definition kinds_v3 :: "string list" where
  "kinds_v3 = [''working'', ''episodic'', ''semantic'']"

definition sources_v1 :: "string list" where
  "sources_v1 = [''user_saved'', ''agent_inferred'', ''system'']"

definition schema_version_table :: table_def where
  "schema_version_table = \<lparr>td_columns =
    [req ''version'' BIGINT, dflt ''applied_at'' TIMESTAMPTZ ''NOW()''],
   td_constraints =
    [PrimaryKey [''version'']]\<rparr>"

definition memory_record_table :: table_def where
  "memory_record_table = \<lparr>td_columns =
    [req ''memory_id'' TEXT, req ''tenant_id'' TEXT, req ''user_id'' TEXT,
     opt ''project_id'' TEXT, opt ''session_id'' TEXT, req ''kind'' TEXT,
     req ''source'' TEXT, req ''category'' TEXT, req ''content'' TEXT,
     req ''normalized_content_hash'' TEXT, dflt ''tags'' JSONB ''[]'',
     req ''importance'' DOUBLE_PRECISION, dflt ''pinned'' BOOLEAN ''FALSE'',
     dflt ''disabled'' BOOLEAN ''FALSE'', dflt ''deleted'' BOOLEAN ''FALSE'',
     req ''version'' BIGINT, dflt ''created_at'' TIMESTAMPTZ ''NOW()'',
     dflt ''updated_at'' TIMESTAMPTZ ''NOW()'', opt ''deleted_at'' TIMESTAMPTZ,
     opt ''last_access_at'' TIMESTAMPTZ, dflt ''hit_count'' BIGINT ''0'',
     opt ''consolidated_from_event_id'' TEXT],
   td_constraints =
    [PrimaryKey [''memory_id''], Unique [''tenant_id'', ''memory_id''],
     CheckUnitInterval ''importance'', CheckIn ''kind'' kinds_v1, CheckIn ''source'' sources_v1]\<rparr>"

definition memory_event_table :: table_def where
  "memory_event_table = \<lparr>td_columns =
    [req ''event_id'' TEXT, req ''memory_id'' TEXT, req ''tenant_id'' TEXT,
     req ''event_type'' TEXT, req ''version'' BIGINT, opt ''idempotency_key'' TEXT,
     req ''payload'' JSONB, dflt ''created_at'' TIMESTAMPTZ ''NOW()''],
   td_constraints =
    [PrimaryKey [''event_id''], Unique [''memory_id'', ''version'', ''event_type'']]\<rparr>"

definition memory_idempotency_table :: table_def where
  "memory_idempotency_table = \<lparr>td_columns =
    [req ''tenant_id'' TEXT, req ''idempotency_key'' TEXT, req ''request_hash'' TEXT,
     opt ''memory_id'' TEXT, req ''response_snapshot'' JSONB,
     dflt ''created_at'' TIMESTAMPTZ ''NOW()'', opt ''expires_at'' TIMESTAMPTZ],
   td_constraints =
    [PrimaryKey [''tenant_id'', ''idempotency_key'']]\<rparr>"

definition outbox_event_table :: table_def where
  "outbox_event_table = \<lparr>td_columns =
    [req ''outbox_id'' TEXT, req ''aggregate_type'' TEXT, req ''aggregate_id'' TEXT,
     req ''tenant_id'' TEXT, req ''event_id'' TEXT, req ''event_type'' TEXT,
     req ''payload'' JSONB, req ''status'' TEXT, dflt ''attempt_count'' INTEGER ''0'',
     dflt ''created_at'' TIMESTAMPTZ ''NOW()'', opt ''sent_at'' TIMESTAMPTZ,
     opt ''last_error'' TEXT],
   td_constraints =
    [PrimaryKey [''outbox_id'']]\<rparr>"

definition v1_tables :: "Config \<Rightarrow> ddl list" where
  "v1_tables cfg =
    [CreateTable (schemaVersionTable cfg) schema_version_table,
     CreateTable (memoryRecordTable cfg) memory_record_table,
     CreateTable (memoryEventTable cfg) memory_event_table,
     CreateTable (idempotencyTable cfg) memory_idempotency_table,
     CreateTable (outboxTable cfg) outbox_event_table]"

definition v1_indexes :: "Config \<Rightarrow> ddl list" where
  "v1_indexes cfg =
    (let rec = memoryRecordTable cfg; ev = memoryEventTable cfg; ob = outboxTable cfg in
    [CreateIndex (rec @ ''_scope_idx'') rec
       [(''tenant_id'', False), (''user_id'', False), (''project_id'', False),
        (''deleted'', False), (''disabled'', False)] EveryRow,
     CreateIndex (rec @ ''_category_idx'') rec
       [(''tenant_id'', False), (''user_id'', False), (''category'', False),
        (''deleted'', False), (''disabled'', False)] EveryRow,
     CreateIndex (rec @ ''_hash_idx'') rec
       [(''tenant_id'', False), (''user_id'', False), (''normalized_content_hash'', False)] EveryRow,
     CreateIndex (rec @ ''_updated_at_idx'') rec [(''tenant_id'', False), (''updated_at'', True)] EveryRow,
     CreateIndex (ev @ ''_memory_version_idx'') ev [(''memory_id'', False), (''version'', False)] EveryRow,
     CreateIndex (ev @ ''_tenant_created_idx'') ev [(''tenant_id'', False), (''created_at'', True)] EveryRow,
     CreateIndex (ev @ ''_event_type_created_idx'') ev [(''event_type'', False), (''created_at'', True)] EveryRow,
     CreateIndex (ob @ ''_status_created_idx'') ob [(''status'', False), (''created_at'', False)] EveryRow,
     CreateIndex (ob @ ''_aggregate_created_idx'') ob [(''aggregate_id'', False), (''created_at'', False)] EveryRow,
     CreateIndex (ob @ ''_event_id_idx'') ob [(''event_id'', False)] EveryRow])"

definition memory_decision_trace_table :: table_def where
  "memory_decision_trace_table = \<lparr>td_columns =
    [dflt ''trace_id'' UUID ''gen_random_uuid()'', req ''tenant_id'' TEXT, opt ''request_id'' TEXT,
        req ''stage'' TEXT, req ''reason'' TEXT, opt ''memory_id'' TEXT, opt ''version'' BIGINT,
        dflt ''emitted_at'' TIMESTAMPTZ ''NOW()'', req ''emitter'' TEXT, opt ''payload'' JSONB],
   td_constraints = [PrimaryKey [''trace_id'']]\<rparr>"

definition v1_trace :: "Config \<Rightarrow> ddl list" where
  "v1_trace cfg =
    (let tr = memoryDecisionTraceTable cfg in
    [CreateTable tr memory_decision_trace_table,
     CreateIndex (tr @ ''_tenant_time_idx'') tr [(''tenant_id'', False), (''emitted_at'', True)] EveryRow,
     CreateIndex (tr @ ''_request_idx'') tr [(''request_id'', False)] (WhereNotNull ''request_id''),
     CreateIndex (tr @ ''_stage_reason_idx'') tr [(''stage'', False), (''reason'', False)] EveryRow,
     CommentOnColumn tr ''reason'' ''free-form in v1.x (M7); enum frozen in v2 (M8)''])"

definition v1Statements :: "Config \<Rightarrow> ddl list" where
  "v1Statements cfg = v1_tables cfg @ v1_indexes cfg @ v1_trace cfg"

definition v2RelayLeaseStatements :: "Config \<Rightarrow> ddl list" where
  "v2RelayLeaseStatements cfg =
    (let outbox = outboxTable cfg in
    [AddColumn outbox (opt ''claimed_by'' TEXT),
     AddColumn outbox (opt ''claimed_at'' TIMESTAMPTZ),
     AddColumn outbox (opt ''lease_expires_at'' TIMESTAMPTZ),
     CreateIndex (outbox @ ''_lease_idx'') outbox [(''status'', False), (''lease_expires_at'', False)]
       (WhereEq ''status'' ''processing'')])"

definition memory_dedupe_index_table :: table_def where
  "memory_dedupe_index_table = \<lparr>td_columns =
    [req ''tenant_id'' TEXT, req ''dedupe_key'' TEXT, req ''winner_memory_id'' TEXT,
        dflt ''created_at'' TIMESTAMPTZ ''NOW()''],
   td_constraints = [PrimaryKey [''tenant_id'', ''dedupe_key'']]\<rparr>"

definition v3WorkingAndDedupeStatements :: "Config \<Rightarrow> ddl list" where
  "v3WorkingAndDedupeStatements cfg =
    [ReplaceKindCheck (memoryRecordTable cfg) kinds_v3,
     CreateTable (dedupeIndexTable cfg) memory_dedupe_index_table]"

section \<open>The runner\<close>

definition HeadSchemaVersion :: int where "HeadSchemaVersion = 3"
definition AcceptableSkewVersions :: int where "AcceptableSkewVersions = 5"

record migrationGroup =
  mg_Version :: int
  mg_Transactional :: bool
  mg_Statements :: "ddl list"

definition migrationGroups :: "Config \<Rightarrow> migrationGroup list" where
  "migrationGroups cfg =
    [\<lparr>mg_Version = 1, mg_Transactional = True, mg_Statements = v1Statements cfg\<rparr>,
     \<lparr>mg_Version = 2, mg_Transactional = True, mg_Statements = v2RelayLeaseStatements cfg\<rparr>,
     \<lparr>mg_Version = 3, mg_Transactional = True, mg_Statements = v3WorkingAndDedupeStatements cfg\<rparr>]"

text \<open>
  What can go wrong in one run, chosen by the environment: either query of the current
  version, the begin, a statement, the version insert and the commit of each group. A statement that
  reports an error may have been applied all the same (\<open>CommitUnknown\<close>); inside a transaction that makes no
  difference, since the rollback undoes it.
\<close>

record migrate_env =
  me_exists :: "string option"
  me_max :: "string option"
  me_begin :: "int \<Rightarrow> string option"
  me_stmt :: "int \<Rightarrow> nat \<Rightarrow> commit_outcome"
  me_record :: "int \<Rightarrow> commit_outcome"
  me_commit :: "int \<Rightarrow> commit_outcome"

definition vlabel :: "string \<Rightarrow> int \<Rightarrow> string \<Rightarrow> string" where
  "vlabel pre v post = ''memory/postgres: migrate '' @ pre @ ''v'' @ go_itoa v @ post"

text \<open>\<open>SELECT EXISTS (... table_name = $1)\<close>: the argument is a value, so it is not folded to lower case like
  the identifiers of the DDL; but the column has the type \<open>name\<close>, which the argument takes, so it is cut at 63
  bytes like them.\<close>

definition pg_name :: "string \<Rightarrow> string" where
  "pg_name s = take 63 s"

definition currentSchemaVersion :: "migrate_env \<Rightarrow> Config \<Rightarrow> catalog \<Rightarrow> err + int" where
  "currentSchemaVersion me cfg cat =
    (case me_exists me of
       Some t \<Rightarrow> Inl (Wrap ''memory/postgres: schema version table exists: '' (Pg (DriverFailure t)))
     | None \<Rightarrow>
        if pg_name (schemaVersionTable cfg) \<notin> set (map fst (tables cat)) then Inr 0
        else (case me_max me of
           Some t \<Rightarrow> Inl (Wrap ''memory/postgres: current schema version: '' (Pg (DriverFailure t)))
         | None \<Rightarrow> Inr (case [v. (n, v) \<leftarrow> version_rows cat, n = pg_ident (schemaVersionTable cfg)] of
             [] \<Rightarrow> 0 | v # vs \<Rightarrow> foldl max v vs)))"

text \<open>\<open>INSERT INTO schema_version (version) VALUES ($1) ON CONFLICT (version) DO NOTHING\<close>\<close>

definition record_version :: "Config \<Rightarrow> int \<Rightarrow> catalog \<Rightarrow> pg_error + catalog" where
  "record_version cfg v cat =
    (let t = pg_ident (schemaVersionTable cfg) in
     if find_table cat (schemaVersionTable cfg) = None then Inl (UndefinedTable t)
     else if (t, v) \<in> set (version_rows cat) then Inr cat
     else Inr (cat\<lparr>version_rows := version_rows cat @ [(t, v)]\<rparr>))"

text \<open>The answer to one statement and the catalog it leaves; \<open>r\<close> is what the server makes of it.\<close>

definition answered :: "commit_outcome \<Rightarrow> pg_error + 'a \<Rightarrow> 'a \<Rightarrow> pg_error option \<times> 'a" where
  "answered out r old =
    (case out of
       Committed \<Rightarrow> (case r of Inl e \<Rightarrow> (Some e, old) | Inr x \<Rightarrow> (None, x))
     | CommitRefused t \<Rightarrow> (Some (DriverFailure t), old)
     | CommitUnknown t \<Rightarrow> (Some (DriverFailure t), case r of Inl e \<Rightarrow> old | Inr x \<Rightarrow> x))"

text \<open>The statement loop. \<open>exec_stmts\<close> returns the error, if any, with the catalog it
  leaves: a transaction throws that catalog away, the direct runner
  keeps it.\<close>

fun exec_stmts :: "(nat \<Rightarrow> commit_outcome) \<Rightarrow> nat \<Rightarrow> ddl list \<Rightarrow> catalog \<Rightarrow> pg_error option \<times> catalog" where
  "exec_stmts f i [] cat = (None, cat)"
| "exec_stmts f i (d # ds) cat =
    (case answered (f i) (exec_ddl d cat) cat of
       (Some e, cat') \<Rightarrow> (Some e, cat')
     | (None, cat') \<Rightarrow> exec_stmts f (Suc i) ds cat')"

definition runGroupInTx :: "migrate_env \<Rightarrow> Config \<Rightarrow> migrationGroup \<Rightarrow> catalog \<Rightarrow> (err + unit) \<times> catalog" where
  "runGroupInTx me cfg g cat =
    (let v = mg_Version g in
     case me_begin me v of
       Some t \<Rightarrow> (Inl (Wrap (vlabel ''begin tx ('' v ''): '') (Pg (DriverFailure t))), cat)
     | None \<Rightarrow>
       (case exec_stmts (me_stmt me v) 0 (mg_Statements g) cat of
          (Some e, _) \<Rightarrow> (Inl (Wrap (vlabel '''' v '': '') (Pg e)), cat)
        | (None, cat1) \<Rightarrow>
          (case answered (me_record me v) (record_version cfg v cat1) cat1 of
             (Some e, _) \<Rightarrow> (Inl (Wrap (vlabel '''' v '' record version: '') (Pg e)), cat)
           | (None, cat2) \<Rightarrow>
             (case me_commit me v of
                Committed \<Rightarrow> (Inr (), cat2)
              | CommitRefused t \<Rightarrow> (Inl (Wrap (vlabel '''' v '' commit: '') (Pg (DriverFailure t))), cat)
              | CommitUnknown t \<Rightarrow> (Inl (Wrap (vlabel '''' v '' commit: '') (Pg (DriverFailure t))), cat2)))))"

definition runGroupDirect :: "migrate_env \<Rightarrow> Config \<Rightarrow> migrationGroup \<Rightarrow> catalog \<Rightarrow> (err + unit) \<times> catalog" where
  "runGroupDirect me cfg g cat =
    (let v = mg_Version g in
     case exec_stmts (me_stmt me v) 0 (mg_Statements g) cat of
       (Some e, cat1) \<Rightarrow> (Inl (Wrap (vlabel '''' v '' (direct): '') (Pg e)), cat1)
     | (None, cat1) \<Rightarrow>
       (case answered (me_record me v) (record_version cfg v cat1) cat1 of
          (Some e, cat2) \<Rightarrow> (Inl (Wrap (vlabel '''' v '' (direct) record version: '') (Pg e)), cat2)
        | (None, cat2) \<Rightarrow> (Inr (), cat2)))"

fun run_groups :: "migrate_env \<Rightarrow> Config \<Rightarrow> int \<Rightarrow> migrationGroup list \<Rightarrow> catalog \<Rightarrow> (err + unit) \<times> catalog" where
  "run_groups me cfg current [] cat = (Inr (), cat)"
| "run_groups me cfg current (g # gs) cat =
    (if mg_Version g \<le> current then run_groups me cfg current gs cat
     else (case (if mg_Transactional g then runGroupInTx me cfg g cat else runGroupDirect me cfg g cat) of
         (Inl e, cat') \<Rightarrow> (Inl e, cat')
       | (Inr _, cat') \<Rightarrow> run_groups me cfg current gs cat'))"

definition Migrate :: "migrate_env \<Rightarrow> Config \<Rightarrow> catalog \<Rightarrow> (err + unit) \<times> catalog" where
  "Migrate me cfg cat =
    (case currentSchemaVersion me cfg cat of
       Inl e \<Rightarrow> (Inl e, cat)
     | Inr current \<Rightarrow>
        if current > HeadSchemaVersion + AcceptableSkewVersions
        then (Inl (Annot ErrSchemaVersionAhead
               (''db='' @ go_itoa current @ '' code='' @ go_itoa HeadSchemaVersion)), cat)
        else run_groups me cfg current (migrationGroups cfg) cat)"

text \<open>The environment in which nothing fails.\<close>

definition calm_migration :: migrate_env where
  "calm_migration = \<lparr>me_exists = None, me_max = None, me_begin = (\<lambda>_. None), me_stmt = (\<lambda>_ _. Committed),
     me_record = (\<lambda>_. Committed), me_commit = (\<lambda>_. Committed)\<rparr>"

end
