(* ===== verification/Migration.thy ===== *)
theory Migration
  imports Schema
begin

text \<open>
  What the migration runner guarantees: a transactional group is applied whole or not at all,
  a migration interrupted anywhere is completed by the next run, an up-to-date database is
  left alone, one too far ahead is refused; and where the lookup of the version table goes
  wrong, because it compares an unfolded name.
\<close>

section \<open>Statement loop and groups under faults\<close>

lemma answered_None: "answered out r old = (None, x) \<longleftrightarrow> out = Committed \<and> r = Inr x"
  by (auto simp: answered_def split: commit_outcome.splits sum.splits)

lemma answered_calm [simp]: "answered Committed (Inr x) old = (None, x)" "answered Committed (Inl e) old = (Some e, old)"
  by (simp_all add: answered_def)

lemma answered_snd: "answered out r old = (e, c) \<Longrightarrow> c = old \<or> r = Inr c"
  by (auto simp: answered_def split: commit_outcome.splits sum.splits)

lemma exec_stmts_faultless:
  "exec_stmts f i ds cat = (None, c) \<Longrightarrow> exec_stmts (\<lambda>_. Committed) j ds cat = (None, c)"
  by (induction ds arbitrary: cat i j) (auto simp: answered_None split: prod.splits option.splits)

lemma runGroupInTx_cases:
  obtains (failed) e where "runGroupInTx me cfg g cat = (Inl e, cat)"
  | (applied) "runGroupInTx me cfg g cat = runGroupInTx calm_migration cfg g cat"
      "fst (runGroupInTx calm_migration cfg g cat) = Inr ()"
  | (lost) e where "runGroupInTx me cfg g cat = (Inl e, snd (runGroupInTx calm_migration cfg g cat))"
      "fst (runGroupInTx calm_migration cfg g cat) = Inr ()"
proof (cases "me_begin me (mg_Version g)")
  case (Some t)
  then show ?thesis by (auto intro: failed simp: runGroupInTx_def Let_def)
next
  case nobegin: None
  obtain r cat1 where stm: "exec_stmts (me_stmt me (mg_Version g)) 0 (mg_Statements g) cat = (r, cat1)"
    by fastforce
  show ?thesis
  proof (cases r)
    case (Some e)
    with nobegin stm show ?thesis by (auto intro: failed simp: runGroupInTx_def Let_def)
  next
    case None
    with stm have calm: "exec_stmts (\<lambda>_. Committed) 0 (mg_Statements g) cat = (None, cat1)"
      by (auto intro: exec_stmts_faultless)
    show ?thesis
    proof (cases "fst (answered (me_record me (mg_Version g)) (record_version cfg (mg_Version g) cat1) cat1)")
      case (Some e)
      then obtain c where "answered (me_record me (mg_Version g)) (record_version cfg (mg_Version g) cat1) cat1 = (Some e, c)"
        by (metis prod.collapse)
      with nobegin stm None show ?thesis by (auto intro: failed simp: runGroupInTx_def Let_def)
    next
      case none: None
      then obtain cat2 where Inr: "answered (me_record me (mg_Version g)) (record_version cfg (mg_Version g) cat1) cat1 = (None, cat2)"
        by (metis prod.collapse)
      then have "record_version cfg (mg_Version g) cat1 = Inr cat2" by (simp add: answered_None)
      then have ok: "runGroupInTx calm_migration cfg g cat = (Inr (), cat2)"
        using calm by (simp add: runGroupInTx_def Let_def calm_migration_def)
      show ?thesis
      proof (cases "me_commit me (mg_Version g)")
        case Committed
        with nobegin stm None Inr have "runGroupInTx me cfg g cat = (Inr (), cat2)"
          by (simp add: runGroupInTx_def Let_def)
        with ok show ?thesis by (intro applied) simp_all
      next
        case (CommitRefused t)
        with nobegin stm None Inr show ?thesis by (auto intro: failed simp: runGroupInTx_def Let_def)
      next
        case (CommitUnknown t)
        with nobegin stm None Inr ok show ?thesis by (auto intro: lost simp: runGroupInTx_def Let_def)
      qed
    qed
  qed
qed

text \<open>A transactional migration group is atomic: whatever fails in it (begin, any statement,
  the version insert, the commit), a run that reports an error leaves either the catalog it
  started from or, when only the answer to the commit was lost, exactly the catalog a
  successful run leaves; and a run that reports success leaves that catalog.\<close>

theorem group_atomic:
  "snd (runGroupInTx me cfg g cat) \<in> {cat, snd (runGroupInTx calm_migration cfg g cat)}
   \<and> (fst (runGroupInTx me cfg g cat) = Inr () \<longrightarrow>
        runGroupInTx me cfg g cat = runGroupInTx calm_migration cfg g cat)"
  by (cases rule: runGroupInTx_cases [of me cfg g cat]) auto

lemma group_atomic_witness:
  "snd (runGroupInTx (calm_migration\<lparr>me_commit := \<lambda>_. CommitRefused ''down''\<rparr>) \<lparr>TablePrefix = ''m5''\<rparr>
      \<lparr>mg_Version = 2, mg_Transactional = True, mg_Statements = []\<rparr> empty_catalog)
    \<in> {empty_catalog, snd (runGroupInTx calm_migration \<lparr>TablePrefix = ''m5''\<rparr>
      \<lparr>mg_Version = 2, mg_Transactional = True, mg_Statements = []\<rparr> empty_catalog)}"
  using group_atomic [of "calm_migration\<lparr>me_commit := \<lambda>_. CommitRefused ''down''\<rparr>"
      "\<lparr>TablePrefix = ''m5''\<rparr>" "\<lparr>mg_Version = 2, mg_Transactional = True, mg_Statements = []\<rparr>" empty_catalog]
  by blast

section \<open>Prefixes whose names Postgres keeps\<close>

text \<open>A prefix that starts with no digit, has no upper-case letter and at most 24 bytes: every
  table and index name of the schema then fits in 63 bytes and folds to itself.\<close>

definition plain_prefix :: "Config \<Rightarrow> bool" where
  "plain_prefix cfg \<longleftrightarrow> list_all (\<lambda>c. \<not> is_upper (byte_of c)) (TablePrefix cfg) \<and> length (TablePrefix cfg) \<le> 24
     \<and> (TablePrefix cfg = [] \<or> ident_start_ok (TablePrefix cfg))"

definition name_stem :: "Config \<Rightarrow> string" where
  "name_stem cfg = (if TablePrefix cfg = [] then [] else TablePrefix cfg @ ''_'')"

lemma tableName_stem: "tableName cfg b = name_stem cfg @ b"
  by (simp add: tableName_def name_stem_def)

lemma pg_ident_stem:
  assumes "plain_prefix cfg" and "length s \<le> 38" and "map pg_fold s = s"
  shows "pg_ident (name_stem cfg @ s) = name_stem cfg @ s"
proof -
  have "length (name_stem cfg) \<le> 25" using assms(1) by (simp add: plain_prefix_def name_stem_def)
  moreover have "map pg_fold (name_stem cfg) = name_stem cfg"
    using assms(1) by (auto simp: plain_prefix_def list_all_iff name_stem_def pg_fold_def byte_of_def
        is_upper_def intro!: map_idI)
  ultimately show ?thesis using assms(2,3) by (simp add: pg_ident_def)
qed

lemma stem_start_ok:
  "plain_prefix cfg \<Longrightarrow> ident_start_ok s \<Longrightarrow> ident_start_ok (name_stem cfg @ s)"
  by (auto simp: plain_prefix_def name_stem_def ident_start_ok_def)

lemmas name_stems = schemaVersionTable_def memoryRecordTable_def memoryEventTable_def
  idempotencyTable_def outboxTable_def memoryDecisionTraceTable_def dedupeIndexTable_def
  tableName_stem

lemmas ddl_eval = pg_fold_def byte_of_def is_upper_def relation_exists_def
  find_table_def column_names_def req_def opt_def dflt_def set_table_def record_version_def
  exec_ddl_def

section \<open>The schema levels\<close>

text \<open>The catalog after the first \<open>k\<close> groups, applied to a fresh database without faults.\<close>

fun schema_level :: "Config \<Rightarrow> nat \<Rightarrow> catalog" where
  "schema_level cfg 0 = empty_catalog"
| "schema_level cfg (Suc k) =
     snd (runGroupInTx calm_migration cfg (migrationGroups cfg ! k) (schema_level cfg k))"

text \<open>The same catalogs written out.\<close>

definition catalog_v1 :: "Config \<Rightarrow> catalog" where
  "catalog_v1 cfg = \<lparr>tables =
     [(schemaVersionTable cfg, schema_version_table), (memoryRecordTable cfg, memory_record_table),
      (memoryEventTable cfg, memory_event_table), (idempotencyTable cfg, memory_idempotency_table),
      (outboxTable cfg, outbox_event_table), (memoryDecisionTraceTable cfg, memory_decision_trace_table)],
    indexes = map (tableName cfg)
     [''memory_record_scope_idx'', ''memory_record_category_idx'', ''memory_record_hash_idx'',
      ''memory_record_updated_at_idx'', ''memory_event_memory_version_idx'',
      ''memory_event_tenant_created_idx'', ''memory_event_event_type_created_idx'',
      ''outbox_event_status_created_idx'', ''outbox_event_aggregate_created_idx'',
      ''outbox_event_event_id_idx'', ''memory_decision_trace_tenant_time_idx'',
      ''memory_decision_trace_request_idx'', ''memory_decision_trace_stage_reason_idx''],
    version_rows = [(schemaVersionTable cfg, 1)]\<rparr>"

definition outbox_event_table_v2 :: table_def where
  "outbox_event_table_v2 = \<lparr>td_columns = td_columns outbox_event_table @
     [opt ''claimed_by'' TEXT, opt ''claimed_at'' TIMESTAMPTZ, opt ''lease_expires_at'' TIMESTAMPTZ],
    td_constraints = td_constraints outbox_event_table\<rparr>"

definition memory_record_table_v3 :: table_def where
  "memory_record_table_v3 = \<lparr>td_columns = td_columns memory_record_table,
    td_constraints = [PrimaryKey [''memory_id''], Unique [''tenant_id'', ''memory_id''],
      CheckUnitInterval ''importance'', CheckIn ''source'' sources_v1, CheckIn ''kind'' kinds_v3]\<rparr>"

definition catalog_v2 :: "Config \<Rightarrow> catalog" where
  "catalog_v2 cfg = (catalog_v1 cfg)\<lparr>tables :=
     [(schemaVersionTable cfg, schema_version_table), (memoryRecordTable cfg, memory_record_table),
      (memoryEventTable cfg, memory_event_table), (idempotencyTable cfg, memory_idempotency_table),
      (outboxTable cfg, outbox_event_table_v2), (memoryDecisionTraceTable cfg, memory_decision_trace_table)],
    indexes := indexes (catalog_v1 cfg) @ [tableName cfg ''outbox_event_lease_idx''],
    version_rows := [(schemaVersionTable cfg, 1), (schemaVersionTable cfg, 2)]\<rparr>"

definition catalog_v3 :: "Config \<Rightarrow> catalog" where
  "catalog_v3 cfg = (catalog_v2 cfg)\<lparr>tables :=
     [(schemaVersionTable cfg, schema_version_table), (memoryRecordTable cfg, memory_record_table_v3),
      (memoryEventTable cfg, memory_event_table), (idempotencyTable cfg, memory_idempotency_table),
      (outboxTable cfg, outbox_event_table_v2), (memoryDecisionTraceTable cfg, memory_decision_trace_table),
      (dedupeIndexTable cfg, memory_dedupe_index_table)],
    version_rows := [(schemaVersionTable cfg, 1), (schemaVersionTable cfg, 2), (schemaVersionTable cfg, 3)]\<rparr>"

lemmas catalog_defs = catalog_v1_def catalog_v2_def catalog_v3_def empty_catalog_def

lemma exec_stmts_append:
  "exec_stmts f i (ds @ es) cat =
     (case exec_stmts f i ds cat of
        (Some e, c) \<Rightarrow> (Some e, c) | (None, c) \<Rightarrow> exec_stmts f (i + length ds) es c)"
  by (induction ds arbitrary: i cat) (auto split: sum.splits prod.splits option.splits)

lemma pg_name_stem: "plain_prefix cfg \<Longrightarrow> length s \<le> 38 \<Longrightarrow> pg_name (name_stem cfg @ s) = name_stem cfg @ s"
  by (auto simp: pg_name_def plain_prefix_def name_stem_def)

lemma start_ok:
  "\<not> is_digit (byte_of c) \<Longrightarrow> ident_start_ok (c # s)"
  by (simp add: ident_start_ok_def)

lemma v1_tables_run:
  assumes p: "plain_prefix cfg"
  shows "exec_stmts (\<lambda>_. Committed) i (v1_tables cfg) empty_catalog =
    (None, \<lparr>tables = take 5 (tables (catalog_v1 cfg)), indexes = [], version_rows = []\<rparr>)"
  by (simp add: v1_tables_def catalog_defs name_stems is_digit_def pg_ident_stem [OF p] stem_start_ok [OF p] start_ok ddl_eval Let_def)

lemma v1_indexes_run:
  assumes p: "plain_prefix cfg"
  shows "exec_stmts (\<lambda>_. Committed) i (v1_indexes cfg)
      \<lparr>tables = take 5 (tables (catalog_v1 cfg)), indexes = [], version_rows = []\<rparr> =
    (None, \<lparr>tables = take 5 (tables (catalog_v1 cfg)), indexes = take 10 (indexes (catalog_v1 cfg)), version_rows = []\<rparr>)"
  by (simp add: v1_indexes_def catalog_defs name_stems is_digit_def pg_ident_stem [OF p] stem_start_ok [OF p] start_ok ddl_eval Let_def
      memory_record_table_def memory_event_table_def outbox_event_table_def)

lemma v1_trace_run:
  assumes p: "plain_prefix cfg"
  shows "exec_stmts (\<lambda>_. Committed) i (v1_trace cfg)
      \<lparr>tables = take 5 (tables (catalog_v1 cfg)), indexes = take 10 (indexes (catalog_v1 cfg)), version_rows = []\<rparr> =
    (None, (catalog_v1 cfg)\<lparr>version_rows := []\<rparr>)"
  by (simp add: v1_trace_def catalog_defs name_stems is_digit_def pg_ident_stem [OF p] stem_start_ok [OF p] start_ok ddl_eval Let_def
      memory_decision_trace_table_def)

lemma v2_run:
  assumes p: "plain_prefix cfg"
  shows "exec_stmts (\<lambda>_. Committed) i (v2RelayLeaseStatements cfg) (catalog_v1 cfg) =
    (None, (catalog_v2 cfg)\<lparr>version_rows := version_rows (catalog_v1 cfg)\<rparr>)"
  by (simp add: v2RelayLeaseStatements_def catalog_defs name_stems is_digit_def pg_ident_stem [OF p] stem_start_ok [OF p] start_ok ddl_eval Let_def
      outbox_event_table_v2_def outbox_event_table_def)

lemma v3_run:
  assumes p: "plain_prefix cfg"
  shows "exec_stmts (\<lambda>_. Committed) i (v3WorkingAndDedupeStatements cfg) (catalog_v2 cfg) =
    (None, (catalog_v3 cfg)\<lparr>version_rows := version_rows (catalog_v2 cfg)\<rparr>)"
  by (simp add: v3WorkingAndDedupeStatements_def catalog_defs name_stems is_digit_def pg_ident_stem [OF p] stem_start_ok [OF p] start_ok ddl_eval
      Let_def memory_record_table_v3_def memory_record_table_def kinds_v1_def sources_v1_def)

lemma group1_run:
  "plain_prefix cfg \<Longrightarrow>
     runGroupInTx calm_migration cfg (migrationGroups cfg ! 0) empty_catalog = (Inr (), catalog_v1 cfg)"
  by (simp add: runGroupInTx_def calm_migration_def migrationGroups_def v1Statements_def Let_def
      exec_stmts_append v1_tables_run v1_indexes_run v1_trace_run record_version_def
      find_table_def)
    (simp add: catalog_v1_def name_stems pg_ident_stem ddl_eval)

lemma group2_run:
  "plain_prefix cfg \<Longrightarrow>
     runGroupInTx calm_migration cfg (migrationGroups cfg ! Suc 0) (catalog_v1 cfg) = (Inr (), catalog_v2 cfg)"
  by (simp add: runGroupInTx_def calm_migration_def migrationGroups_def Let_def v2_run
      record_version_def find_table_def)
    (simp add: catalog_defs name_stems pg_ident_stem ddl_eval)

lemma group3_run:
  "plain_prefix cfg \<Longrightarrow>
     runGroupInTx calm_migration cfg (migrationGroups cfg ! 2) (catalog_v2 cfg) = (Inr (), catalog_v3 cfg)"
  by (simp add: runGroupInTx_def calm_migration_def migrationGroups_def Let_def v3_run
      record_version_def find_table_def)
    (simp add: catalog_defs name_stems pg_ident_stem ddl_eval)

lemma schema_levels:
  assumes "plain_prefix cfg"
  shows "schema_level cfg 0 = empty_catalog" "schema_level cfg (Suc 0) = catalog_v1 cfg"
    "schema_level cfg 2 = catalog_v2 cfg" "schema_level cfg 3 = catalog_v3 cfg"
  using group1_run [OF assms] group2_run [OF assms] group3_run [OF assms]
  by (simp_all add: numeral_2_eq_2 numeral_3_eq_3)

lemma current_version_level:
  assumes "plain_prefix cfg" and "me_exists me = None" and "me_max me = None"
  shows "currentSchemaVersion me cfg empty_catalog = Inr 0"
    "currentSchemaVersion me cfg (catalog_v1 cfg) = Inr 1"
    "currentSchemaVersion me cfg (catalog_v2 cfg) = Inr 2"
    "currentSchemaVersion me cfg (catalog_v3 cfg) = Inr 3"
  using assms
  by (simp_all add: currentSchemaVersion_def catalog_defs name_stems pg_ident_stem pg_name_stem ddl_eval)

section \<open>Runs of the whole migration\<close>

lemma group_fields:
  "k < 3 \<Longrightarrow> mg_Version (migrationGroups cfg ! k) = int k + 1
     \<and> mg_Transactional (migrationGroups cfg ! k)"
  by (auto simp: migrationGroups_def numeral_3_eq_3 less_Suc_eq)

lemma group_run:
  assumes "plain_prefix cfg" and "k < 3"
  shows "runGroupInTx calm_migration cfg (migrationGroups cfg ! k) (schema_level cfg k)
    = (Inr (), schema_level cfg (Suc k))"
  using assms(2) group1_run [OF assms(1)] group2_run [OF assms(1)] group3_run [OF assms(1)]
    schema_levels [OF assms(1)]
  by (auto simp: numeral_3_eq_3 numeral_2_eq_2 less_Suc_eq simp del: schema_level.simps)

lemma drop_groups:
  "k < 3 \<Longrightarrow> drop k (migrationGroups cfg) = migrationGroups cfg ! k # drop (Suc k) (migrationGroups cfg)"
  by (rule Cons_nth_drop_Suc [symmetric]) (simp add: migrationGroups_def)

lemma run_groups_from:
  assumes p: "plain_prefix cfg" and "k \<le> 3" and "current \<le> int k"
  shows "\<exists>j. k \<le> j \<and> j \<le> 3
    \<and> snd (run_groups me cfg current (drop k (migrationGroups cfg)) (schema_level cfg k)) = schema_level cfg j
    \<and> (fst (run_groups me cfg current (drop k (migrationGroups cfg)) (schema_level cfg k)) = Inr () \<longrightarrow> j = 3)"
  using assms(2,3)
proof (induction "3 - k" arbitrary: k)
  case 0
  then show ?case by (auto simp: migrationGroups_def)
next
  case (Suc n)
  then have k: "k < 3" by simp
  note drop = drop_groups [OF k, of cfg] and run = group_run [OF p k]
  have IH: "\<exists>j\<ge>Suc k. j \<le> 3
    \<and> snd (run_groups me cfg current (drop (Suc k) (migrationGroups cfg)) (schema_level cfg (Suc k))) = schema_level cfg j
    \<and> (fst (run_groups me cfg current (drop (Suc k) (migrationGroups cfg)) (schema_level cfg (Suc k))) = Inr () \<longrightarrow> j = 3)"
    using Suc.hyps(1) [of "Suc k"] Suc.hyps(2) Suc.prems k by simp
  have ver: "\<not> mg_Version (migrationGroups cfg ! k) \<le> current" "mg_Transactional (migrationGroups cfg ! k)"
    using group_fields [OF k, of cfg] Suc.prems by auto
  show ?case
  proof (cases rule: runGroupInTx_cases [of me cfg "migrationGroups cfg ! k" "schema_level cfg k"])
    case (failed e)
    then show ?thesis using ver k by (auto simp: drop intro!: exI [of _ k])
  next
    case applied
    with run have "run_groups me cfg current (drop k (migrationGroups cfg)) (schema_level cfg k)
      = run_groups me cfg current (drop (Suc k) (migrationGroups cfg)) (schema_level cfg (Suc k))"
      using ver by (simp add: drop del: schema_level.simps)
    with IH show ?thesis by (metis Suc_leD)
  next
    case (lost e)
    with run have "run_groups me cfg current (drop k (migrationGroups cfg)) (schema_level cfg k)
      = (Inl e, schema_level cfg (Suc k))"
      using ver by (simp add: drop del: schema_level.simps)
    with k show ?thesis by (auto simp del: schema_level.simps intro!: exI [of _ "Suc k"])
  qed
qed

lemma run_groups_calm:
  assumes p: "plain_prefix cfg" and "k \<le> 3" and "current \<le> int k"
  shows "run_groups calm_migration cfg current (drop k (migrationGroups cfg)) (schema_level cfg k)
    = (Inr (), schema_level cfg 3)"
  using assms(2,3)
proof (induction "3 - k" arbitrary: k)
  case 0
  then show ?case by (simp add: migrationGroups_def)
next
  case (Suc n)
  then have k: "k < 3" by simp
  have "run_groups calm_migration cfg current (drop (Suc k) (migrationGroups cfg)) (schema_level cfg (Suc k))
    = (Inr (), schema_level cfg 3)"
    using Suc.hyps(1) [of "Suc k"] Suc.hyps(2) Suc.prems k by simp
  then show ?case
    using group_run [OF p k] group_fields [OF k, of cfg] Suc.prems
    by (simp add: drop_groups [OF k] del: schema_level.simps)
qed

lemma run_groups_skip:
  assumes "k \<le> 3"
  shows "run_groups me cfg (int k) (migrationGroups cfg) cat
    = run_groups me cfg (int k) (drop k (migrationGroups cfg)) cat"
proof -
  have "k = 0 \<or> k = 1 \<or> k = 2 \<or> k = 3" using assms by arith
  then show ?thesis by (elim disjE) (simp_all add: migrationGroups_def)
qed

lemma version_of_level:
  assumes "plain_prefix cfg" and "k \<le> 3" and "me_exists me = None" and "me_max me = None"
  shows "currentSchemaVersion me cfg (schema_level cfg k) = Inr (int k)"
proof -
  have "k = 0 \<or> k = 1 \<or> k = 2 \<or> k = 3" using assms(2) by arith
  then show ?thesis
    using schema_levels [OF assms(1)] current_version_level [OF assms(1,3,4)]
    by (elim disjE) (simp_all del: schema_level.simps add: One_nat_def)
qed

lemma version_of_level_faulty:
  assumes "plain_prefix cfg" and "k \<le> 3"
  shows "currentSchemaVersion me cfg (schema_level cfg k) = Inr (int k)
    \<or> (\<exists>e. currentSchemaVersion me cfg (schema_level cfg k) = Inl e)"
proof (cases "me_exists me = None \<and> me_max me = None")
  case True
  then show ?thesis using version_of_level [OF assms] by simp
next
  case False
  have calm: "currentSchemaVersion (me\<lparr>me_exists := None, me_max := None\<rparr>) cfg (schema_level cfg k) = Inr (int k)"
    using version_of_level [OF assms] by simp
  then show ?thesis
    using False by (cases "me_exists me"; cases "me_max me")
      (auto simp: currentSchemaVersion_def split: if_splits)
qed

lemma Migrate_from_level:
  assumes p: "plain_prefix cfg" and k: "k \<le> 3"
  shows "\<exists>j. k \<le> j \<and> j \<le> 3 \<and> snd (Migrate me cfg (schema_level cfg k)) = schema_level cfg j
    \<and> (fst (Migrate me cfg (schema_level cfg k)) = Inr () \<longrightarrow> j = 3)"
proof (cases "currentSchemaVersion me cfg (schema_level cfg k)")
  case (Inl e)
  with k show ?thesis by (auto simp: Migrate_def simp del: schema_level.simps intro!: exI [of _ k])
next
  case (Inr v)
  then have "v = int k" using version_of_level_faulty [OF p k, of me] by auto
  with Inr k run_groups_from [OF p k, of "int k" me] show ?thesis
    by (simp add: Migrate_def HeadSchemaVersion_def AcceptableSkewVersions_def run_groups_skip
        del: schema_level.simps)
qed

lemma Migrate_calm_level:
  assumes "plain_prefix cfg" and "k \<le> 3"
  shows "Migrate calm_migration cfg (schema_level cfg k) = (Inr (), schema_level cfg 3)"
  using version_of_level [OF assms, of calm_migration] run_groups_calm [OF assms, of "int k"] assms(2)
  by (simp add: Migrate_def HeadSchemaVersion_def AcceptableSkewVersions_def run_groups_skip
      calm_migration_def del: schema_level.simps)

text \<open>The catalog after a series of migrations, each with its own faults.\<close>

definition migrate_many :: "migrate_env list \<Rightarrow> Config \<Rightarrow> catalog \<Rightarrow> catalog" where
  "migrate_many mes cfg cat = foldl (\<lambda>c me. snd (Migrate me cfg c)) cat mes"

lemma migrate_many_level:
  "plain_prefix cfg \<Longrightarrow> k \<le> 3 \<Longrightarrow> \<exists>j\<ge>k. j \<le> 3 \<and> migrate_many mes cfg (schema_level cfg k) = schema_level cfg j"
proof (induction mes arbitrary: k)
  case Nil
  then show ?case by (auto simp: migrate_many_def)
next
  case (Cons me mes)
  obtain j where j: "k \<le> j" "j \<le> 3" "snd (Migrate me cfg (schema_level cfg k)) = schema_level cfg j"
    using Migrate_from_level [OF Cons.prems, of me] by blast
  from Cons.IH [OF Cons.prems(1) j(2)] obtain i where
    "j \<le> i" "i \<le> 3" "migrate_many mes cfg (schema_level cfg j) = schema_level cfg i" by blast
  with j have "k \<le> i \<and> i \<le> 3 \<and> migrate_many (me # mes) cfg (schema_level cfg k) = schema_level cfg i"
    by (simp add: migrate_many_def)
  then show ?case by blast
qed

text \<open>C20: Crash and resume, under a prefix that does not start with a digit, has no upper-case letter and is
  at most 24 bytes long. Starting from a fresh database, any number of migrations, each failing anywhere (a query, a begin, a statement, a version insert, a refused commit or a
  commit whose answer is lost), leave the catalog at exactly one of the schema levels 0 to 3,
  never between two; and one more migration with no fault completes it to level 3.\<close>

theorem migrate_resumes:
  assumes "plain_prefix cfg"
  shows "(\<exists>k\<le>3. migrate_many mes cfg empty_catalog = schema_level cfg k)
    \<and> Migrate calm_migration cfg (migrate_many mes cfg empty_catalog) = (Inr (), schema_level cfg 3)"
proof -
  obtain k where k: "k \<le> 3" "migrate_many mes cfg empty_catalog = schema_level cfg k"
    using migrate_many_level [OF assms, of 0 mes] by auto
  with Migrate_calm_level [OF assms k(1)] show ?thesis by (metis k)
qed

lemma migrate_resumes_witness:
  "Migrate calm_migration \<lparr>TablePrefix = ''m5''\<rparr>
     (migrate_many [calm_migration\<lparr>me_stmt := (\<lambda>v i. if v = 2 \<and> i = 1 then CommitRefused ''crash'' else Committed)\<rparr>]
        \<lparr>TablePrefix = ''m5''\<rparr> empty_catalog) = (Inr (), schema_level \<lparr>TablePrefix = ''m5''\<rparr> 3)"
proof -
  have "plain_prefix \<lparr>TablePrefix = ''m5''\<rparr>"
    by (simp add: plain_prefix_def is_upper_def is_digit_def byte_of_def ident_start_ok_def)
  from migrate_resumes [OF this] show ?thesis by blast
qed

text \<open>What a migration that reports success has done: from any schema level it reached level
  3, whose catalog has the seven tables of the store, the lease columns on the outbox, the
  widened kind constraint and the versions 1, 2 and 3 recorded; and running it again, whatever
  could fail in a statement, changes nothing.\<close>

theorem migrate_success:
  assumes "plain_prefix cfg" and "k \<le> 3" and "fst (Migrate me cfg (schema_level cfg k)) = Inr ()"
  shows "snd (Migrate me cfg (schema_level cfg k)) = catalog_v3 cfg
    \<and> map fst (tables (catalog_v3 cfg)) = map (tableName cfg) tableBases
    \<and> (me_exists me' = None \<and> me_max me' = None \<longrightarrow>
         Migrate me' cfg (catalog_v3 cfg) = (Inr (), catalog_v3 cfg))"
proof -
  have "snd (Migrate me cfg (schema_level cfg k)) = catalog_v3 cfg"
    using Migrate_from_level [OF assms(1,2), of me] assms(3) schema_levels(4) [OF assms(1)]
    by (auto simp del: schema_level.simps)
  moreover have "map fst (tables (catalog_v3 cfg)) = map (tableName cfg) tableBases"
    by (simp add: catalog_defs table_name_defs tableBases_def)
  moreover have "Migrate me' cfg (catalog_v3 cfg) = (Inr (), catalog_v3 cfg)"
    if "me_exists me' = None" "me_max me' = None"
    using current_version_level(4) [OF assms(1) that]
    by (simp add: Migrate_def HeadSchemaVersion_def AcceptableSkewVersions_def migrationGroups_def)
  ultimately show ?thesis by blast
qed

lemma migrate_success_witness:
  "snd (Migrate calm_migration \<lparr>TablePrefix = ''''\<rparr> empty_catalog) = catalog_v3 \<lparr>TablePrefix = ''''\<rparr>"
proof -
  have p: "plain_prefix \<lparr>TablePrefix = ''''\<rparr>" by (simp add: plain_prefix_def)
  have "fst (Migrate calm_migration \<lparr>TablePrefix = ''''\<rparr> (schema_level \<lparr>TablePrefix = ''''\<rparr> 0)) = Inr ()"
    using Migrate_calm_level [OF p, of 0] by (simp del: schema_level.simps)
  from migrate_success [OF p _ this] show ?thesis by simp
qed

text \<open>Version skew. A database more than five versions ahead of the code is refused with
  \<open>ErrSchemaVersionAhead\<close> and left alone; one at the head version or up to five ahead is
  accepted and left alone too; a failing version query changes nothing.\<close>

theorem migrate_skew:
  "(currentSchemaVersion me cfg cat = Inr v \<and> HeadSchemaVersion + AcceptableSkewVersions < v \<longrightarrow>
     (\<exists>e. Migrate me cfg cat = (Inl e, cat) \<and> errors_is e ErrSchemaVersionAhead))
   \<and> (currentSchemaVersion me cfg cat = Inr v \<and> HeadSchemaVersion \<le> v
       \<and> v \<le> HeadSchemaVersion + AcceptableSkewVersions \<longrightarrow> Migrate me cfg cat = (Inr (), cat))
   \<and> (currentSchemaVersion me cfg cat = Inl e \<longrightarrow> Migrate me cfg cat = (Inl e, cat))"
  by (auto simp: Migrate_def HeadSchemaVersion_def AcceptableSkewVersions_def migrationGroups_def)

lemma migrate_skew_witness:
  "\<exists>e. Migrate calm_migration \<lparr>TablePrefix = ''''\<rparr>
       \<lparr>tables = [(''schema_version'', schema_version_table)], indexes = [],
        version_rows = [(''schema_version'', 9)]\<rparr>
     = (Inl e, \<lparr>tables = [(''schema_version'', schema_version_table)], indexes = [],
        version_rows = [(''schema_version'', 9)]\<rparr>) \<and> errors_is e ErrSchemaVersionAhead"
  using migrate_skew [of calm_migration "\<lparr>TablePrefix = ''''\<rparr>"
      "\<lparr>tables = [(''schema_version'', schema_version_table)], indexes = [],
        version_rows = [(''schema_version'', 9)]\<rparr>" 9]
  by (simp add: currentSchemaVersion_def pg_name_def calm_migration_def table_name_defs pg_ident_def pg_fold_def
      is_upper_def byte_of_def HeadSchemaVersion_def AcceptableSkewVersions_def)

section \<open>Names that fold\<close>

definition folded_catalog :: "catalog \<Rightarrow> bool" where
  "folded_catalog cat \<longleftrightarrow> list_all (\<lambda>n. pg_ident n = n) (map fst (tables cat))"

lemma fold_not_upper: "\<not> is_upper (byte_of (pg_fold c))"
  by (auto simp: pg_fold_def is_upper_def byte_of_def)

lemma pg_fold_idem [simp]: "pg_fold (pg_fold c) = pg_fold c"
  using fold_not_upper [of c] by (simp add: pg_fold_def [of "pg_fold c"])

lemma pg_ident_idem [simp]: "pg_ident (pg_ident s) = pg_ident s"
  by (simp add: pg_ident_def take_map)

lemma fst_set_table: "map fst (tables (set_table n t cat)) = map fst (tables cat)"
  by (auto simp: set_table_def)

lemma exec_ddl_folded: "exec_ddl d cat = Inr cat' \<Longrightarrow> folded_catalog cat \<Longrightarrow> folded_catalog cat'"
  by (cases d) (auto simp: exec_ddl_def folded_catalog_def fst_set_table split: if_splits option.splits)

lemma exec_stmts_folded:
  "folded_catalog cat \<Longrightarrow> folded_catalog (snd (exec_stmts f i ds cat))"
proof (induction ds arbitrary: i cat)
  case (Cons d ds)
  obtain e c where a: "answered (f i) (exec_ddl d cat) cat = (e, c)" by fastforce
  have "folded_catalog c" using answered_snd [OF a] Cons.prems exec_ddl_folded by auto
  with Cons.IH show ?case by (simp add: a split: option.split)
qed simp

lemma record_version_folded:
  "record_version cfg v cat = Inr cat' \<Longrightarrow> folded_catalog cat \<Longrightarrow> folded_catalog cat'"
  by (auto simp: record_version_def folded_catalog_def Let_def split: if_splits)

lemma recorded_folded:
  assumes "folded_catalog cat" and "exec_stmts f i ds cat = (r, c)"
    and "answered h (record_version cfg v c) c = (e, c')"
  shows "folded_catalog c" "folded_catalog c'"
proof -
  show c: "folded_catalog c" using exec_stmts_folded [OF assms(1), of f i ds] assms(2) by simp
  show "folded_catalog c'" using answered_snd [OF assms(3)] record_version_folded [OF _ c] c by auto
qed

lemma runGroupInTx_folded:
  assumes "folded_catalog cat"
  shows "folded_catalog (snd (runGroupInTx me cfg g cat))"
  unfolding runGroupInTx_def Let_def
  by (simp add: assms split: option.split prod.split commit_outcome.split)
    (blast intro: recorded_folded [OF assms])

lemma runGroupDirect_folded:
  assumes "folded_catalog cat"
  shows "folded_catalog (snd (runGroupDirect me cfg g cat))"
proof -
  obtain r c where e: "exec_stmts (me_stmt me (mg_Version g)) 0 (mg_Statements g) cat = (r, c)" by fastforce
  then have "folded_catalog c" using exec_stmts_folded [OF assms] by (metis snd_conv)
  with e show ?thesis
    by (auto simp: runGroupDirect_def Let_def split: option.split prod.split
        dest: recorded_folded [OF assms])
qed

lemma run_groups_folded: "folded_catalog cat \<Longrightarrow> folded_catalog (snd (run_groups me cfg current gs cat))"
proof (induction gs arbitrary: cat)
  case (Cons g gs)
  define r where "r = (if mg_Transactional g then runGroupInTx me cfg g cat else runGroupDirect me cfg g cat)"
  have "folded_catalog (snd r)"
    using runGroupInTx_folded [OF Cons.prems] runGroupDirect_folded [OF Cons.prems]
    by (simp add: r_def)
  then have "folded_catalog (snd (case r of (Inl e, c) \<Rightarrow> (Inl e, c)
      | (Inr _, c) \<Rightarrow> run_groups me cfg current gs c))"
    using Cons.IH by (cases r; cases "fst r") auto
  with Cons show ?case by (simp add: r_def del: snd_conv)
qed simp

lemma Migrate_folded: "folded_catalog cat \<Longrightarrow> folded_catalog (snd (Migrate me cfg cat))"
  by (simp add: Migrate_def run_groups_folded split: sum.splits)

lemma migrate_many_folded: "folded_catalog cat \<Longrightarrow> folded_catalog (migrate_many mes cfg cat)"
  by (induction mes arbitrary: cat) (simp_all add: migrate_many_def Migrate_folded)

lemma unfolded_name_absent:
  assumes "folded_catalog cat" and "\<exists>c\<in>set n. is_upper (byte_of c)"
  shows "n \<notin> set (map fst (tables cat))"
proof
  assume "n \<in> set (map fst (tables cat))"
  with assms(1) have n: "take 63 (map pg_fold n) = n"
    by (auto simp: folded_catalog_def list_all_iff pg_ident_def)
  have "set n \<subseteq> pg_fold ` set n" using n set_take_subset [of 63 "map pg_fold n"] by simp
  then have "\<not> (\<exists>c\<in>set n. is_upper (byte_of c))" using fold_not_upper by blast
  with assms(2) show False by auto
qed

lemma run_groups_error:
  "run_groups me cfg current gs cat = (Inl e, cat') \<Longrightarrow> \<exists>m p. e = Wrap m (Pg p)"
proof (induction gs arbitrary: cat)
  case (Cons g gs)
  show ?case
  proof (cases "mg_Version g \<le> current")
    case True
    with Cons show ?thesis by simp
  next
    case False
    define r where "r = (if mg_Transactional g then runGroupInTx me cfg g cat else runGroupDirect me cfg g cat)"
    have group: "\<exists>m p. x = Wrap m (Pg p)" if "fst r = Inl x" for x
      using that unfolding r_def runGroupInTx_def runGroupDirect_def Let_def
      by (auto split: if_splits option.splits prod.splits sum.splits commit_outcome.splits)
    obtain d c where dc: "r = (d, c)" by fastforce
    from Cons.prems False have step: "(case r of (Inl e, c) \<Rightarrow> (Inl e, c)
        | (Inr _, c) \<Rightarrow> run_groups me cfg current gs c) = (Inl e, cat')"
      by (simp add: r_def)
    show ?thesis
    proof (cases d)
      case (Inl x)
      with step dc group show ?thesis by simp
    next
      case (Inr u)
      with step dc have "run_groups me cfg current gs c = (Inl e, cat')" by simp
      then show ?thesis by (rule Cons.IH)
    qed
  qed
qed simp

text \<open>C40: The version guard cannot see a prefix that Postgres folds. For a prefix with an upper-case letter
  (the package accepts it) within the 63 bytes Postgres keeps of a name, the lookup compares the unfolded
  name with the catalog's folded ones: on every catalog the store can have produced the current version
  reads 0, so a database however far ahead is never refused.\<close>

theorem unfolded_prefix_blind:
  assumes cat: "folded_catalog cat" and "me_exists me = None"
    and pre: "\<exists>c\<in>set (take 63 (TablePrefix cfg)). is_upper (byte_of c)"
  shows "currentSchemaVersion me cfg cat = Inr 0
    \<and> \<not> (\<exists>e c. Migrate me cfg cat = (Inl e, c) \<and> errors_is e ErrSchemaVersionAhead)"
proof -
  have "\<exists>c\<in>set (pg_name (schemaVersionTable cfg)). is_upper (byte_of c)"
    using pre by (auto simp: pg_name_def table_name_defs)
  from unfolded_name_absent [OF cat this]
  have zero: "currentSchemaVersion me cfg cat = Inr 0"
    using assms(2) by (simp add: currentSchemaVersion_def)
  moreover have "\<not> errors_is e ErrSchemaVersionAhead" if "Migrate me cfg cat = (Inl e, c)" for e c
    using that zero run_groups_error [of me cfg 0 "migrationGroups cfg" cat e c]
    by (auto simp: Migrate_def HeadSchemaVersion_def AcceptableSkewVersions_def)
  ultimately show ?thesis by blast
qed

lemma unfolded_prefix_blind_witness:
  "isSafeIdent ''M5''
   \<and> currentSchemaVersion calm_migration \<lparr>TablePrefix = ''M5''\<rparr>
      \<lparr>tables = [(''m5_schema_version'', schema_version_table)], indexes = [],
       version_rows = [(''m5_schema_version'', 100)]\<rparr> = Inr 0
   \<and> currentSchemaVersion calm_migration \<lparr>TablePrefix = ''m5''\<rparr>
      \<lparr>tables = [(''m5_schema_version'', schema_version_table)], indexes = [],
       version_rows = [(''m5_schema_version'', 100)]\<rparr> = Inr 100"
proof -
  let ?cat = "\<lparr>tables = [(''m5_schema_version'', schema_version_table)], indexes = [],
       version_rows = [(''m5_schema_version'', 100)]\<rparr> :: catalog"
  have f: "folded_catalog ?cat"
    by (simp add: folded_catalog_def pg_ident_def pg_fold_def is_upper_def is_digit_def byte_of_def)
  have "currentSchemaVersion calm_migration \<lparr>TablePrefix = ''M5''\<rparr> ?cat = Inr 0"
    using unfolded_prefix_blind [OF f, of calm_migration "\<lparr>TablePrefix = ''M5''\<rparr>"]
    by (simp add: calm_migration_def is_upper_def byte_of_def)
  moreover have "isSafeIdent ''M5''"
    by (simp add: isSafeIdent_bytes safe_rune_def is_upper_def is_lower_def is_digit_def byte_of_def)
  moreover have "currentSchemaVersion calm_migration \<lparr>TablePrefix = ''m5''\<rparr> ?cat = Inr 100"
    by (simp add: currentSchemaVersion_def pg_name_def calm_migration_def table_name_defs pg_ident_def pg_fold_def
        is_upper_def byte_of_def)
  ultimately show ?thesis by blast
qed

text \<open>A prefix that starts with a digit is accepted by \<open>New\<close>, yet no migration can ever
  succeed with it: the first statement is a syntax error and the catalog stays as it was.\<close>

theorem digit_prefix_unusable:
  assumes "is_digit (byte_of c)" and "TablePrefix cfg = c # s"
    and "currentSchemaVersion calm_migration cfg cat = Inr v" and "v < 1"
  shows "Migrate calm_migration cfg cat
    = (Inl (Wrap (vlabel '''' 1 '': '') (Pg SyntaxError)), cat)"
  using assms
  by (simp add: Migrate_def HeadSchemaVersion_def AcceptableSkewVersions_def migrationGroups_def
      runGroupInTx_def Let_def v1Statements_def v1_tables_def exec_ddl_def ident_start_ok_def
      table_name_defs calm_migration_def)

lemma digit_prefix_unusable_witness:
  "New (Some ()) \<lparr>TablePrefix = ''5m''\<rparr> = Inr \<lparr>pool = (), store_cfg = \<lparr>TablePrefix = ''5m''\<rparr>\<rparr>
   \<and> Migrate calm_migration \<lparr>TablePrefix = ''5m''\<rparr> empty_catalog
     = (Inl (Wrap (vlabel '''' 1 '': '') (Pg SyntaxError)), empty_catalog)"
  using digit_prefix_unusable [of "CHR ''5''" "\<lparr>TablePrefix = ''5m''\<rparr>" "''m''" empty_catalog 0]
  by (simp add: New_def isSafeIdent_bytes safe_rune_def is_lower_def is_digit_def byte_of_def
      currentSchemaVersion_def calm_migration_def empty_catalog_def)

lemma v1_tables_length: "length (v1_tables cfg) = 5"
  by (simp add: v1_tables_def)

text \<open>C36: A prefix of 63 bytes or more, which the package accepts, makes every name the same identifier. The
  first \<open>CREATE TABLE\<close> creates the version table, the others find it there and do nothing, and the first index
  then names columns the version table does not have: on a fresh schema a migration without any fault fails,
  and leaves the schema empty.\<close>

theorem long_prefix_unusable:
  assumes "63 \<le> length (TablePrefix cfg)" and "\<not> is_digit (byte_of (hd (TablePrefix cfg)))"
  shows "Migrate calm_migration cfg empty_catalog
    = (Inl (Wrap (vlabel '''' 1 '': '') (Pg (UndefinedColumn (memoryRecordTable cfg)))), empty_catalog)"
proof -
  have pre: "TablePrefix cfg \<noteq> []" using assms(1) by auto
  have ident: "pg_ident (TablePrefix cfg @ x) = pg_ident (TablePrefix cfg)" for x
    using assms(1) by (simp add: pg_ident_def)
  have start: "ident_start_ok (TablePrefix cfg @ x)" for x
    using assms(2) pre by (simp add: ident_start_ok_def hd_append)
  let ?cat = "\<lparr>tables = [(pg_ident (TablePrefix cfg), schema_version_table)], indexes = [], version_rows = []\<rparr>"
  have tables: "exec_stmts (\<lambda>_. Committed) 0 (v1_tables cfg) empty_catalog = (None, ?cat)"
    by (simp add: v1_tables_def table_name_defs pre ident start exec_ddl_def relation_exists_def empty_catalog_def answered_def)
  have "exec_stmts (\<lambda>_. Committed) 5 (v1_indexes cfg @ v1_trace cfg) ?cat = (Some (UndefinedColumn (memoryRecordTable cfg)), ?cat)"
    by (simp add: v1_indexes_def Let_def table_name_defs pre ident start exec_ddl_def find_table_def column_names_def
        schema_version_table_def req_def dflt_def answered_def)
  then have "exec_stmts (\<lambda>_. Committed) 0 (v1Statements cfg) empty_catalog = (Some (UndefinedColumn (memoryRecordTable cfg)), ?cat)"
    using exec_stmts_append [of "\<lambda>_. Committed" 0 "v1_tables cfg" "v1_indexes cfg @ v1_trace cfg" empty_catalog] tables
    by (simp add: v1Statements_def v1_tables_length del: exec_stmts.simps)
  then have "runGroupInTx calm_migration cfg (migrationGroups cfg ! 0) empty_catalog
      = (Inl (Wrap (vlabel '''' 1 '': '') (Pg (UndefinedColumn (memoryRecordTable cfg)))), empty_catalog)"
    by (simp add: runGroupInTx_def calm_migration_def migrationGroups_def)
  moreover have "currentSchemaVersion calm_migration cfg empty_catalog = Inr 0"
    by (simp add: currentSchemaVersion_def calm_migration_def empty_catalog_def)
  ultimately show ?thesis
    by (simp add: Migrate_def HeadSchemaVersion_def AcceptableSkewVersions_def migrationGroups_def)
qed

lemma long_prefix_unusable_witness:
  "New (Some ()) \<lparr>TablePrefix = replicate 63 (CHR ''m'')\<rparr>
     = Inr \<lparr>pool = (), store_cfg = \<lparr>TablePrefix = replicate 63 (CHR ''m'')\<rparr>\<rparr>
   \<and> fst (Migrate calm_migration \<lparr>TablePrefix = replicate 63 (CHR ''m'')\<rparr> empty_catalog) \<noteq> Inr ()"
proof -
  have "New (Some ()) \<lparr>TablePrefix = replicate 63 (CHR ''m'')\<rparr>
     = Inr \<lparr>pool = (), store_cfg = \<lparr>TablePrefix = replicate 63 (CHR ''m'')\<rparr>\<rparr>"
    by (simp add: New_def isSafeIdent_bytes safe_rune_def is_lower_def byte_of_def)
  with long_prefix_unusable [of "\<lparr>TablePrefix = replicate 63 (CHR ''m'')\<rparr>"] show ?thesis
    by (simp add: is_digit_def byte_of_def)
qed

end
