(* ===== verification/Startup.thy ===== *)
theory Startup
  imports Migration
begin

text \<open>
  \<^verbatim>\<open>cmd/memory-migrate/main.go\<close>: the environment variable, the pool, the store and the
  migration, each failure ending the process through \<open>log.Fatal\<close>. The environment and the pool's
  constructor (which returns a pool or an error) are arguments.
\<close>

datatype exit_status = Exited | Fatal err

definition memory_migrate ::
  "(string \<Rightarrow> string) \<Rightarrow> (string \<Rightarrow> err + 'pool) \<Rightarrow> migrate_env \<Rightarrow> catalog \<Rightarrow> exit_status \<times> catalog" where
  "memory_migrate getenv open_pool me cat =
    (let dsn = getenv ''LLM_AGENT_MEMORY_PG_URL'' in
     if dsn = [] then (Fatal (Plain ''LLM_AGENT_MEMORY_PG_URL is required''), cat)
     else
       (case open_pool dsn of
          Inl e \<Rightarrow> (Fatal (Wrap ''open pgx pool: '' e), cat)
        | Inr p \<Rightarrow>
          (case New (Some p) \<lparr>TablePrefix = []\<rparr> of
             Inl e \<Rightarrow> (Fatal (Wrap ''construct postgres store: '' e), cat)
           | Inr store \<Rightarrow>
             (case Migrate me (store_cfg store) cat of
                (Inl e, cat') \<Rightarrow> (Fatal (Wrap ''run migrations: '' e), cat')
              | (Inr _, cat') \<Rightarrow> (Exited, cat')))))"

lemma no_prefix_plain: "plain_prefix \<lparr>TablePrefix = []\<rparr>"
  by (simp add: plain_prefix_def)

lemma New_no_prefix: "New (Some p) \<lparr>TablePrefix = []\<rparr> = Inr \<lparr>pool = p, store_cfg = \<lparr>TablePrefix = []\<rparr>\<rparr>"
  by (simp add: New_def)

lemma memory_migrate_opened:
  assumes "getenv ''LLM_AGENT_MEMORY_PG_URL'' \<noteq> []" and "open_pool (getenv ''LLM_AGENT_MEMORY_PG_URL'') = Inr p"
  shows "memory_migrate getenv open_pool me cat =
    map_prod (case_sum (\<lambda>e. Fatal (Wrap ''run migrations: '' e)) (\<lambda>_. Exited)) id (Migrate me \<lparr>TablePrefix = []\<rparr> cat)"
  using assms by (simp add: memory_migrate_def New_no_prefix map_prod_def split: prod.split sum.split)

lemma memory_migrate_unopened:
  assumes "getenv ''LLM_AGENT_MEMORY_PG_URL'' = [] \<or> open_pool (getenv ''LLM_AGENT_MEMORY_PG_URL'') = Inl e"
  shows "\<exists>e. memory_migrate getenv open_pool me cat = (Fatal e, cat)"
  using assms by (auto simp: memory_migrate_def Let_def)

text \<open>The command from any schema level. It never leaves the catalog between two levels nor at a lower one;
  it exits normally only at level 3; and it does so whenever the variable is set, the pool opens and no
  database call fails.\<close>

theorem startup_ready:
  assumes "k \<le> 3"
  shows "\<exists>j. k \<le> j \<and> j \<le> 3 \<and> snd (memory_migrate getenv open_pool me (schema_level \<lparr>TablePrefix = []\<rparr> k))
      = schema_level \<lparr>TablePrefix = []\<rparr> j
    \<and> (fst (memory_migrate getenv open_pool me (schema_level \<lparr>TablePrefix = []\<rparr> k)) = Exited \<longrightarrow> j = 3)
    \<and> (getenv ''LLM_AGENT_MEMORY_PG_URL'' \<noteq> [] \<and> open_pool (getenv ''LLM_AGENT_MEMORY_PG_URL'') = Inr p \<and> me = calm_migration
        \<longrightarrow> fst (memory_migrate getenv open_pool me (schema_level \<lparr>TablePrefix = []\<rparr> k)) = Exited)"
proof (cases "getenv ''LLM_AGENT_MEMORY_PG_URL'' \<noteq> [] \<and> (\<exists>p. open_pool (getenv ''LLM_AGENT_MEMORY_PG_URL'') = Inr p)")
  case True
  then obtain p where "open_pool (getenv ''LLM_AGENT_MEMORY_PG_URL'') = Inr p" by blast
  note run = memory_migrate_opened [of getenv open_pool p me "schema_level \<lparr>TablePrefix = []\<rparr> k", OF conjunct1 [OF True] this]
  show ?thesis
    using Migrate_from_level [OF no_prefix_plain assms, of me] Migrate_calm_level [OF no_prefix_plain assms]
    unfolding run by (auto simp: split: sum.splits simp del: schema_level.simps)
next
  case False
  then obtain e where "getenv ''LLM_AGENT_MEMORY_PG_URL'' = [] \<or> open_pool (getenv ''LLM_AGENT_MEMORY_PG_URL'') = Inl e"
    by (cases "open_pool (getenv ''LLM_AGENT_MEMORY_PG_URL'')") auto
  from memory_migrate_unopened [of getenv open_pool e me "schema_level \<lparr>TablePrefix = []\<rparr> k", OF this] obtain e'
    where "memory_migrate getenv open_pool me (schema_level \<lparr>TablePrefix = []\<rparr> k) = (Fatal e', schema_level \<lparr>TablePrefix = []\<rparr> k)"
    by blast
  then show ?thesis using False assms by (intro exI [of _ k]) (auto simp del: schema_level.simps)
qed

end
