(* ===== verification/Records.thy ===== *)
theory Records
  imports GoErrors
begin

text \<open>
  The data the store moves: the records, events, outbox messages, idempotency entries and
  inputs of the contract package (read off their uses in \<^verbatim>\<open>store.go\<close> and
  \<^verbatim>\<open>durable_ops.go\<close>), and the conversion between a \<open>MemoryRecord\<close> and its table
  row.
\<close>

section \<open>Values of the contract package\<close>

text \<open>A Go slice of strings that may be nil: \<open>None\<close> is nil, \<open>Some []\<close> is empty.\<close>

type_synonym go_strings = "string list option"

text \<open>A \<open>float64\<close>: the finite values are rationals.\<close>

datatype go_float = Fin rat | PosInf | NegInf | NaN

definition float_zero :: "go_float \<Rightarrow> bool" where
  "float_zero x \<longleftrightarrow> x = Fin 0"

record MemoryRecord =
  MemoryID :: string
  TenantID :: string
  UserID :: string
  ProjectID :: string
  SessionID :: string
  Kind :: string
  Source :: string
  Category :: string
  Content :: string
  NormalizedContentHash :: string
  Tags :: go_strings
  Importance :: go_float
  Pinned :: bool
  Disabled :: bool
  Deleted :: bool
  Version :: int
  CreatedAt :: gotime
  UpdatedAt :: gotime
  DeletedAt :: "gotime option"
  LastAccessAt :: "gotime option"
  HitCount :: int
  ConsolidatedFromEventID :: string

record WriteRecordResult =
  wr_MemoryID :: string
  wr_Version :: int
  wr_Created :: bool
  wr_Record :: MemoryRecord

record StoredEvent =
  se_Version :: int
  se_TenantID :: string
  se_MemoryID :: string
  se_EventType :: string
  se_IdempotencyKey :: string
  se_Record :: MemoryRecord
  se_Metadata :: "(string \<times> string) list"

record OutboxMessage =
  om_Version :: int
  om_TenantID :: string
  om_MemoryID :: string
  om_EventType :: string
  om_EventID :: string
  om_Record :: MemoryRecord
  om_Metadata :: "(string \<times> string) list"

record IdempotencyEntry =
  ie_TenantID :: string
  ie_IdempotencyKey :: string
  ie_RequestHash :: string
  ie_MemoryID :: string
  ie_Response :: WriteRecordResult
  ie_CreatedAt :: gotime
  ie_ExpiresAt :: "gotime option"

record WriteRecordInput =
  wi_TenantID :: string
  wi_IdempotencyKey :: string
  wi_RequestHash :: string
  wi_Record :: MemoryRecord

record PatchRecordInput =
  pa_TenantID :: string
  pa_MemoryID :: string
  pa_ExpectedVersion :: int
  pa_Content :: string
  pa_Category :: string
  pa_Tags :: go_strings
  pa_Importance :: go_float

record DeleteRecordInput =
  de_TenantID :: string
  de_MemoryID :: string
  de_ExpectedVersion :: int

record PinRecordInput =
  pn_TenantID :: string
  pn_MemoryID :: string
  pn_ExpectedVersion :: int
  pn_Pinned :: bool

record DisableRecordInput =
  di_TenantID :: string
  di_MemoryID :: string
  di_ExpectedVersion :: int
  di_Disabled :: bool

record PromoteRecordInput =
  pr_TenantID :: string
  pr_MemoryID :: string
  pr_ExpectedVersion :: int
  pr_SourceEventID :: string
  pr_IdempotencyKey :: string

record ResolveDedupeInput =
  rd_TenantID :: string
  rd_DedupeKey :: string
  rd_Candidate :: MemoryRecord

record MarkAccessInput =
  ma_TenantID :: string
  ma_MemoryIDs :: "string list"
  ma_AccessedAt :: gotime

text \<open>The result of a mutation, and of a promotion (which also says whether it was made now).\<close>

record MutateRecordResult =
  rr_MemoryID :: string
  rr_Version :: int
  rr_Record :: MemoryRecord

record PromoteRecordResult = MutateRecordResult +
  rr_Created :: bool

datatype DedupeAction = DedupeNoCollision | DedupeMergedExisting | DedupeCollapsedByPin

record ResolveDedupeResult =
  dr_WinnerID :: string
  dr_Action :: DedupeAction

text \<open>
  What the store takes from packages outside the repository: the constants of the contract
  package and the JSON form of its structs, a document of type \<open>'j\<close>. \<open>None\<close> is an error of
  \<open>json.Marshal\<close> or \<open>json.Unmarshal\<close>.
\<close>

record 'j sdk =
  RecordKindEpisodic :: string
  RecordKindWorking :: string
  DedupeCollapsedLoserIDMetadataKey :: string
  marshal_event :: "StoredEvent \<Rightarrow> 'j option"
  marshal_outbox :: "OutboxMessage \<Rightarrow> 'j option"
  marshal_entry :: "IdempotencyEntry \<Rightarrow> 'j option"
  unmarshal_outbox :: "'j \<Rightarrow> OutboxMessage option"
  unmarshal_entry :: "'j \<Rightarrow> IdempotencyEntry option"

definition encodeJSON :: "('a \<Rightarrow> 'j option) \<Rightarrow> 'a \<Rightarrow> err + 'j" where
  "encodeJSON marshal v = (case marshal v of None \<Rightarrow> Inl JsonErr | Some j \<Rightarrow> Inr j)"

definition decodeJSON :: "('j \<Rightarrow> 'a option) \<Rightarrow> 'j \<Rightarrow> err + 'a" where
  "decodeJSON unmarshal j = (case unmarshal j of None \<Rightarrow> Inl JsonErr | Some v \<Rightarrow> Inr v)"

text \<open>What the repository's tests check of that JSON form (\<open>store_test.go\<close>: the structs
  survive a round trip), with the two kinds the schema admits.\<close>

definition sdk_ok :: "'j sdk \<Rightarrow> bool" where
  "sdk_ok K \<longleftrightarrow>
     RecordKindEpisodic K = ''episodic'' \<and> RecordKindWorking K = ''working''
     \<and> (\<forall>m j. marshal_outbox K m = Some j \<longrightarrow> unmarshal_outbox K j = Some m)
     \<and> (\<forall>e j. marshal_entry K e = Some j \<longrightarrow> unmarshal_entry K j = Some e)"

definition marshals :: "'j sdk \<Rightarrow> bool" where
  "marshals K \<longleftrightarrow> (\<forall>e. marshal_event K e \<noteq> None) \<and> (\<forall>m. marshal_outbox K m \<noteq> None)
     \<and> (\<forall>i. marshal_entry K i \<noteq> None)"

section \<open>Rows of \<^verbatim>\<open>memory_record\<close>\<close>

text \<open>A nullable column, and \<open>tags\<close>, whose NOT NULL constraint the statements check, is an
  option.\<close>

record record_row =
  mr_memory_id :: string
  mr_tenant_id :: string
  mr_user_id :: string
  mr_project_id :: "string option"
  mr_session_id :: "string option"
  mr_kind :: string
  mr_source :: string
  mr_category :: string
  mr_content :: string
  mr_normalized_content_hash :: string
  mr_tags :: "string list option"
  mr_importance :: go_float
  mr_pinned :: bool
  mr_disabled :: bool
  mr_deleted :: bool
  mr_version :: int
  mr_created_at :: gotime
  mr_updated_at :: gotime
  mr_deleted_at :: "gotime option"
  mr_last_access_at :: "gotime option"
  mr_hit_count :: int
  mr_consolidated_from_event_id :: "string option"

definition nullableString :: "string \<Rightarrow> string option" where
  "nullableString v = (if v = [] then None else Some v)"

definition derefString :: "string option \<Rightarrow> string" where
  "derefString v = (case v of None \<Rightarrow> [] | Some s \<Rightarrow> s)"

definition nonNilTags :: "go_strings \<Rightarrow> go_strings" where
  "nonNilTags tags = (case tags of None \<Rightarrow> Some [] | Some ts \<Rightarrow> Some ts)"

text \<open>The arguments of the \<open>INSERT\<close> in \<open>WriteRecord\<close>, as the columns hold them.\<close>

definition row_of_record :: "MemoryRecord \<Rightarrow> record_row" where
  "row_of_record r =
     \<lparr>mr_memory_id = MemoryID r, mr_tenant_id = TenantID r, mr_user_id = UserID r,
      mr_project_id = nullableString (ProjectID r), mr_session_id = nullableString (SessionID r),
      mr_kind = Kind r, mr_source = Source r, mr_category = Category r, mr_content = Content r,
      mr_normalized_content_hash = NormalizedContentHash r, mr_tags = nonNilTags (Tags r),
      mr_importance = Importance r, mr_pinned = Pinned r, mr_disabled = Disabled r,
      mr_deleted = Deleted r, mr_version = Version r, mr_created_at = pg_time (CreatedAt r),
      mr_updated_at = pg_time (UpdatedAt r), mr_deleted_at = map_option pg_time (DeletedAt r),
      mr_last_access_at = map_option pg_time (LastAccessAt r), mr_hit_count = HitCount r,
      mr_consolidated_from_event_id = nullableString (ConsolidatedFromEventID r)\<rparr>"

text \<open>The \<open>Scan\<close> of a row into a \<open>MemoryRecord\<close>.\<close>

definition record_of_row :: "record_row \<Rightarrow> MemoryRecord" where
  "record_of_row w =
     \<lparr>MemoryID = mr_memory_id w, TenantID = mr_tenant_id w, UserID = mr_user_id w,
      ProjectID = derefString (mr_project_id w), SessionID = derefString (mr_session_id w),
      Kind = mr_kind w, Source = mr_source w, Category = mr_category w, Content = mr_content w,
      NormalizedContentHash = mr_normalized_content_hash w, Tags = mr_tags w,
      Importance = mr_importance w, Pinned = mr_pinned w, Disabled = mr_disabled w,
      Deleted = mr_deleted w, Version = mr_version w, CreatedAt = mr_created_at w,
      UpdatedAt = mr_updated_at w, DeletedAt = mr_deleted_at w,
      LastAccessAt = mr_last_access_at w, HitCount = mr_hit_count w,
      ConsolidatedFromEventID = derefString (mr_consolidated_from_event_id w)\<rparr>"

section \<open>Lemmas\<close>

lemma deref_nullable [simp]: "derefString (nullableString s) = s"
  by (simp add: derefString_def nullableString_def)

lemma nonNilTags_not_nil [simp]: "nonNilTags t \<noteq> None"
  by (cases t) (simp_all add: nonNilTags_def)

lemma nonNilTags_idem [simp]: "nonNilTags (nonNilTags t) = nonNilTags t"
  by (cases t) (simp_all add: nonNilTags_def)

lemma nonNilTags_Some [simp]: "nonNilTags (Some ts) = Some ts"
  by (simp add: nonNilTags_def)

text \<open>What the table keeps of a record: microseconds, and tags that are not nil.\<close>

definition stored_form :: "MemoryRecord \<Rightarrow> MemoryRecord" where
  "stored_form r = r\<lparr>Tags := nonNilTags (Tags r), CreatedAt := pg_time (CreatedAt r),
     UpdatedAt := pg_time (UpdatedAt r), DeletedAt := map_option pg_time (DeletedAt r),
     LastAccessAt := map_option pg_time (LastAccessAt r)\<rparr>"

lemma record_row_roundtrip: "record_of_row (row_of_record r) = stored_form r"
  by (simp add: record_of_row_def row_of_record_def stored_form_def)

lemma map_option_pg_time_idem [simp]:
  "map_option pg_time (map_option pg_time t) = map_option pg_time t"
  by (cases t) simp_all

lemma stored_form_idem: "stored_form (stored_form r) = stored_form r"
  by (simp add: stored_form_def)

lemma record_of_row_simps [simp]:
  "MemoryID (record_of_row w) = mr_memory_id w"
  "TenantID (record_of_row w) = mr_tenant_id w"
  "Version (record_of_row w) = mr_version w"
  "Kind (record_of_row w) = mr_kind w"
  "Tags (record_of_row w) = mr_tags w"
  "Importance (record_of_row w) = mr_importance w"
  "Pinned (record_of_row w) = mr_pinned w"
  "Disabled (record_of_row w) = mr_disabled w"
  "Deleted (record_of_row w) = mr_deleted w"
  "HitCount (record_of_row w) = mr_hit_count w"
  "Content (record_of_row w) = mr_content w"
  "Category (record_of_row w) = mr_category w"
  "UpdatedAt (record_of_row w) = mr_updated_at w"
  "DeletedAt (record_of_row w) = mr_deleted_at w"
  by (simp_all add: record_of_row_def)

lemma row_of_record_simps [simp]:
  "mr_memory_id (row_of_record r) = MemoryID r"
  "mr_tenant_id (row_of_record r) = TenantID r"
  "mr_version (row_of_record r) = Version r"
  "mr_kind (row_of_record r) = Kind r"
  "mr_source (row_of_record r) = Source r"
  "mr_tags (row_of_record r) = nonNilTags (Tags r)"
  "mr_importance (row_of_record r) = Importance r"
  "mr_hit_count (row_of_record r) = HitCount r"
  by (simp_all add: row_of_record_def)

lemma encodeJSON_ok: "marshal v = Some j \<Longrightarrow> encodeJSON marshal v = Inr j"
  by (simp add: encodeJSON_def)

lemma encodeJSON_eq_Inr [simp]: "encodeJSON marshal v = Inr j \<longleftrightarrow> marshal v = Some j"
  by (simp add: encodeJSON_def split: option.splits)

lemma decodeJSON_eq_Inr [simp]: "decodeJSON unmarshal j = Inr v \<longleftrightarrow> unmarshal j = Some v"
  by (simp add: decodeJSON_def split: option.splits)

lemma marshalsE:
  assumes "marshals K"
  obtains (docs) "\<And>e. \<exists>j. marshal_event K e = Some j" "\<And>m. \<exists>j. marshal_outbox K m = Some j"
    "\<And>i. \<exists>j. marshal_entry K i = Some j"
  using assms unfolding marshals_def by blast

end
