(* ===== verification/Database.thy ===== *)
theory Database
  imports Records Schema
begin

text \<open>
  The tables of the store and its SQL statements. A table is the list of its rows in insertion
  order; a statement is a function on the rows that applies the constraints \<^verbatim>\<open>schema.go\<close>
  declares at the head version and returns the new rows, the affected count or a driver error.
  A transaction works on a copy of the database and publishes it when its commit succeeds.
  What the environment decides (clocks, random identifiers, which call fails and how the commit
  ends) is one record of arguments.
\<close>

section \<open>Rows\<close>

record 'j event_row =
  me_event_id :: string
  me_memory_id :: string
  me_tenant_id :: string
  me_event_type :: string
  me_version :: int
  me_idempotency_key :: "string option"
  me_payload :: 'j
  me_created_at :: gotime

record 'j idem_row =
  mi_tenant_id :: string
  mi_idempotency_key :: string
  mi_request_hash :: string
  mi_memory_id :: "string option"
  mi_response_snapshot :: 'j
  mi_created_at :: gotime
  mi_expires_at :: "gotime option"

record 'j outbox_row =
  oe_outbox_id :: string
  oe_aggregate_type :: string
  oe_aggregate_id :: string
  oe_tenant_id :: string
  oe_event_id :: string
  oe_event_type :: string
  oe_payload :: 'j
  oe_status :: string
  oe_attempt_count :: int
  oe_created_at :: gotime
  oe_sent_at :: "gotime option"
  oe_last_error :: "string option"
  oe_claimed_by :: "string option"
  oe_claimed_at :: "gotime option"
  oe_lease_expires_at :: "gotime option"

record dedupe_row =
  dd_tenant_id :: string
  dd_dedupe_key :: string
  dd_winner_memory_id :: string
  dd_created_at :: gotime

record 'j db =
  records :: "record_row list"
  events :: "'j event_row list"
  idems :: "'j idem_row list"
  outbox :: "'j outbox_row list"
  dedupes :: "dedupe_row list"

definition empty_db :: "'j db" where
  "empty_db = \<lparr>records = [], events = [], idems = [], outbox = [], dedupes = []\<rparr>"

section \<open>The environment of a call\<close>

text \<open>Each database call of an operation has a name, so that the environment can make it fail; \<open>CNext i\<close> and
  \<open>CScan i\<close> are \<open>rows.Next\<close> and \<open>rows.Scan\<close> at row \<open>i\<close> of a query's result. \<open>scan_rank\<close> is where the server meets
  the row of an identifier, which decides among rows that a query's \<open>ORDER BY\<close> leaves equal.\<close>

datatype db_call =
    CBegin | CLookup | CLoad | CInsertRecord | CUpdateRecord | CInsertEvent | CInsertOutbox
  | CInsertIdem | CClaimDedupe | CSelectDedupe | CLoadWinner | CInsertCollapseEvent
  | CInsertCollapseOutbox | CMark | CRequeue | CList | CClaimQuery | CClaimUpdate | CAck | CRelease
  | CNext nat | CScan nat

record env =
  now :: gotime
  db_now :: gotime
  uuid :: "nat \<Rightarrow> string"
  scan_rank :: "string \<Rightarrow> nat"
  fault :: "db_call \<Rightarrow> string option"
  commit :: commit_outcome

definition driver :: "env \<Rightarrow> db_call \<Rightarrow> pg_error + 'a \<Rightarrow> pg_error + 'a" where
  "driver ev c r = (case fault ev c of Some t \<Rightarrow> Inl (DriverFailure t) | None \<Rightarrow> r)"

text \<open>A call whose error is wrapped with \<open>fmt.Errorf(m + "%w", err)\<close>.\<close>

definition exec :: "env \<Rightarrow> db_call \<Rightarrow> string \<Rightarrow> pg_error + 'a \<Rightarrow> err + 'a" where
  "exec ev c m r = mapErr (\<lambda>p. Wrap m (Pg p)) (driver ev c r)"

text \<open>
  \<open>pool.Begin\<close>, the body on the transaction's copy, \<open>defer tx.Rollback\<close> and \<open>tx.Commit\<close>. The
  body returns the label of its commit error, its result and the copy it leaves.
\<close>

definition run_tx :: "env \<Rightarrow> string \<Rightarrow> ('j db \<Rightarrow> err + (string \<times> 'a \<times> 'j db)) \<Rightarrow> 'j db \<Rightarrow> (err + 'a) \<times> 'j db" where
  "run_tx ev begin_label body db =
    (case fault ev CBegin of
       Some t \<Rightarrow> (Inl (Wrap begin_label (Pg (DriverFailure t))), db)
     | None \<Rightarrow>
       (case body db of
          Inl e \<Rightarrow> (Inl e, db)
        | Inr (label, r, db') \<Rightarrow>
          (case commit ev of
             Committed \<Rightarrow> (Inr r, db')
           | CommitRefused t \<Rightarrow> (Inl (Wrap label (Pg (DriverFailure t))), db)
           | CommitUnknown t \<Rightarrow> (Inl (Wrap label (Pg (DriverFailure t))), db'))))"

text \<open>A single statement on the pool commits by itself; its answer can be lost too. \<open>m\<close> labels
  its error.\<close>

definition auto_stmt ::
  "env \<Rightarrow> db_call \<Rightarrow> string \<Rightarrow> pg_error + 'a \<times> 'j db \<Rightarrow> 'j db \<Rightarrow> (err + 'a) \<times> 'j db" where
  "auto_stmt ev c m r db =
    (case driver ev c r of
       Inl p \<Rightarrow> (Inl (Wrap m (Pg p)), db)
     | Inr (x, db') \<Rightarrow>
       (case commit ev of
          Committed \<Rightarrow> (Inr x, db')
        | CommitRefused t \<Rightarrow> (Inl (Wrap m (Pg (DriverFailure t))), db)
        | CommitUnknown t \<Rightarrow> (Inl (Wrap m (Pg (DriverFailure t))), db')))"

section \<open>Event types and outbox statuses\<close>

definition eventTypeMemoryCreated :: string where "eventTypeMemoryCreated = ''memory_created''"
definition eventTypeMemoryUpdated :: string where "eventTypeMemoryUpdated = ''memory_updated''"
definition eventTypeMemoryDeleted :: string where "eventTypeMemoryDeleted = ''memory_deleted''"
definition eventTypeMemoryPinned :: string where "eventTypeMemoryPinned = ''memory_pinned''"
definition eventTypeMemoryUnpinned :: string where "eventTypeMemoryUnpinned = ''memory_unpinned''"
definition eventTypeMemoryDisabled :: string where "eventTypeMemoryDisabled = ''memory_disabled''"
definition eventTypeMemoryEnabled :: string where "eventTypeMemoryEnabled = ''memory_enabled''"
definition eventTypeMemoryPromoted :: string where "eventTypeMemoryPromoted = ''memory_promoted''"
definition eventTypeMemoryDedupeCollapsed :: string where
  "eventTypeMemoryDedupeCollapsed = ''memory_dedupe_collapsed''"

definition outboxStatusPending :: string where "outboxStatusPending = ''pending''"
definition outboxStatusProcessing :: string where "outboxStatusProcessing = ''processing''"
definition outboxStatusSent :: string where "outboxStatusSent = ''sent''"
definition outboxStatusFailed :: string where "outboxStatusFailed = ''failed''"

definition allowedEventTypes :: "string list" where
  "allowedEventTypes =
     [eventTypeMemoryCreated, eventTypeMemoryUpdated, eventTypeMemoryDeleted, eventTypeMemoryPinned,
      eventTypeMemoryUnpinned, eventTypeMemoryDisabled, eventTypeMemoryEnabled,
      eventTypeMemoryPromoted, eventTypeMemoryDedupeCollapsed]"

definition validateEventType :: "string \<Rightarrow> err + unit" where
  "validateEventType eventType =
     (if eventType \<notin> set allowedEventTypes then Inl (Annot ErrInvalidEventType eventType) else Inr ())"

lemmas event_type_defs = eventTypeMemoryCreated_def eventTypeMemoryUpdated_def
  eventTypeMemoryDeleted_def eventTypeMemoryPinned_def eventTypeMemoryUnpinned_def
  eventTypeMemoryDisabled_def eventTypeMemoryEnabled_def eventTypeMemoryPromoted_def
  eventTypeMemoryDedupeCollapsed_def

lemmas status_defs = outboxStatusPending_def outboxStatusProcessing_def outboxStatusSent_def
  outboxStatusFailed_def

lemma status_distinct [simp]:
  "outboxStatusPending \<noteq> outboxStatusProcessing" "outboxStatusPending \<noteq> outboxStatusSent"
  "outboxStatusPending \<noteq> outboxStatusFailed" "outboxStatusProcessing \<noteq> outboxStatusSent"
  "outboxStatusProcessing \<noteq> outboxStatusFailed" "outboxStatusSent \<noteq> outboxStatusFailed"
  "outboxStatusProcessing \<noteq> outboxStatusPending" "outboxStatusSent \<noteq> outboxStatusPending"
  "outboxStatusFailed \<noteq> outboxStatusPending" "outboxStatusSent \<noteq> outboxStatusProcessing"
  "outboxStatusFailed \<noteq> outboxStatusProcessing" "outboxStatusFailed \<noteq> outboxStatusSent"
  by (simp_all add: status_defs)

lemma valid_event_types [simp]: "t \<in> set allowedEventTypes \<Longrightarrow> validateEventType t = Inr ()"
  by (simp add: validateEventType_def)

section \<open>Statements on \<^verbatim>\<open>memory_record\<close>\<close>

definition unit_interval :: "go_float \<Rightarrow> bool" where
  "unit_interval x = (case x of Fin q \<Rightarrow> 0 \<le> q \<and> q \<le> 1 | _ \<Rightarrow> False)"

definition insert_memory_record :: "record_row \<Rightarrow> record_row list \<Rightarrow> pg_error + record_row list" where
  "insert_memory_record r rows =
     (if mr_tags r = None then Inl (NotNullViolation ''tags'')
      else if \<not> unit_interval (mr_importance r) then Inl (CheckViolation ''importance'')
      else if mr_kind r \<notin> set kinds_v3 then Inl (CheckViolation ''kind'')
      else if mr_source r \<notin> set sources_v1 then Inl (CheckViolation ''source'')
      else if mr_memory_id r \<in> set (map mr_memory_id rows) then Inl (UniqueViolation ''memory_id'')
      else Inr (rows @ [r]))"

definition select_memory_record :: "string \<Rightarrow> string \<Rightarrow> record_row list \<Rightarrow> pg_error + record_row" where
  "select_memory_record t m rows =
     (case find (\<lambda>r. mr_tenant_id r = t \<and> mr_memory_id r = m) rows of
        None \<Rightarrow> Inl NoRows | Some r \<Rightarrow> Inr r)"

text \<open>The two guarded updates: of \<open>mutateRecordTx\<close> and of \<open>Promote\<close>. Both return
  \<open>RowsAffected\<close>. Constraints are checked on the rows that match only.\<close>

definition guarded :: "string \<Rightarrow> string \<Rightarrow> int \<Rightarrow> record_row \<Rightarrow> bool" where
  "guarded t m v r \<longleftrightarrow> mr_tenant_id r = t \<and> mr_memory_id r = m \<and> mr_version r = v"

definition set_mutated :: "MemoryRecord \<Rightarrow> record_row \<Rightarrow> record_row" where
  "set_mutated cur r = r\<lparr>mr_category := Category cur, mr_content := Content cur, mr_tags := Tags cur,
     mr_importance := Importance cur, mr_pinned := Pinned cur, mr_disabled := Disabled cur,
     mr_deleted := Deleted cur, mr_version := Version cur, mr_updated_at := pg_time (UpdatedAt cur),
     mr_deleted_at := map_option pg_time (DeletedAt cur)\<rparr>"

definition update_mutated ::
  "MemoryRecord \<Rightarrow> string \<Rightarrow> string \<Rightarrow> int \<Rightarrow> record_row list \<Rightarrow> pg_error + (nat \<times> record_row list)" where
  "update_mutated cur t m v rows =
     (if count_where (guarded t m v) rows = 0 then Inr (0, rows)
      else if Tags cur = None then Inl (NotNullViolation ''tags'')
      else if \<not> unit_interval (Importance cur) then Inl (CheckViolation ''importance'')
      else Inr (count_where (guarded t m v) rows, update_where (guarded t m v) (set_mutated cur) rows))"

definition set_promoted :: "MemoryRecord \<Rightarrow> record_row \<Rightarrow> record_row" where
  "set_promoted cur r = r\<lparr>mr_kind := Kind cur,
     mr_consolidated_from_event_id := nullableString (ConsolidatedFromEventID cur),
     mr_version := Version cur, mr_updated_at := pg_time (UpdatedAt cur)\<rparr>"

definition update_promoted ::
  "MemoryRecord \<Rightarrow> string \<Rightarrow> string \<Rightarrow> int \<Rightarrow> record_row list \<Rightarrow> pg_error + (nat \<times> record_row list)" where
  "update_promoted cur t m v rows =
     (if count_where (guarded t m v) rows = 0 then Inr (0, rows)
      else if Kind cur \<notin> set kinds_v3 then Inl (CheckViolation ''kind'')
      else Inr (count_where (guarded t m v) rows, update_where (guarded t m v) (set_promoted cur) rows))"

definition update_access ::
  "gotime \<Rightarrow> string \<Rightarrow> string list \<Rightarrow> record_row list \<Rightarrow> pg_error + record_row list" where
  "update_access accessed t ids rows =
     (let hit = (\<lambda>r. mr_tenant_id r = t \<and> mr_memory_id r \<in> set ids) in
      if \<exists>r\<in>set rows. hit r \<and> i64_max \<le> mr_hit_count r then Inl NumericOutOfRange
      else Inr (update_where hit
             (\<lambda>r. r\<lparr>mr_last_access_at := Some (pg_time accessed), mr_hit_count := mr_hit_count r + 1\<rparr>) rows))"

section \<open>Statements on the other tables\<close>

definition insert_memory_event :: "'j event_row \<Rightarrow> 'j event_row list \<Rightarrow> pg_error + 'j event_row list" where
  "insert_memory_event e rows =
     (if me_event_id e \<in> set (map me_event_id rows) then Inl (UniqueViolation ''event_id'')
      else if (me_memory_id e, me_version e, me_event_type e)
          \<in> set (map (\<lambda>r. (me_memory_id r, me_version r, me_event_type r)) rows)
        then Inl (UniqueViolation ''memory_id, version, event_type'')
      else Inr (rows @ [e]))"

definition insert_outbox_event :: "'j outbox_row \<Rightarrow> 'j outbox_row list \<Rightarrow> pg_error + 'j outbox_row list" where
  "insert_outbox_event ob rows =
     (if oe_outbox_id ob \<in> set (map oe_outbox_id rows) then Inl (UniqueViolation ''outbox_id'')
      else Inr (rows @ [ob]))"

definition idem_key :: "'j idem_row \<Rightarrow> string \<times> string" where
  "idem_key r = (mi_tenant_id r, mi_idempotency_key r)"

definition insert_idempotency :: "'j idem_row \<Rightarrow> 'j idem_row list \<Rightarrow> pg_error + 'j idem_row list" where
  "insert_idempotency i rows =
     (if idem_key i \<in> set (map idem_key rows) then Inl (UniqueViolation ''tenant_id, idempotency_key'')
      else Inr (rows @ [i]))"

definition select_idempotency :: "string \<Rightarrow> string \<Rightarrow> 'j idem_row list \<Rightarrow> pg_error + 'j idem_row" where
  "select_idempotency t k rows =
     (case find (\<lambda>r. idem_key r = (t, k)) rows of None \<Rightarrow> Inl NoRows | Some r \<Rightarrow> Inr r)"

text \<open>\<open>INSERT ... ON CONFLICT (tenant_id, idempotency_key) DO UPDATE SET ...\<close>\<close>

definition upsert_idempotency :: "'j idem_row \<Rightarrow> 'j idem_row list \<Rightarrow> 'j idem_row list" where
  "upsert_idempotency i rows =
     (if idem_key i \<in> set (map idem_key rows)
      then update_where (\<lambda>r. idem_key r = idem_key i)
             (\<lambda>r. r\<lparr>mi_request_hash := mi_request_hash i, mi_memory_id := mi_memory_id i,
                    mi_response_snapshot := mi_response_snapshot i, mi_created_at := mi_created_at i,
                    mi_expires_at := mi_expires_at i\<rparr>) rows
      else rows @ [i])"

definition dedupe_key :: "dedupe_row \<Rightarrow> string \<times> string" where
  "dedupe_key r = (dd_tenant_id r, dd_dedupe_key r)"

text \<open>\<open>INSERT ... ON CONFLICT (tenant_id, dedupe_key) DO NOTHING RETURNING winner_memory_id\<close>: no
  row comes back when the key is taken.\<close>

definition claim_dedupe :: "dedupe_row \<Rightarrow> dedupe_row list \<Rightarrow> pg_error + (string \<times> dedupe_row list)" where
  "claim_dedupe d rows =
     (if dedupe_key d \<in> set (map dedupe_key rows) then Inl NoRows
      else Inr (dd_winner_memory_id d, rows @ [d]))"

definition select_dedupe :: "string \<Rightarrow> string \<Rightarrow> dedupe_row list \<Rightarrow> pg_error + string" where
  "select_dedupe t k rows =
     (case find (\<lambda>r. dedupe_key r = (t, k)) rows of
        None \<Rightarrow> Inl NoRows | Some r \<Rightarrow> Inr (dd_winner_memory_id r))"

text \<open>A new outbox row as the \<open>INSERT\<close>s of the store write it: pending, no attempt, no lease.\<close>

definition new_outbox_row ::
  "env \<Rightarrow> string \<Rightarrow> string \<Rightarrow> string \<Rightarrow> string \<Rightarrow> string \<Rightarrow> 'j \<Rightarrow> 'j outbox_row" where
  "new_outbox_row ev oid agg tenant evid ty raw =
     \<lparr>oe_outbox_id = oid, oe_aggregate_type = ''memory'', oe_aggregate_id = agg, oe_tenant_id = tenant,
      oe_event_id = evid, oe_event_type = ty, oe_payload = raw, oe_status = outboxStatusPending,
      oe_attempt_count = 0, oe_created_at = db_now ev, oe_sent_at = None, oe_last_error = None,
      oe_claimed_by = None, oe_claimed_at = None, oe_lease_expires_at = None\<rparr>"

text \<open>The statements of the write path, for evaluating concrete calls.\<close>

lemmas [stmt_defs] = insert_memory_record_def insert_memory_event_def insert_outbox_event_def
  insert_idempotency_def select_idempotency_def idem_key_def new_outbox_row_def

end
