(* ===== verification/Queries.thy ===== *)
theory Queries
  imports Database "HOL-Library.Product_Lexorder" "HOL-Library.Multiset"
begin

text \<open>
  Queries with several rows, as \<open>ClaimBatch\<close>, \<open>ListFailed\<close> and \<open>ListSessionWorking\<close> run them: the
  order \<open>ORDER BY\<close> asks for, with the rows that tie in whatever order the server meets them, and the
  loop over \<open>rows.Next\<close>, \<open>rows.Scan\<close> and \<open>rows.Err\<close>, which can fail at each row.
\<close>

section \<open>Descending keys\<close>

text \<open>\<open>DESC\<close> as a type of its own: the reverse of an order is an order, so that a list of sort keys is a
  tuple and the lexicographic order of the library does the rest.\<close>

datatype 'a desc = Desc 'a

instantiation desc :: (linorder) linorder
begin

definition less_eq_desc :: "'a desc \<Rightarrow> 'a desc \<Rightarrow> bool" where
  "less_eq_desc x y \<longleftrightarrow> (case x of Desc a \<Rightarrow> case y of Desc b \<Rightarrow> b \<le> a)"

definition less_desc :: "'a desc \<Rightarrow> 'a desc \<Rightarrow> bool" where
  "less_desc x y \<longleftrightarrow> (case x of Desc a \<Rightarrow> case y of Desc b \<Rightarrow> b < a)"

instance
  by standard (auto simp: less_eq_desc_def less_desc_def split: desc.splits)

end

lemma desc_order [simp]: "Desc a \<le> Desc b \<longleftrightarrow> b \<le> a" "Desc a < Desc b \<longleftrightarrow> b < a"
  by (simp_all add: less_eq_desc_def less_desc_def)

section \<open>\<open>ORDER BY\<close>\<close>

text \<open>SQL leaves the order of rows with equal keys open; \<open>scan_rank\<close> of the environment says in which
  order the server meets them. Rows of one transaction carry one \<open>NOW()\<close>, so ties are common.\<close>

definition order_by :: "env \<Rightarrow> ('r \<Rightarrow> string) \<Rightarrow> ('r \<Rightarrow> 'k :: linorder) \<Rightarrow> 'r list \<Rightarrow> 'r list" where
  "order_by ev ident key rows = sort_key (\<lambda>r. (key r, scan_rank ev (ident r))) rows"

lemma order_by_simps [simp]:
  "set (order_by ev ident key rows) = set rows" "mset (order_by ev ident key rows) = mset rows"
  "length (order_by ev ident key rows) = length rows" "distinct (order_by ev ident key rows) = distinct rows"
  "order_by ev ident key [] = []" "order_by ev ident key [r] = [r]"
  by (simp_all add: order_by_def)

lemma order_by_sorted: "sorted_wrt (\<lambda>r s. key r \<le> key s) (order_by ev ident key rows)"
proof -
  have "sorted (map (\<lambda>r. (key r, scan_rank ev (ident r))) (order_by ev ident key rows))"
    by (simp add: order_by_def)
  then have "sorted_wrt (\<lambda>r s. (key r, scan_rank ev (ident r)) \<le> (key s, scan_rank ev (ident s))) (order_by ev ident key rows)"
    by (simp add: sorted_map)
  then show ?thesis by (rule sorted_wrt_mono_rel [rotated]) auto
qed

text \<open>Cutting an ordered result, after some rows may have been left out: the part shown, the rest, and that
  no row of the rest should have come before one that is shown.\<close>

lemma order_by_cut:
  fixes p :: "'r \<Rightarrow> bool" and ev :: env and ident :: "'r \<Rightarrow> string" and key :: "'r \<Rightarrow> 'k :: linorder"
  defines "whole rows \<equiv> filter p (order_by ev ident key rows)"
  shows "mset (take n (whole rows) @ drop n (whole rows)) = mset (filter p rows)"
    and "length (take n (whole rows)) = min n (length (filter p rows))"
    and "sorted_wrt (\<lambda>r s. key r \<le> key s) (take n (whole rows))"
    and "\<forall>r\<in>set (take n (whole rows)). \<forall>s\<in>set (drop n (whole rows)). key r \<le> key s"
proof -
  have m: "mset (whole rows) = mset (filter p rows)" by (simp add: whole_def)
  then show "mset (take n (whole rows) @ drop n (whole rows)) = mset (filter p rows)" by simp
  show "length (take n (whole rows)) = min n (length (filter p rows))"
    using arg_cong [OF m, of size] by (simp only: size_mset length_take min.commute)
  have s: "sorted_wrt (\<lambda>r s. key r \<le> key s) (take n (whole rows) @ drop n (whole rows))"
    by (simp add: whole_def sorted_wrt_filter order_by_sorted)
  then show "sorted_wrt (\<lambda>r s. key r \<le> key s) (take n (whole rows))"
    and "\<forall>r\<in>set (take n (whole rows)). \<forall>s\<in>set (drop n (whole rows)). key r \<le> key s"
    unfolding sorted_wrt_append by blast+
qed

lemma filter_True_all [simp]: "filter (\<lambda>_. True) xs = xs"
  by (induction xs) simp_all

section \<open>The row loop\<close>

text \<open>\<open>for rows.Next() { rows.Scan(...); ... }\<close>, then \<open>rows.Err()\<close>: a stream that breaks before row \<open>i\<close> ends
  the loop and is reported by \<open>rows.Err\<close>; a row that does not scan, or that the body \<open>f\<close> refuses, ends it
  at once.\<close>

fun fetch_rows :: "env \<Rightarrow> string \<Rightarrow> string \<Rightarrow> ('r \<Rightarrow> err + 'a) \<Rightarrow> nat \<Rightarrow> 'r list \<Rightarrow> err + 'a list" where
  "fetch_rows ev scan_label rows_label f i [] = bindE (exec ev (CNext i) rows_label (Inr ())) (\<lambda>_. Inr [])"
| "fetch_rows ev scan_label rows_label f i (r # rs) =
     bindE (exec ev (CNext i) rows_label (Inr ())) (\<lambda>_.
     bindE (exec ev (CScan i) scan_label (Inr ())) (\<lambda>_.
     bindE (f r) (\<lambda>x.
     bindE (fetch_rows ev scan_label rows_label f (Suc i) rs) (\<lambda>xs. Inr (x # xs)))))"

lemma fetch_rows_Inr: "fetch_rows ev sl rl f i rs = Inr xs \<Longrightarrow> list_all2 (\<lambda>r x. f r = Inr x) rs xs"
  by (induction rs arbitrary: i xs) (auto simp: bindE_eq_Inr)

lemma fetch_rows_total: "fetch_rows ev sl rl (\<lambda>r. Inr (g r)) i rs = Inr xs \<Longrightarrow> xs = map g rs"
  by (drule fetch_rows_Inr) (auto simp: list_all2_conv_all_nth intro: nth_equalityI)

text \<open>Without faults the loop is a plain traversal, and its error the first one of the body.\<close>

lemma fetch_rows_calm:
  assumes "\<forall>c. fault ev c = None"
  shows "\<forall>r\<in>set rs. \<exists>x. f r = Inr x \<Longrightarrow> \<exists>xs. fetch_rows ev sl rl f i rs = Inr xs"
    and "fetch_rows ev sl rl (\<lambda>r. Inr (g r)) i rs = Inr (map g rs)"
    and "\<exists>r\<in>set rs. f r = Inl e \<Longrightarrow> \<forall>r\<in>set rs. \<forall>e'. f r = Inl e' \<longrightarrow> e' = e \<Longrightarrow> fetch_rows ev sl rl f i rs = Inl e"
proof -
  have [simp]: "exec ev c l x = mapErr (\<lambda>p. Wrap l (Pg p)) x" for c l and x :: "pg_error + unit"
    using assms by (simp add: exec_def driver_def)
  show "\<forall>r\<in>set rs. \<exists>x. f r = Inr x \<Longrightarrow> \<exists>xs. fetch_rows ev sl rl f i rs = Inr xs"
  proof (induction rs arbitrary: i)
    case (Cons r rs)
    then obtain x xs where "f r = Inr x" "fetch_rows ev sl rl f (Suc i) rs = Inr xs" by fastforce
    then show ?case by simp
  qed simp
  show "fetch_rows ev sl rl (\<lambda>r. Inr (g r)) i rs = Inr (map g rs)"
    by (induction rs arbitrary: i) auto
  show "\<exists>r\<in>set rs. f r = Inl e \<Longrightarrow> \<forall>r\<in>set rs. \<forall>e'. f r = Inl e' \<longrightarrow> e' = e \<Longrightarrow> fetch_rows ev sl rl f i rs = Inl e"
  proof (induction rs arbitrary: i)
    case (Cons r rs)
    show ?case
    proof (cases "f r")
      case (Inl e')
      with Cons.prems(2) show ?thesis by simp
    next
      case (Inr x)
      with Cons.prems(1) have "\<exists>r\<in>set rs. f r = Inl e" by auto
      from Cons.IH [OF this, of "Suc i"] Cons.prems(2) Inr show ?thesis by simp
    qed
  qed simp
qed

text \<open>What a failed loop reports: a broken stream, a row that did not scan, or an error of the body.\<close>

lemma fetch_rows_Inl:
  assumes "fetch_rows ev sl rl f i rs = Inl e"
  shows "(\<exists>j t. fault ev (CNext j) = Some t \<and> e = Wrap rl (Pg (DriverFailure t)))
    \<or> (\<exists>j t. fault ev (CScan j) = Some t \<and> e = Wrap sl (Pg (DriverFailure t)))
    \<or> (\<exists>r\<in>set rs. f r = Inl e)"
  using assms
proof (induction rs arbitrary: i)
  case (Cons r rs)
  then show ?case
    by (auto simp: bindE_eq_Inl exec_def mapErr_eq_Inl driver_def split: option.splits)
next
  case Nil
  then show ?case by (auto simp: bindE_eq_Inl exec_def mapErr_eq_Inl driver_def split: option.splits)
qed

text \<open>How the commit will end plays no part in the calls before it.\<close>

lemma exec_commit [simp]: "exec (ev\<lparr>commit := out\<rparr>) c l r = exec ev c l r"
  by (simp add: exec_def driver_def)

lemma fetch_rows_commit [simp]: "fetch_rows (ev\<lparr>commit := out\<rparr>) sl rl f i rs = fetch_rows ev sl rl f i rs"
  by (induction rs arbitrary: i) simp_all

end
