(* ===== verification/Tables.thy ===== *)
theory Tables
  imports Queries
begin

text \<open>
  The contract of a table with a unique key, as a locale, with the lemmas every client needs,
  and its interpretation on the five \<open>INSERT\<close>s of the store; then the contract of a guarded
  \<open>UPDATE\<close> and its two interpretations.
\<close>

section \<open>Tables with a unique key\<close>

text \<open>\<open>ins\<close> either reports an error or appends a row whose key no row has.\<close>

locale keyed_table =
  fixes key :: "'r \<Rightarrow> 'k"
    and ins :: "'r \<Rightarrow> 'r list \<Rightarrow> pg_error + 'r list"
  assumes ins_appends: "ins r rows = Inr rows' \<Longrightarrow> rows' = rows @ [r]"
    and ins_fresh: "ins r rows = Inr rows' \<Longrightarrow> key r \<notin> set (map key rows)"
begin

lemma ins_distinct: "ins r rows = Inr rows' \<Longrightarrow> distinct (map key rows) \<Longrightarrow> distinct (map key rows')"
  using ins_appends [of r rows rows'] ins_fresh [of r rows rows'] by simp

lemma ins_member: "ins r rows = Inr rows' \<Longrightarrow> set rows' = insert r (set rows)"
  using ins_appends [of r rows rows'] by simp

lemma ins_length: "ins r rows = Inr rows' \<Longrightarrow> length rows' = Suc (length rows)"
  using ins_appends [of r rows rows'] by simp

lemma ins_find_new:
  assumes "ins r rows = Inr rows'"
  shows "find (\<lambda>x. key x = key r) rows' = Some r"
proof -
  have "find (\<lambda>x. key x = key r) rows = None"
    by (rule find_no_key [OF ins_fresh [OF assms]])
  then show ?thesis by (simp add: ins_appends [OF assms] find_append)
qed

lemma ins_find_old:
  assumes "ins r rows = Inr rows'" and "k \<noteq> key r"
  shows "find (\<lambda>x. key x = k) rows' = find (\<lambda>x. key x = k) rows"
  using assms by (simp add: ins_appends [OF assms(1)] find_append split: option.split)

lemma ins_keeps_member: "ins r rows = Inr rows' \<Longrightarrow> x \<in> set rows \<Longrightarrow> x \<in> set rows'"
  by (simp add: ins_member)

lemma ins_taken: "key r \<in> set (map key rows) \<Longrightarrow> \<exists>e. ins r rows = Inl e"
  using ins_fresh [of r rows] by (cases "ins r rows") auto

lemma ins_twice: "ins r rows = Inr rows' \<Longrightarrow> key r' = key r \<Longrightarrow> \<exists>e. ins r' rows' = Inl e"
  by (rule ins_taken) (simp add: ins_member)

end

interpretation rec_tab: keyed_table mr_memory_id insert_memory_record
  by unfold_locales (auto simp: insert_memory_record_def split: if_splits)

interpretation event_tab: keyed_table me_event_id insert_memory_event
  by unfold_locales (auto simp: insert_memory_event_def split: if_splits)

interpretation event_ver_tab: keyed_table
    "\<lambda>r. (me_memory_id r, me_version r, me_event_type r)" insert_memory_event
  by unfold_locales (auto simp: insert_memory_event_def split: if_splits)

interpretation outbox_tab: keyed_table oe_outbox_id insert_outbox_event
  by unfold_locales (auto simp: insert_outbox_event_def split: if_splits)

interpretation idem_tab: keyed_table idem_key insert_idempotency
  by unfold_locales (auto simp: insert_idempotency_def split: if_splits)

interpretation dedupe_tab: keyed_table dedupe_key "\<lambda>d rows. map_sum id snd (claim_dedupe d rows)"
  by unfold_locales (auto simp: claim_dedupe_def split: if_splits)

section \<open>Guarded updates\<close>

text \<open>
  The contract of the two version-guarded \<open>UPDATE\<close>s: with the identifier unique, at most one
  row is affected; it is the row whose version is the expected one; its identity and access
  columns are left alone; and zero rows affected means nothing changed.
\<close>

locale guarded_update =
  fixes setter :: "MemoryRecord \<Rightarrow> record_row \<Rightarrow> record_row"
    and upd :: "MemoryRecord \<Rightarrow> string \<Rightarrow> string \<Rightarrow> int \<Rightarrow> record_row list \<Rightarrow> pg_error + (nat \<times> record_row list)"
  assumes upd_rows: "upd cur t m v rows = Inr (n, rows') \<Longrightarrow>
      n = count_where (guarded t m v) rows \<and> rows' = update_where (guarded t m v) (setter cur) rows"
    and setter_id: "mr_memory_id (setter cur r) = mr_memory_id r" "mr_tenant_id (setter cur r) = mr_tenant_id r"
    and setter_version: "mr_version (setter cur r) = Version cur"
    and setter_access: "mr_hit_count (setter cur r) = mr_hit_count r"
      "mr_last_access_at (setter cur r) = mr_last_access_at r"
    and upd_none: "count_where (guarded t m v) rows = 0 \<Longrightarrow> upd cur t m v rows = Inr (0, rows)"
begin

lemma upd_ids:
  "upd cur t m v rows = Inr (n, rows') \<Longrightarrow> map mr_memory_id rows' = map mr_memory_id rows"
  using upd_rows [of cur t m v rows n rows'] by (simp add: map_update_where setter_id)

lemma upd_at_most_one:
  assumes "upd cur t m v rows = Inr (n, rows')" and "distinct (map mr_memory_id rows)"
  shows "n \<le> 1"
proof -
  have "count_where (guarded t m v) rows \<le> 1"
    by (rule count_where_le_1 [OF assms(2)]) (simp add: guarded_def)
  with upd_rows [OF assms(1)] show ?thesis by simp
qed

lemma upd_hits:
  assumes "upd cur t m v rows = Inr (n, rows')" and "n \<noteq> 0"
  obtains r where "r \<in> set rows" and "guarded t m v r" and "setter cur r \<in> set rows'"
proof -
  from assms upd_rows [OF assms(1)] obtain r where "r \<in> set rows" "guarded t m v r"
    by (auto simp: count_where_0)
  moreover from this upd_rows [OF assms(1)] have "setter cur r \<in> set rows'"
    by (auto simp: set_update_where image_iff)
  ultimately show thesis by (rule that)
qed

text \<open>With unique identifiers, the row of \<open>(t, m)\<close> is rewritten and every other row is kept.\<close>

lemma upd_find:
  assumes "upd cur t m v rows = Inr (n, rows')"
  shows "find (\<lambda>r. mr_tenant_id r = t' \<and> mr_memory_id r = m') rows' =
     map_option (\<lambda>r. if guarded t m v r then setter cur r else r)
       (find (\<lambda>r. mr_tenant_id r = t' \<and> mr_memory_id r = m') rows)"
  using upd_rows [OF assms] by (simp add: find_update_where setter_id)

lemma upd_other_rows:
  assumes "upd cur t m v rows = Inr (n, rows')" and "r \<in> set rows" and "mr_memory_id r \<noteq> m"
  shows "r \<in> set rows'"
proof -
  have "\<not> guarded t m v r" using assms(3) by (simp add: guarded_def)
  then show ?thesis using assms(2) upd_rows [OF assms(1)] by (force simp: set_update_where image_iff)
qed

text \<open>After a hit the expected version is gone: the same guard matches nothing (unless the
  version is unchanged).\<close>

lemma upd_guard_spent:
  assumes "upd cur t m v rows = Inr (n, rows')" and "Version cur \<noteq> v"
  shows "count_where (guarded t m v) rows' = 0"
proof -
  have "\<not> guarded t m v (setter cur r)" for r
    using assms(2) by (simp add: guarded_def setter_version)
  then show ?thesis using upd_rows [OF assms(1)] by (auto simp: count_where_0 set_update_where)
qed

lemma upd_spent_again:
  assumes "upd cur t m v rows = Inr (n, rows')" and "Version cur \<noteq> v"
  shows "upd cur' t m v rows' = Inr (0, rows')"
  by (rule upd_none) (rule upd_guard_spent [OF assms])

end

lemma update_where_uncounted: "count_where p rows = 0 \<Longrightarrow> update_where p f rows = rows"
  by (rule update_where_none) (simp add: count_where_0)

lemma update_mutated_Inr:
  "update_mutated cur t m v rows = Inr (n, rows') \<Longrightarrow>
     n = count_where (guarded t m v) rows \<and> rows' = update_where (guarded t m v) (set_mutated cur) rows"
  by (simp add: update_mutated_def update_where_uncounted split: if_splits)

lemma update_promoted_Inr:
  "update_promoted cur t m v rows = Inr (n, rows') \<Longrightarrow>
     n = count_where (guarded t m v) rows \<and> rows' = update_where (guarded t m v) (set_promoted cur) rows"
  by (simp add: update_promoted_def update_where_uncounted split: if_splits)

interpretation mutated: guarded_update set_mutated update_mutated
  by (unfold_locales; (erule update_mutated_Inr)?; simp add: set_mutated_def update_mutated_def)

interpretation promoted: guarded_update set_promoted update_promoted
  by (unfold_locales; (erule update_promoted_Inr)?; simp add: set_promoted_def update_promoted_def)

section \<open>Lookups\<close>

lemma select_memory_record_Inr:
  "select_memory_record t m rows = Inr w \<Longrightarrow> w \<in> set rows \<and> mr_tenant_id w = t \<and> mr_memory_id w = m"
  by (auto simp: select_memory_record_def dest!: find_SomeD split: option.splits)

lemma select_memory_record_Inl: "select_memory_record t m rows = Inl e \<Longrightarrow> e = NoRows"
  by (auto simp: select_memory_record_def split: option.splits)

lemma select_memory_record_iff:
  assumes "distinct (map mr_memory_id rows)"
  shows "select_memory_record t m rows = Inr w \<longleftrightarrow> w \<in> set rows \<and> mr_tenant_id w = t \<and> mr_memory_id w = m"
proof
  assume w: "w \<in> set rows \<and> mr_tenant_id w = t \<and> mr_memory_id w = m"
  then obtain x where x: "find (\<lambda>r. mr_tenant_id r = t \<and> mr_memory_id r = m) rows = Some x"
    by (metis (mono_tags, lifting) find_None option.exhaust)
  then have "x \<in> set rows" "mr_memory_id x = m" by (auto dest: find_SomeD)
  with w distinct_key_inj [OF assms] have "x = w" by blast
  with x show "select_memory_record t m rows = Inr w" by (simp add: select_memory_record_def)
qed (rule select_memory_record_Inr)

lemma select_idempotency_Inr:
  "select_idempotency t k rows = Inr i \<Longrightarrow> i \<in> set rows \<and> idem_key i = (t, k)"
  by (auto simp: select_idempotency_def dest!: find_SomeD split: option.splits)

lemma select_after_upsert:
  "\<exists>r. select_idempotency (mi_tenant_id i) (mi_idempotency_key i) (upsert_idempotency i rows) = Inr r
     \<and> mi_request_hash r = mi_request_hash i \<and> mi_response_snapshot r = mi_response_snapshot i
     \<and> mi_memory_id r = mi_memory_id i \<and> mi_expires_at r = mi_expires_at i"
proof (cases "idem_key i \<in> set (map idem_key rows)")
  case True
  then obtain r where "find (\<lambda>r. idem_key r = idem_key i) rows = Some r"
    using find_None [of "\<lambda>r. idem_key r = idem_key i" rows] by force
  moreover from this have "idem_key r = idem_key i" by (auto dest: find_SomeD)
  ultimately show ?thesis using True
    by (simp add: upsert_idempotency_def select_idempotency_def idem_key_def find_update_where)
next
  case False
  then have "find (\<lambda>r. idem_key r = idem_key i) rows = None" by (rule find_no_key)
  then show ?thesis using False
    by (simp add: upsert_idempotency_def select_idempotency_def idem_key_def find_append)
qed

lemma upsert_distinct:
  "distinct (map idem_key rows) \<Longrightarrow> distinct (map idem_key (upsert_idempotency i rows))"
  by (auto simp: upsert_idempotency_def map_update_where idem_key_def)

lemma driver_eq_Inr [simp]: "driver ev c r = Inr x \<longleftrightarrow> fault ev c = None \<and> r = Inr x"
  by (auto simp: driver_def split: option.splits)

lemma exec_eq_Inr [simp]: "exec ev c m r = Inr x \<longleftrightarrow> fault ev c = None \<and> r = Inr x"
  by (simp add: exec_def)

lemma exec_faulty: "fault ev c = Some t \<Longrightarrow> exec ev c m r = Inl (Wrap m (Pg (DriverFailure t)))"
  by (simp add: exec_def driver_def)

lemma exec_calm: "fault ev c = None \<Longrightarrow> exec ev c m r = mapErr (\<lambda>p. Wrap m (Pg p)) r"
  by (simp add: exec_def driver_def)

section \<open>Transactions\<close>

text \<open>A transaction publishes its whole copy or nothing.\<close>

lemma run_tx_Inr:
  "run_tx ev l body db = (Inr r, db') \<longleftrightarrow>
     fault ev CBegin = None \<and> (\<exists>m. body db = Inr (m, r, db')) \<and> commit ev = Committed"
  by (auto simp: run_tx_def split: option.splits sum.splits prod.splits commit_outcome.splits)

lemma run_tx_Inl:
  assumes "run_tx ev l body db = (Inl e, db')"
  shows "db' = db \<or> (\<exists>m r t. body db = Inr (m, r, db') \<and> commit ev = CommitUnknown t
      \<and> e = Wrap m (Pg (DriverFailure t)))"
  using assms by (auto simp: run_tx_def split: option.splits sum.splits prod.splits commit_outcome.splits)

lemma run_tx_snd:
  "snd (run_tx ev l body db) = db \<or> (\<exists>m r. body db = Inr (m, r, snd (run_tx ev l body db)))"
  by (auto simp: run_tx_def split: option.splits sum.splits prod.splits commit_outcome.splits)

lemma run_tx_body_error:
  "fault ev CBegin = None \<Longrightarrow> body db = Inl e \<Longrightarrow> run_tx ev l body db = (Inl e, db)"
  by (simp add: run_tx_def)

lemma run_tx_committed:
  "fault ev CBegin = None \<Longrightarrow> body db = Inr (m, r, db') \<Longrightarrow> commit ev = Committed
    \<Longrightarrow> run_tx ev l body db = (Inr r, db')"
  by (simp add: run_tx_def)

section \<open>Single statements\<close>

lemma auto_stmt_Inr:
  "auto_stmt ev c m r db = (Inr x, db') \<longleftrightarrow> fault ev c = None \<and> r = Inr (x, db') \<and> commit ev = Committed"
  by (auto simp: auto_stmt_def driver_def split: option.splits sum.splits prod.splits commit_outcome.splits)

lemma auto_stmt_Inl:
  "auto_stmt ev c m r db = (Inl e, db') \<Longrightarrow>
     db' = db \<or> (\<exists>x t. r = Inr (x, db') \<and> commit ev = CommitUnknown t \<and> e = Wrap m (Pg (DriverFailure t)))"
  by (auto simp: auto_stmt_def driver_def split: option.splits sum.splits prod.splits commit_outcome.splits)

lemma auto_stmt_snd: "snd (auto_stmt ev c m r db) = db \<or> (\<exists>x. r = Inr (x, snd (auto_stmt ev c m r db)))"
  by (auto simp: auto_stmt_def driver_def split: option.splits sum.splits prod.splits commit_outcome.splits)

lemma auto_stmt_calm:
  "fault ev c = None \<Longrightarrow> commit ev = Committed \<Longrightarrow> auto_stmt ev c m r db =
     (case r of Inl p \<Rightarrow> (Inl (Wrap m (Pg p)), db) | Inr (x, db') \<Rightarrow> (Inr x, db'))"
  by (auto simp: auto_stmt_def driver_def split: sum.splits prod.splits)

end
