(* ===== verification/WriteRecord.thy ===== *)
theory WriteRecord
  imports Tables
begin

text \<open>
  \<^verbatim>\<open>postgres/store.go\<close>, the write path: \<open>lookupIdempotentWrite\<close>, \<open>WriteRecord\<close> and the
  pair of inserts (event, outbox) that every state change of the store makes.
\<close>

section \<open>Emitting an event with its outbox message\<close>

text \<open>
  The four places that insert an event and an outbox row do the same calls under their own error
  labels; \<open>emit_site\<close> holds what differs.
\<close>

record emit_site =
  es_event_uuid :: nat
  es_outbox_uuid :: nat
  es_event_call :: db_call
  es_outbox_call :: db_call
  es_encode_event :: string
  es_insert_event :: string
  es_encode_outbox :: string
  es_insert_outbox :: string

text \<open>The event row and the message take their columns and fields from the record of the change and its type,
  not from the event document, which the caller builds beside them.\<close>

definition change_row :: "env \<Rightarrow> string \<Rightarrow> string option \<Rightarrow> string \<Rightarrow> MemoryRecord \<Rightarrow> 'j \<Rightarrow> 'j event_row" where
  "change_row ev eventID key ty record raw =
     \<lparr>me_event_id = eventID, me_memory_id = MemoryID record, me_tenant_id = TenantID record,
      me_event_type = ty, me_version = Version record, me_idempotency_key = key,
      me_payload = raw, me_created_at = db_now ev\<rparr>"

definition change_message :: "string \<Rightarrow> string \<Rightarrow> MemoryRecord \<Rightarrow> (string \<times> string) list \<Rightarrow> OutboxMessage" where
  "change_message eventID ty record meta =
     \<lparr>om_Version = Version record, om_TenantID = TenantID record, om_MemoryID = MemoryID record,
      om_EventType = ty, om_EventID = eventID, om_Record = record, om_Metadata = meta\<rparr>"

definition emit_change ::
  "'j sdk \<Rightarrow> env \<Rightarrow> emit_site \<Rightarrow> string option \<Rightarrow> string \<Rightarrow> MemoryRecord \<Rightarrow> (string \<times> string) list \<Rightarrow> StoredEvent
     \<Rightarrow> 'j db \<Rightarrow> err + 'j db" where
  "emit_change K ev es key ty record meta eventPayload db =
    (let eventID = uuid ev (es_event_uuid es) in
     bindE (mapErr (Wrap (es_encode_event es)) (encodeJSON (marshal_event K) eventPayload)) (\<lambda>eventRaw.
     bindE (exec ev (es_event_call es) (es_insert_event es)
              (insert_memory_event (change_row ev eventID key ty record eventRaw) (events db))) (\<lambda>evs.
     bindE (mapErr (Wrap (es_encode_outbox es))
              (encodeJSON (marshal_outbox K) (change_message eventID ty record meta))) (\<lambda>outboxRaw.
     bindE (exec ev (es_outbox_call es) (es_insert_outbox es)
              (insert_outbox_event
                (new_outbox_row ev (uuid ev (es_outbox_uuid es)) (MemoryID record) (TenantID record)
                   eventID ty outboxRaw) (outbox db))) (\<lambda>obs.
     Inr (db\<lparr>events := evs, outbox := obs\<rparr>))))))"

text \<open>The same with everything read off the event document. The documents the store builds agree with the
  record and the type (the lemma below discharges this at each site), so the proofs speak of one document.\<close>

definition event_row_of :: "env \<Rightarrow> string \<Rightarrow> string option \<Rightarrow> StoredEvent \<Rightarrow> 'j \<Rightarrow> 'j event_row" where
  "event_row_of ev eventID key e raw =
     \<lparr>me_event_id = eventID, me_memory_id = se_MemoryID e, me_tenant_id = se_TenantID e,
      me_event_type = se_EventType e, me_version = se_Version e, me_idempotency_key = key,
      me_payload = raw, me_created_at = db_now ev\<rparr>"

definition message_of :: "string \<Rightarrow> StoredEvent \<Rightarrow> OutboxMessage" where
  "message_of eventID e =
     \<lparr>om_Version = se_Version e, om_TenantID = se_TenantID e, om_MemoryID = se_MemoryID e,
      om_EventType = se_EventType e, om_EventID = eventID, om_Record = se_Record e,
      om_Metadata = se_Metadata e\<rparr>"

definition emit ::
  "'j sdk \<Rightarrow> env \<Rightarrow> emit_site \<Rightarrow> string option \<Rightarrow> StoredEvent \<Rightarrow> 'j db \<Rightarrow> err + 'j db" where
  "emit K ev es key e db =
    (let eventID = uuid ev (es_event_uuid es) in
     bindE (mapErr (Wrap (es_encode_event es)) (encodeJSON (marshal_event K) e)) (\<lambda>eventRaw.
     bindE (exec ev (es_event_call es) (es_insert_event es)
              (insert_memory_event (event_row_of ev eventID key e eventRaw) (events db))) (\<lambda>evs.
     bindE (mapErr (Wrap (es_encode_outbox es))
              (encodeJSON (marshal_outbox K) (message_of eventID e))) (\<lambda>outboxRaw.
     bindE (exec ev (es_outbox_call es) (es_insert_outbox es)
              (insert_outbox_event
                (new_outbox_row ev (uuid ev (es_outbox_uuid es)) (se_MemoryID e) (se_TenantID e)
                   eventID (se_EventType e) outboxRaw) (outbox db))) (\<lambda>obs.
     Inr (db\<lparr>events := evs, outbox := obs\<rparr>))))))"

lemma emit_change_document [simp]:
  assumes "se_MemoryID e = MemoryID record" and "se_TenantID e = TenantID record" and "se_Version e = Version record"
    and "se_EventType e = ty" and "se_Record e = record" and "se_Metadata e = meta"
  shows "emit_change K ev es key ty record meta e db = emit K ev es key e db"
  using assms by (simp add: emit_change_def emit_def change_row_def event_row_of_def change_message_def message_of_def)

section \<open>\<open>WriteRecord\<close>\<close>

definition write_site :: emit_site where
  "write_site = \<lparr>es_event_uuid = 1, es_outbox_uuid = 2, es_event_call = CInsertEvent,
     es_outbox_call = CInsertOutbox,
     es_encode_event = ''memory/postgres: encode event payload: '',
     es_insert_event = ''memory/postgres: insert memory_event: '',
     es_encode_outbox = ''memory/postgres: encode outbox payload: '',
     es_insert_outbox = ''memory/postgres: insert outbox_event: ''\<rparr>"

definition lookupIdempotentWrite ::
  "'j sdk \<Rightarrow> env \<Rightarrow> WriteRecordInput \<Rightarrow> 'j db \<Rightarrow> err + WriteRecordResult option" where
  "lookupIdempotentWrite K ev inp db =
    (case driver ev CLookup (select_idempotency (wi_TenantID inp) (wi_IdempotencyKey inp) (idems db)) of
       Inl e \<Rightarrow> if isNoRows e then Inr None
                else Inl (Wrap ''memory/postgres: read idempotency: '' (Pg e))
     | Inr row \<Rightarrow>
        if mi_request_hash row \<noteq> wi_RequestHash inp then Inl ErrIdempotencyConflict
        else bindE (mapErr (Wrap ''memory/postgres: decode idempotency snapshot: '')
                 (decodeJSON (unmarshal_entry K) (mi_response_snapshot row)))
               (\<lambda>snap. Inr (Some (ie_Response snap))))"

text \<open>The record as the write stamps it; the identifier is drawn only when the caller gave none.\<close>

definition stamp_record :: "env \<Rightarrow> WriteRecordInput \<Rightarrow> MemoryRecord" where
  "stamp_record ev inp =
    (let record = wi_Record inp in
     record\<lparr>TenantID := wi_TenantID inp,
       MemoryID := (if MemoryID record = [] then uuid ev 0 else MemoryID record),
       CreatedAt := (if CreatedAt record = go_zero_time then now ev else CreatedAt record),
       UpdatedAt := now ev, Version := 1\<rparr>)"

definition created_event :: "WriteRecordInput \<Rightarrow> MemoryRecord \<Rightarrow> StoredEvent" where
  "created_event inp record =
     \<lparr>se_Version = Version record, se_TenantID = TenantID record, se_MemoryID = MemoryID record,
      se_EventType = eventTypeMemoryCreated, se_IdempotencyKey = wi_IdempotencyKey inp,
      se_Record = record, se_Metadata = []\<rparr>"

lemma created_event_simps [simp]:
  "se_MemoryID (created_event inp r) = MemoryID r" "se_TenantID (created_event inp r) = TenantID r"
  "se_Version (created_event inp r) = Version r"
  "se_EventType (created_event inp r) = eventTypeMemoryCreated"
  "se_Record (created_event inp r) = r" "se_Metadata (created_event inp r) = []"
  by (simp_all add: created_event_def)

definition write_result :: "MemoryRecord \<Rightarrow> WriteRecordResult" where
  "write_result record = \<lparr>wr_MemoryID = MemoryID record, wr_Version = Version record,
     wr_Created = True, wr_Record = record\<rparr>"

definition write_entry :: "env \<Rightarrow> WriteRecordInput \<Rightarrow> MemoryRecord \<Rightarrow> IdempotencyEntry" where
  "write_entry ev inp record =
     \<lparr>ie_TenantID = wi_TenantID inp, ie_IdempotencyKey = wi_IdempotencyKey inp,
      ie_RequestHash = wi_RequestHash inp, ie_MemoryID = MemoryID record,
      ie_Response = write_result record, ie_CreatedAt = now ev, ie_ExpiresAt = None\<rparr>"

definition write_fresh ::
  "'j sdk \<Rightarrow> env \<Rightarrow> WriteRecordInput \<Rightarrow> 'j db \<Rightarrow> err + (string \<times> WriteRecordResult \<times> 'j db)" where
  "write_fresh K ev inp db =
    (let record = stamp_record ev inp in
     bindE (exec ev CInsertRecord ''memory/postgres: insert memory_record: ''
              (insert_memory_record (row_of_record record) (records db))) (\<lambda>recs.
     bindE (emit_change K ev write_site (Some (wi_IdempotencyKey inp)) eventTypeMemoryCreated record [] (created_event inp record)
              (db\<lparr>records := recs\<rparr>)) (\<lambda>db1.
     bindE (mapErr (Wrap ''memory/postgres: encode idempotency snapshot: '')
              (encodeJSON (marshal_entry K) (write_entry ev inp record))) (\<lambda>responseRaw.
     bindE (exec ev CInsertIdem ''memory/postgres: insert idempotency: ''
              (insert_idempotency
                \<lparr>mi_tenant_id = wi_TenantID inp, mi_idempotency_key = wi_IdempotencyKey inp,
                 mi_request_hash = wi_RequestHash inp, mi_memory_id = Some (MemoryID record),
                 mi_response_snapshot = responseRaw, mi_created_at = db_now ev,
                 mi_expires_at = None\<rparr> (idems db1))) (\<lambda>ids.
     Inr (''memory/postgres: commit tx: '', write_result record, db1\<lparr>idems := ids\<rparr>))))))"

definition writeTx ::
  "'j sdk \<Rightarrow> env \<Rightarrow> WriteRecordInput \<Rightarrow> 'j db \<Rightarrow> err + (string \<times> WriteRecordResult \<times> 'j db)" where
  "writeTx K ev inp db =
     bindE (lookupIdempotentWrite K ev inp db) (\<lambda>replay.
       case replay of
         Some r \<Rightarrow> Inr (''memory/postgres: commit replay tx: '', r, db)
       | None \<Rightarrow> write_fresh K ev inp db)"

definition WriteRecord ::
  "'j sdk \<Rightarrow> env \<Rightarrow> WriteRecordInput \<Rightarrow> 'j db \<Rightarrow> (err + WriteRecordResult) \<times> 'j db" where
  "WriteRecord K ev inp db =
    (if wi_TenantID inp = [] then (Inl (Plain ''memory/postgres: tenant_id is required''), db)
     else if wi_IdempotencyKey inp = [] then (Inl (Plain ''memory/postgres: idempotency_key is required''), db)
     else if wi_RequestHash inp = [] then (Inl (Plain ''memory/postgres: request_hash is required''), db)
     else run_tx ev ''memory/postgres: begin tx: '' (writeTx K ev inp) db)"

section \<open>Lemmas on emission\<close>

text \<open>What one successful emission adds: exactly one event and one outbox row, at the ends.\<close>

definition emitted :: "'j sdk \<Rightarrow> env \<Rightarrow> emit_site \<Rightarrow> string option \<Rightarrow> StoredEvent \<Rightarrow> 'j db \<Rightarrow> 'j db \<Rightarrow> bool" where
  "emitted K ev es key e db db' \<longleftrightarrow>
     (\<exists>eraw oraw. marshal_event K e = Some eraw
        \<and> marshal_outbox K (message_of (uuid ev (es_event_uuid es)) e) = Some oraw
        \<and> db' = db\<lparr>events := events db @ [event_row_of ev (uuid ev (es_event_uuid es)) key e eraw],
             outbox := outbox db @ [new_outbox_row ev (uuid ev (es_outbox_uuid es)) (se_MemoryID e)
                (se_TenantID e) (uuid ev (es_event_uuid es)) (se_EventType e) oraw]\<rparr>)"

lemma emit_Inr:
  assumes "emit K ev es key e db = Inr db'"
  shows "emitted K ev es key e db db'
    \<and> uuid ev (es_event_uuid es) \<notin> set (map me_event_id (events db))
    \<and> (se_MemoryID e, se_Version e, se_EventType e)
        \<notin> set (map (\<lambda>r. (me_memory_id r, me_version r, me_event_type r)) (events db))
    \<and> uuid ev (es_outbox_uuid es) \<notin> set (map oe_outbox_id (outbox db))"
proof -
  let ?id = "uuid ev (es_event_uuid es)"
  obtain eraw evs oraw obs where
    r: "marshal_event K e = Some eraw"
      "insert_memory_event (event_row_of ev ?id key e eraw) (events db) = Inr evs"
      "marshal_outbox K (message_of ?id e) = Some oraw"
      "insert_outbox_event (new_outbox_row ev (uuid ev (es_outbox_uuid es)) (se_MemoryID e)
         (se_TenantID e) ?id (se_EventType e) oraw) (outbox db) = Inr obs"
      "db' = db\<lparr>events := evs, outbox := obs\<rparr>"
    using assms by (auto simp: emit_def Let_def bindE_eq_Inr)
  from r(1,3,5) event_tab.ins_appends [OF r(2)] outbox_tab.ins_appends [OF r(4)]
  have "emitted K ev es key e db db'" by (simp add: emitted_def)
  then show ?thesis
    using event_tab.ins_fresh [OF r(2)] event_ver_tab.ins_fresh [OF r(2)] outbox_tab.ins_fresh [OF r(4)]
    by (simp add: event_row_of_def new_outbox_row_def)
qed

lemma emit_ok:
  assumes "marshals K" and "fault ev (es_event_call es) = None" and "fault ev (es_outbox_call es) = None"
    and "uuid ev (es_event_uuid es) \<notin> set (map me_event_id (events db))"
    and "(se_MemoryID e, se_Version e, se_EventType e)
        \<notin> set (map (\<lambda>r. (me_memory_id r, me_version r, me_event_type r)) (events db))"
    and "uuid ev (es_outbox_uuid es) \<notin> set (map oe_outbox_id (outbox db))"
  shows "\<exists>db'. emit K ev es key e db = Inr db'"
proof -
  obtain eraw where e: "marshal_event K e = Some eraw" using assms(1) by (rule marshalsE) blast
  obtain oraw where m: "marshal_outbox K (message_of (uuid ev (es_event_uuid es)) e) = Some oraw"
    using assms(1) by (rule marshalsE) blast
  show ?thesis
    using assms(2-) e m
    by (simp add: emit_def Let_def encodeJSON_ok exec_calm insert_memory_event_def event_row_of_def
        insert_outbox_event_def new_outbox_row_def)
qed

lemma emittedD:
  assumes "emitted K ev es key e db db'"
  shows "records db' = records db" "idems db' = idems db" "dedupes db' = dedupes db"
    "length (events db') = Suc (length (events db))" "length (outbox db') = Suc (length (outbox db))"
  using assms by (auto simp: emitted_def)

lemma emittedE:
  assumes "emitted K ev es key x db db'"
  obtains e ob where "events db' = events db @ [e]" and "outbox db' = outbox db @ [ob]"
    and "me_event_id e = uuid ev (es_event_uuid es)" and "me_event_type e = se_EventType x"
    and "me_memory_id e = se_MemoryID x" and "me_version e = se_Version x" and "me_tenant_id e = se_TenantID x"
    and "marshal_event K x = Some (me_payload e)"
    and "oe_outbox_id ob = uuid ev (es_outbox_uuid es)" and "oe_event_id ob = me_event_id e"
    and "oe_aggregate_id ob = se_MemoryID x" and "oe_event_type ob = se_EventType x"
    and "oe_status ob = outboxStatusPending" and "oe_attempt_count ob = 0" and "oe_claimed_by ob = None"
    and "oe_lease_expires_at ob = None" and "oe_claimed_at ob = None" and "oe_sent_at ob = None"
    and "marshal_outbox K (message_of (me_event_id e) x) = Some (oe_payload ob)"
proof -
  from assms obtain eraw oraw where "marshal_event K x = Some eraw"
    "marshal_outbox K (message_of (uuid ev (es_event_uuid es)) x) = Some oraw"
    "db' = db\<lparr>events := events db @ [event_row_of ev (uuid ev (es_event_uuid es)) key x eraw],
             outbox := outbox db @ [new_outbox_row ev (uuid ev (es_outbox_uuid es)) (se_MemoryID x)
                (se_TenantID x) (uuid ev (es_event_uuid es)) (se_EventType x) oraw]\<rparr>"
    unfolding emitted_def by blast
  then show thesis
    by (intro that [of "event_row_of ev (uuid ev (es_event_uuid es)) key x eraw"
        "new_outbox_row ev (uuid ev (es_outbox_uuid es)) (se_MemoryID x)
                (se_TenantID x) (uuid ev (es_event_uuid es)) (se_EventType x) oraw"])
      (simp_all add: event_row_of_def new_outbox_row_def)
qed

end
