(* ===== verification/StoreOps.thy ===== *)
theory StoreOps
  imports WriteRecord
begin

text \<open>
  The remaining operations of \<^verbatim>\<open>postgres/store.go\<close>: \<open>AppendEvent\<close>, \<open>LoadIdempotency\<close>,
  \<open>SaveIdempotency\<close>, \<open>EnqueueOutbox\<close> and the operator's \<open>RequeueFailed\<close> and \<open>ListFailed\<close>.
\<close>

section \<open>Events and idempotency entries\<close>

definition AppendEvent :: "'j sdk \<Rightarrow> env \<Rightarrow> StoredEvent \<Rightarrow> 'j db \<Rightarrow> (err + unit) \<times> 'j db" where
  "AppendEvent K ev event db =
    (case validateEventType (se_EventType event) of
       Inl e \<Rightarrow> (Inl e, db)
     | Inr _ \<Rightarrow>
       (case encodeJSON (marshal_event K) event of
          Inl e \<Rightarrow> (Inl (Wrap ''memory/postgres: encode event payload: '' e), db)
        | Inr raw \<Rightarrow>
          auto_stmt ev CInsertEvent ''memory/postgres: append event: ''
            (bindE (insert_memory_event
                      (event_row_of ev (uuid ev 1) (nullableString (se_IdempotencyKey event)) event raw) (events db))
               (\<lambda>evs. Inr ((), db\<lparr>events := evs\<rparr>))) db))"

definition LoadIdempotency :: "'j sdk \<Rightarrow> env \<Rightarrow> string \<Rightarrow> string \<Rightarrow> 'j db \<Rightarrow> err + IdempotencyEntry" where
  "LoadIdempotency K ev tenantID idempotencyKey db =
    (case driver ev CLookup (select_idempotency tenantID idempotencyKey (idems db)) of
       Inl e \<Rightarrow> if isNoRows e then Inl ErrNotFound else Inl (Wrap ''memory/postgres: load idempotency: '' (Pg e))
     | Inr row \<Rightarrow>
        mapErr (Wrap ''memory/postgres: decode idempotency snapshot: '')
          (decodeJSON (unmarshal_entry K) (mi_response_snapshot row)))"

definition saved_row :: "IdempotencyEntry \<Rightarrow> 'j \<Rightarrow> 'j idem_row" where
  "saved_row entry raw =
     \<lparr>mi_tenant_id = ie_TenantID entry, mi_idempotency_key = ie_IdempotencyKey entry,
      mi_request_hash = ie_RequestHash entry, mi_memory_id = nullableString (ie_MemoryID entry),
      mi_response_snapshot = raw, mi_created_at = pg_time (ie_CreatedAt entry),
      mi_expires_at = map_option pg_time (ie_ExpiresAt entry)\<rparr>"

definition SaveIdempotency :: "'j sdk \<Rightarrow> env \<Rightarrow> IdempotencyEntry \<Rightarrow> 'j db \<Rightarrow> (err + unit) \<times> 'j db" where
  "SaveIdempotency K ev entry db =
    (case encodeJSON (marshal_entry K) entry of
       Inl e \<Rightarrow> (Inl (Wrap ''memory/postgres: encode idempotency snapshot: '' e), db)
     | Inr raw \<Rightarrow>
        auto_stmt ev CInsertIdem ''memory/postgres: save idempotency: ''
          (Inr ((), db\<lparr>idems := upsert_idempotency (saved_row entry raw) (idems db)\<rparr>)) db)"

section \<open>The outbox\<close>

definition EnqueueOutbox :: "'j sdk \<Rightarrow> env \<Rightarrow> OutboxMessage \<Rightarrow> 'j db \<Rightarrow> (err + unit) \<times> 'j db" where
  "EnqueueOutbox K ev msg db =
    (case validateEventType (om_EventType msg) of
       Inl e \<Rightarrow> (Inl e, db)
     | Inr _ \<Rightarrow>
       (case encodeJSON (marshal_outbox K) msg of
          Inl e \<Rightarrow> (Inl (Wrap ''memory/postgres: encode outbox payload: '' e), db)
        | Inr raw \<Rightarrow>
          auto_stmt ev CInsertOutbox ''memory/postgres: enqueue outbox: ''
            (bindE (insert_outbox_event
                      (new_outbox_row ev (uuid ev 2) (om_MemoryID msg) (om_TenantID msg) (om_EventID msg)
                         (om_EventType msg) raw) (outbox db))
               (\<lambda>obs. Inr ((), db\<lparr>outbox := obs\<rparr>))) db))"

record RequeueResult =
  RowsAffected :: nat

record FailedOutboxRow =
  fo_OutboxID :: string
  fo_AggregateID :: string
  fo_EventType :: string
  fo_AttemptCount :: int
  fo_LastError :: string
  fo_CreatedAt :: gotime

definition requeued :: "'j outbox_row \<Rightarrow> 'j outbox_row" where
  "requeued r = r\<lparr>oe_status := outboxStatusPending, oe_attempt_count := 0, oe_last_error := None,
     oe_claimed_by := None, oe_claimed_at := None, oe_lease_expires_at := None\<rparr>"

definition RequeueFailed :: "env \<Rightarrow> string \<Rightarrow> 'j db \<Rightarrow> (err + RequeueResult) \<times> 'j db" where
  "RequeueFailed ev outboxID db =
    (let hit = (\<lambda>r. oe_outbox_id r = outboxID \<and> oe_status r = outboxStatusFailed) in
     auto_stmt ev CRequeue ''memory/postgres: requeue failed: ''
       (Inr (\<lparr>RowsAffected = count_where hit (outbox db)\<rparr>,
             db\<lparr>outbox := update_where hit requeued (outbox db)\<rparr>)) db)"

text \<open>\<open>ORDER BY created_at DESC LIMIT n\<close>; a negative limit is an error of the server.\<close>

definition failed_view :: "'j outbox_row \<Rightarrow> FailedOutboxRow" where
  "failed_view r = \<lparr>fo_OutboxID = oe_outbox_id r, fo_AggregateID = oe_aggregate_id r, fo_EventType = oe_event_type r,
     fo_AttemptCount = oe_attempt_count r, fo_LastError = derefString (oe_last_error r),
     fo_CreatedAt = oe_created_at r\<rparr>"

definition select_failed :: "env \<Rightarrow> int \<Rightarrow> 'j outbox_row list \<Rightarrow> pg_error + 'j outbox_row list" where
  "select_failed ev limit rows =
    (if limit < 0 then Inl InvalidLimit
     else Inr (take (nat limit) (order_by ev oe_outbox_id (\<lambda>r. Desc (oe_created_at r))
            (filter (\<lambda>r. oe_status r = outboxStatusFailed) rows))))"

definition ListFailed :: "env \<Rightarrow> int \<Rightarrow> 'j db \<Rightarrow> err + FailedOutboxRow list" where
  "ListFailed ev limit db =
     bindE (exec ev CList ''memory/postgres: list failed outbox: '' (select_failed ev limit (outbox db)))
       (fetch_rows ev ''memory/postgres: list failed scan: '' ''memory/postgres: list failed rows: ''
          (\<lambda>r. Inr (failed_view r)) 0)"

section \<open>Lemmas\<close>

lemma AppendEvent_Inr:
  "AppendEvent K ev e db = (Inr u, db') \<Longrightarrow>
     se_EventType e \<in> set allowedEventTypes \<and> (\<exists>raw evs. marshal_event K e = Some raw
       \<and> insert_memory_event (event_row_of ev (uuid ev 1) (nullableString (se_IdempotencyKey e)) e raw) (events db) = Inr evs
       \<and> db' = db\<lparr>events := evs\<rparr>)"
  by (auto simp: AppendEvent_def validateEventType_def auto_stmt_Inr bindE_eq_Inr split: if_splits sum.splits)

lemma EnqueueOutbox_Inr:
  "EnqueueOutbox K ev m db = (Inr u, db') \<Longrightarrow>
     om_EventType m \<in> set allowedEventTypes \<and> (\<exists>raw obs. marshal_outbox K m = Some raw
       \<and> insert_outbox_event (new_outbox_row ev (uuid ev 2) (om_MemoryID m) (om_TenantID m) (om_EventID m)
                         (om_EventType m) raw) (outbox db) = Inr obs
       \<and> db' = db\<lparr>outbox := obs\<rparr>)"
  by (auto simp: EnqueueOutbox_def validateEventType_def auto_stmt_Inr bindE_eq_Inr split: if_splits sum.splits)

text \<open>What each of them may do to the database, whatever it reports.\<close>

lemma AppendEvent_snd:
  "snd (AppendEvent K ev e db) = db \<or> (\<exists>raw evs. se_EventType e \<in> set allowedEventTypes \<and> marshal_event K e = Some raw
     \<and> insert_memory_event (event_row_of ev (uuid ev 1) (nullableString (se_IdempotencyKey e)) e raw) (events db) = Inr evs
     \<and> snd (AppendEvent K ev e db) = db\<lparr>events := evs\<rparr>)"
proof (cases "se_EventType e \<in> set allowedEventTypes \<and> marshal_event K e \<noteq> None")
  case True
  then obtain raw where raw: "marshal_event K e = Some raw" by blast
  let ?ins = "insert_memory_event (event_row_of ev (uuid ev 1) (nullableString (se_IdempotencyKey e)) e raw) (events db)"
  have "AppendEvent K ev e db = auto_stmt ev CInsertEvent ''memory/postgres: append event: ''
      (bindE ?ins (\<lambda>evs. Inr ((), db\<lparr>events := evs\<rparr>))) db"
    using True raw by (simp add: AppendEvent_def encodeJSON_ok)
  with auto_stmt_snd [of ev CInsertEvent "''memory/postgres: append event: ''"
      "bindE ?ins (\<lambda>evs. Inr ((), db\<lparr>events := evs\<rparr>))" db] True raw
  show ?thesis by (cases ?ins) auto
qed (auto simp: AppendEvent_def validateEventType_def encodeJSON_def)

lemma EnqueueOutbox_snd:
  "snd (EnqueueOutbox K ev m db) = db \<or> (\<exists>raw obs. om_EventType m \<in> set allowedEventTypes \<and> marshal_outbox K m = Some raw
     \<and> insert_outbox_event (new_outbox_row ev (uuid ev 2) (om_MemoryID m) (om_TenantID m) (om_EventID m)
                         (om_EventType m) raw) (outbox db) = Inr obs
     \<and> snd (EnqueueOutbox K ev m db) = db\<lparr>outbox := obs\<rparr>)"
proof (cases "om_EventType m \<in> set allowedEventTypes \<and> marshal_outbox K m \<noteq> None")
  case True
  then obtain raw where raw: "marshal_outbox K m = Some raw" by blast
  let ?ins = "insert_outbox_event (new_outbox_row ev (uuid ev 2) (om_MemoryID m) (om_TenantID m) (om_EventID m)
                         (om_EventType m) raw) (outbox db)"
  have "EnqueueOutbox K ev m db = auto_stmt ev CInsertOutbox ''memory/postgres: enqueue outbox: ''
      (bindE ?ins (\<lambda>obs. Inr ((), db\<lparr>outbox := obs\<rparr>))) db"
    using True raw by (simp add: EnqueueOutbox_def encodeJSON_ok)
  with auto_stmt_snd [of ev CInsertOutbox "''memory/postgres: enqueue outbox: ''"
      "bindE ?ins (\<lambda>obs. Inr ((), db\<lparr>outbox := obs\<rparr>))" db] True raw
  show ?thesis by (cases ?ins) auto
qed (auto simp: EnqueueOutbox_def validateEventType_def encodeJSON_def)

lemma SaveIdempotency_snd:
  "snd (SaveIdempotency K ev e db) = db \<or> (\<exists>raw. marshal_entry K e = Some raw
     \<and> snd (SaveIdempotency K ev e db) = db\<lparr>idems := upsert_idempotency (saved_row e raw) (idems db)\<rparr>)"
proof (cases "marshal_entry K e")
  case (Some raw)
  with auto_stmt_snd [of ev CInsertIdem "''memory/postgres: save idempotency: ''"
      "Inr ((), db\<lparr>idems := upsert_idempotency (saved_row e raw) (idems db)\<rparr>)" db]
  show ?thesis by (auto simp: SaveIdempotency_def encodeJSON_ok)
qed (simp add: SaveIdempotency_def encodeJSON_def)

lemma RequeueFailed_snd:
  "snd (RequeueFailed ev i db) = db \<or> snd (RequeueFailed ev i db) = db\<lparr>outbox :=
     update_where (\<lambda>r. oe_outbox_id r = i \<and> oe_status r = outboxStatusFailed) requeued (outbox db)\<rparr>"
  unfolding RequeueFailed_def Let_def
  by (rule disjE [OF auto_stmt_snd [of ev CRequeue "''memory/postgres: requeue failed: ''"]]) auto

end
