(* ===== verification/MutateRecord.thy ===== *)
theory MutateRecord
  imports WriteRecord
begin

text \<open>
  \<^verbatim>\<open>postgres/store.go\<close>, reads and version-checked mutations: \<open>loadRecordForUpdate\<close>, the two
  \<open>Get\<close>s, \<open>mutateRecordTx\<close> and the four operations that go through \<open>mutateRecord\<close>. The part of
  \<open>mutateRecordTx\<close> after its load is a definition of its own (\<open>mutate_loaded\<close>): the load takes no
  lock, so the database may have moved on before the rest runs.
\<close>

section \<open>Reads\<close>

definition loadRecordForUpdate ::
  "env \<Rightarrow> db_call \<Rightarrow> string \<Rightarrow> string \<Rightarrow> 'j db \<Rightarrow> err + MemoryRecord" where
  "loadRecordForUpdate ev c tenantID memoryID db =
    (case driver ev c (select_memory_record tenantID memoryID (records db)) of
       Inl e \<Rightarrow> if isNoRows e then Inl ErrNotFound else Inl (Wrap ''memory/postgres: load record: '' (Pg e))
     | Inr w \<Rightarrow> Inr (record_of_row w))"

definition GetRecord :: "env \<Rightarrow> string \<Rightarrow> string \<Rightarrow> 'j db \<Rightarrow> err + MemoryRecord" where
  "GetRecord ev tenantID memoryID db =
     bindE (loadRecordForUpdate ev CLoad tenantID memoryID db) (\<lambda>record.
       if Deleted record \<or> Disabled record then Inl ErrNotFound else Inr record)"

definition GetRecordIncludingHidden :: "env \<Rightarrow> string \<Rightarrow> string \<Rightarrow> 'j db \<Rightarrow> err + MemoryRecord" where
  "GetRecordIncludingHidden ev tenantID memoryID db = loadRecordForUpdate ev CLoad tenantID memoryID db"

section \<open>The mutation core\<close>

record mutationInput =
  mu_tenantID :: string
  mu_memoryID :: string
  mu_expectedVersion :: int
  mu_eventType :: string
  mu_apply :: "MemoryRecord \<Rightarrow> gotime \<Rightarrow> MemoryRecord"

definition mutate_site :: emit_site where
  "mutate_site = \<lparr>es_event_uuid = 1, es_outbox_uuid = 2, es_event_call = CInsertEvent,
     es_outbox_call = CInsertOutbox,
     es_encode_event = ''memory/postgres: encode mutation event: '',
     es_insert_event = ''memory/postgres: insert mutation event: '',
     es_encode_outbox = ''memory/postgres: encode mutation outbox: '',
     es_insert_outbox = ''memory/postgres: insert mutation outbox: ''\<rparr>"

definition event_of :: "string \<Rightarrow> MemoryRecord \<Rightarrow> StoredEvent" where
  "event_of ty current =
     \<lparr>se_Version = Version current, se_TenantID = TenantID current, se_MemoryID = MemoryID current,
      se_EventType = ty, se_IdempotencyKey = [], se_Record = current, se_Metadata = []\<rparr>"

definition mutate_loaded ::
  "'j sdk \<Rightarrow> env \<Rightarrow> mutationInput \<Rightarrow> MemoryRecord \<Rightarrow> 'j db \<Rightarrow> err + (MemoryRecord \<times> 'j db)" where
  "mutate_loaded K ev inp current db =
    (if Version current \<noteq> mu_expectedVersion inp then Inl ErrVersionConflict
     else
       let applied = mu_apply inp current (now ev);
           current' = applied\<lparr>Version := i64_inc (Version applied)\<rparr> in
       bindE (exec ev CUpdateRecord ''memory/postgres: update memory_record: ''
                (update_mutated current' (mu_tenantID inp) (mu_memoryID inp) (mu_expectedVersion inp) (records db)))
         (\<lambda>(affected, recs).
            if affected \<noteq> 1 then Inl ErrVersionConflict
            else bindE (emit_change K ev mutate_site None (mu_eventType inp) current' []
                          (event_of (mu_eventType inp) current') (db\<lparr>records := recs\<rparr>))
                   (\<lambda>db'. Inr (current', db'))))"

definition mutateRecordTx ::
  "'j sdk \<Rightarrow> env \<Rightarrow> mutationInput \<Rightarrow> 'j db \<Rightarrow> err + (MemoryRecord \<times> 'j db)" where
  "mutateRecordTx K ev inp db =
     bindE (loadRecordForUpdate ev CLoad (mu_tenantID inp) (mu_memoryID inp) db)
       (\<lambda>current. mutate_loaded K ev inp current db)"

definition mutateRecord ::
  "'j sdk \<Rightarrow> env \<Rightarrow> mutationInput \<Rightarrow> 'j db \<Rightarrow> (err + MemoryRecord) \<times> 'j db" where
  "mutateRecord K ev inp db =
    (case validateEventType (mu_eventType inp) of
       Inl e \<Rightarrow> (Inl e, db)
     | Inr _ \<Rightarrow>
        if mu_tenantID inp = [] \<or> mu_memoryID inp = [] then (Inl ErrNotFound, db)
        else if mu_expectedVersion inp \<le> 0 then (Inl ErrVersionConflict, db)
        else run_tx ev ''memory/postgres: begin mutation tx: ''
               (\<lambda>d. bindE (mutateRecordTx K ev inp d)
                  (\<lambda>(rec, d'). Inr (''memory/postgres: commit mutation tx: '', rec, d'))) db)"

section \<open>The four mutations\<close>

definition apply_patch :: "PatchRecordInput \<Rightarrow> MemoryRecord \<Rightarrow> gotime \<Rightarrow> MemoryRecord" where
  "apply_patch inp r t =
     r\<lparr>Content := (if pa_Content inp \<noteq> [] then pa_Content inp else Content r),
       Category := (if pa_Category inp \<noteq> [] then pa_Category inp else Category r),
       Tags := (if pa_Tags inp \<noteq> None then pa_Tags inp else Tags r),
       Importance := (if \<not> float_zero (pa_Importance inp) then pa_Importance inp else Importance r),
       UpdatedAt := t\<rparr>"

definition apply_delete :: "MemoryRecord \<Rightarrow> gotime \<Rightarrow> MemoryRecord" where
  "apply_delete r t = r\<lparr>Deleted := True, DeletedAt := Some t, UpdatedAt := t\<rparr>"

definition apply_pin :: "bool \<Rightarrow> MemoryRecord \<Rightarrow> gotime \<Rightarrow> MemoryRecord" where
  "apply_pin b r t = r\<lparr>Pinned := b, UpdatedAt := t\<rparr>"

definition apply_disable :: "bool \<Rightarrow> MemoryRecord \<Rightarrow> gotime \<Rightarrow> MemoryRecord" where
  "apply_disable b r t = r\<lparr>Disabled := b, UpdatedAt := t\<rparr>"

definition patch_mutation :: "PatchRecordInput \<Rightarrow> mutationInput" where
  "patch_mutation inp = \<lparr>mu_tenantID = pa_TenantID inp, mu_memoryID = pa_MemoryID inp,
     mu_expectedVersion = pa_ExpectedVersion inp, mu_eventType = eventTypeMemoryUpdated,
     mu_apply = apply_patch inp\<rparr>"

definition delete_mutation :: "DeleteRecordInput \<Rightarrow> mutationInput" where
  "delete_mutation inp = \<lparr>mu_tenantID = de_TenantID inp, mu_memoryID = de_MemoryID inp,
     mu_expectedVersion = de_ExpectedVersion inp, mu_eventType = eventTypeMemoryDeleted,
     mu_apply = apply_delete\<rparr>"

definition pin_mutation :: "PinRecordInput \<Rightarrow> mutationInput" where
  "pin_mutation inp = \<lparr>mu_tenantID = pn_TenantID inp, mu_memoryID = pn_MemoryID inp,
     mu_expectedVersion = pn_ExpectedVersion inp,
     mu_eventType = (if \<not> pn_Pinned inp then eventTypeMemoryUnpinned else eventTypeMemoryPinned),
     mu_apply = apply_pin (pn_Pinned inp)\<rparr>"

definition disable_mutation :: "DisableRecordInput \<Rightarrow> mutationInput" where
  "disable_mutation inp = \<lparr>mu_tenantID = di_TenantID inp, mu_memoryID = di_MemoryID inp,
     mu_expectedVersion = di_ExpectedVersion inp,
     mu_eventType = (if \<not> di_Disabled inp then eventTypeMemoryEnabled else eventTypeMemoryDisabled),
     mu_apply = apply_disable (di_Disabled inp)\<rparr>"

definition mutate_result :: "(err + MemoryRecord) \<times> 'j db \<Rightarrow> (err + MutateRecordResult) \<times> 'j db" where
  "mutate_result x = (case x of (r, db) \<Rightarrow>
     (bindE r (\<lambda>record. Inr \<lparr>rr_MemoryID = MemoryID record, rr_Version = Version record, rr_Record = record\<rparr>), db))"

definition PatchRecord ::
  "'j sdk \<Rightarrow> env \<Rightarrow> PatchRecordInput \<Rightarrow> 'j db \<Rightarrow> (err + MutateRecordResult) \<times> 'j db" where
  "PatchRecord K ev inp db = mutate_result (mutateRecord K ev (patch_mutation inp) db)"

definition DeleteRecord ::
  "'j sdk \<Rightarrow> env \<Rightarrow> DeleteRecordInput \<Rightarrow> 'j db \<Rightarrow> (err + MutateRecordResult) \<times> 'j db" where
  "DeleteRecord K ev inp db = mutate_result (mutateRecord K ev (delete_mutation inp) db)"

definition PinRecord ::
  "'j sdk \<Rightarrow> env \<Rightarrow> PinRecordInput \<Rightarrow> 'j db \<Rightarrow> (err + MutateRecordResult) \<times> 'j db" where
  "PinRecord K ev inp db = mutate_result (mutateRecord K ev (pin_mutation inp) db)"

definition DisableRecord ::
  "'j sdk \<Rightarrow> env \<Rightarrow> DisableRecordInput \<Rightarrow> 'j db \<Rightarrow> (err + MutateRecordResult) \<times> 'j db" where
  "DisableRecord K ev inp db = mutate_result (mutateRecord K ev (disable_mutation inp) db)"

lemma mutation_input_simps [simp]:
  "mu_tenantID (patch_mutation p) = pa_TenantID p" "mu_memoryID (patch_mutation p) = pa_MemoryID p"
  "mu_expectedVersion (patch_mutation p) = pa_ExpectedVersion p"
  "mu_eventType (patch_mutation p) = eventTypeMemoryUpdated" "mu_apply (patch_mutation p) = apply_patch p"
  "mu_tenantID (delete_mutation d) = de_TenantID d" "mu_memoryID (delete_mutation d) = de_MemoryID d"
  "mu_expectedVersion (delete_mutation d) = de_ExpectedVersion d"
  "mu_eventType (delete_mutation d) = eventTypeMemoryDeleted" "mu_apply (delete_mutation d) = apply_delete"
  "mu_tenantID (pin_mutation n) = pn_TenantID n" "mu_memoryID (pin_mutation n) = pn_MemoryID n"
  "mu_expectedVersion (pin_mutation n) = pn_ExpectedVersion n"
  "mu_apply (pin_mutation n) = apply_pin (pn_Pinned n)"
  "mu_tenantID (disable_mutation i) = di_TenantID i" "mu_memoryID (disable_mutation i) = di_MemoryID i"
  "mu_expectedVersion (disable_mutation i) = di_ExpectedVersion i"
  "mu_apply (disable_mutation i) = apply_disable (di_Disabled i)"
  by (simp_all add: patch_mutation_def delete_mutation_def pin_mutation_def disable_mutation_def)

lemma event_of_simps [simp]:
  "se_MemoryID (event_of ty r) = MemoryID r" "se_TenantID (event_of ty r) = TenantID r"
  "se_Version (event_of ty r) = Version r" "se_EventType (event_of ty r) = ty"
  "se_Record (event_of ty r) = r" "se_Metadata (event_of ty r) = []"
  by (simp_all add: event_of_def)

section \<open>Lemmas on the core\<close>

lemma load_Inr:
  "loadRecordForUpdate ev c t m db = Inr r \<longleftrightarrow>
     fault ev c = None \<and> (\<exists>w. select_memory_record t m (records db) = Inr w \<and> r = record_of_row w)"
  by (auto simp: loadRecordForUpdate_def driver_def split: option.splits sum.splits)

lemma load_calm:
  "fault ev c = None \<Longrightarrow> loadRecordForUpdate ev c t m db =
     (case select_memory_record t m (records db) of Inl _ \<Rightarrow> Inl ErrNotFound | Inr w \<Rightarrow> Inr (record_of_row w))"
  by (auto simp: loadRecordForUpdate_def driver_def isNoRows_def dest: select_memory_record_Inl split: sum.splits)

lemma load_sees_records:
  "records db' = records db \<Longrightarrow> loadRecordForUpdate ev c t m db' = loadRecordForUpdate ev c t m db"
  by (simp add: loadRecordForUpdate_def)

text \<open>Everything a successful mutation did, whatever it applies.\<close>

definition mutated_to :: "env \<Rightarrow> mutationInput \<Rightarrow> MemoryRecord \<Rightarrow> MemoryRecord" where
  "mutated_to ev inp current =
     (mu_apply inp current (now ev))\<lparr>Version := i64_inc (Version (mu_apply inp current (now ev)))\<rparr>"

lemma mutate_loaded_Inr:
  assumes "mutate_loaded K ev inp current db = Inr (rec, db')"
  obtains recs where "Version current = mu_expectedVersion inp" and "rec = mutated_to ev inp current"
    and "update_mutated rec (mu_tenantID inp) (mu_memoryID inp) (mu_expectedVersion inp) (records db) = Inr (1, recs)"
    and "emit K ev mutate_site None (event_of (mu_eventType inp) rec) (db\<lparr>records := recs\<rparr>) = Inr db'"
    and "records db' = recs"
proof -
  obtain recs where r: "Version current = mu_expectedVersion inp" "rec = mutated_to ev inp current"
      "update_mutated rec (mu_tenantID inp) (mu_memoryID inp) (mu_expectedVersion inp) (records db) = Inr (1, recs)"
      "emit K ev mutate_site None (event_of (mu_eventType inp) rec) (db\<lparr>records := recs\<rparr>) = Inr db'"
    using assms by (auto simp: mutate_loaded_def mutated_to_def Let_def bindE_eq_Inr split: if_splits prod.splits)
  moreover have "records db' = recs" using emittedD(1) [OF conjunct1 [OF emit_Inr [OF r(4)]]] by simp
  ultimately show thesis by (rule that)
qed

lemma mutateRecordTx_Inr:
  "mutateRecordTx K ev inp db = Inr x \<longleftrightarrow>
     (\<exists>w. fault ev CLoad = None \<and> select_memory_record (mu_tenantID inp) (mu_memoryID inp) (records db) = Inr w
       \<and> mutate_loaded K ev inp (record_of_row w) db = Inr x)"
  by (auto simp: mutateRecordTx_def bindE_eq_Inr load_Inr)

lemma mutateRecord_Inr:
  assumes "mutateRecord K ev inp db = (Inr rec, db')"
  shows "mutateRecordTx K ev inp db = Inr (rec, db')" "mu_eventType inp \<in> set allowedEventTypes"
    "mu_tenantID inp \<noteq> []" "mu_memoryID inp \<noteq> []" "0 < mu_expectedVersion inp"
  using assms by (auto simp: mutateRecord_def validateEventType_def run_tx_Inr bindE_eq_Inr
      split: if_splits sum.splits)

lemma mutate_result_Inr:
  "mutate_result x = (Inr r, db') \<longleftrightarrow> (\<exists>rec. x = (Inr rec, db')
     \<and> r = \<lparr>rr_MemoryID = MemoryID rec, rr_Version = Version rec, rr_Record = rec\<rparr>)"
  by (cases x) (auto simp: mutate_result_def bindE_eq_Inr)

text \<open>When the body of the transaction cannot succeed, the call reports an error and changes nothing.\<close>

lemma mutateRecord_no_tx:
  assumes "\<And>x. mutateRecordTx K ev inp db \<noteq> Inr x"
  shows "\<exists>e. mutateRecord K ev inp db = (Inl e, db)"
  using assms by (cases "mutateRecordTx K ev inp db")
    (auto simp: mutateRecord_def validateEventType_def run_tx_def split: option.split)

end
