(* ===== verification/Durable.thy ===== *)
theory Durable
  imports MutateRecord
begin

text \<open>
  \<^verbatim>\<open>postgres/durable_ops.go\<close>: \<open>MarkAccess\<close>, \<open>Promote\<close>, \<open>ResolveDedupe\<close> and
  \<open>ListSessionWorking\<close>.
\<close>

section \<open>\<open>MarkAccess\<close>\<close>

text \<open>The loop that drops repeated identifiers; \<open>seen\<close> is its map.\<close>

fun unique_ids :: "string list \<Rightarrow> string list \<Rightarrow> string list" where
  "unique_ids seen [] = []"
| "unique_ids seen (i # ids) =
     (if i \<notin> set seen then i # unique_ids (i # seen) ids else unique_ids seen ids)"

definition MarkAccess :: "env \<Rightarrow> MarkAccessInput \<Rightarrow> 'j db \<Rightarrow> (err + unit) \<times> 'j db" where
  "MarkAccess ev inp db =
    (if length (ma_MemoryIDs inp) = 0 then (Inr (), db)
     else auto_stmt ev CMark ''memory/postgres: mark access: ''
            (bindE (update_access (ma_AccessedAt inp) (ma_TenantID inp) (unique_ids [] (ma_MemoryIDs inp)) (records db))
               (\<lambda>recs. Inr ((), db\<lparr>records := recs\<rparr>))) db)"

section \<open>\<open>Promote\<close>\<close>

definition promote_hash :: "PromoteRecordInput \<Rightarrow> string" where
  "promote_hash inp =
     ''promote:'' @ pr_MemoryID inp @ '':'' @ pr_SourceEventID inp @ '':'' @ go_itoa (pr_ExpectedVersion inp)"

definition promote_site :: emit_site where
  "promote_site = \<lparr>es_event_uuid = 1, es_outbox_uuid = 2, es_event_call = CInsertEvent,
     es_outbox_call = CInsertOutbox,
     es_encode_event = ''memory/postgres: encode promote event: '',
     es_insert_event = ''memory/postgres: insert promote event: '',
     es_encode_outbox = ''memory/postgres: encode promote outbox: '',
     es_insert_outbox = ''memory/postgres: insert promote outbox: ''\<rparr>"

definition promote_result :: "bool \<Rightarrow> WriteRecordResult \<Rightarrow> PromoteRecordResult" where
  "promote_result created r =
     \<lparr>rr_MemoryID = wr_MemoryID r, rr_Version = wr_Version r, rr_Record = wr_Record r, rr_Created = created\<rparr>"

definition promote_lookup ::
  "'j sdk \<Rightarrow> env \<Rightarrow> PromoteRecordInput \<Rightarrow> 'j db \<Rightarrow> err + PromoteRecordResult option" where
  "promote_lookup K ev inp db =
    (if pr_IdempotencyKey inp = [] then Inr None
     else case driver ev CLookup (select_idempotency (pr_TenantID inp) (pr_IdempotencyKey inp) (idems db)) of
       Inl e \<Rightarrow> if \<not> isNoRows e then Inl (Wrap ''memory/postgres: read promote idempotency: '' (Pg e)) else Inr None
     | Inr row \<Rightarrow>
        if mi_request_hash row \<noteq> promote_hash inp then Inl ErrIdempotencyConflict
        else bindE (mapErr (Wrap ''memory/postgres: decode promote idempotency snapshot: '')
                 (decodeJSON (unmarshal_entry K) (mi_response_snapshot row)))
               (\<lambda>snap. Inr (Some (promote_result False (ie_Response snap)))))"

definition promote_save ::
  "'j sdk \<Rightarrow> env \<Rightarrow> PromoteRecordInput \<Rightarrow> MemoryRecord \<Rightarrow> 'j db \<Rightarrow> err + 'j db" where
  "promote_save K ev inp current db =
    (if pr_IdempotencyKey inp = [] then Inr db
     else
       let writeResult = \<lparr>wr_MemoryID = MemoryID current, wr_Version = Version current, wr_Created = True,
             wr_Record = current\<rparr> in
       bindE (mapErr (Wrap ''memory/postgres: encode promote idempotency snapshot: '')
                (encodeJSON (marshal_entry K)
                   \<lparr>ie_TenantID = pr_TenantID inp, ie_IdempotencyKey = pr_IdempotencyKey inp,
                    ie_RequestHash = promote_hash inp, ie_MemoryID = MemoryID current,
                    ie_Response = writeResult, ie_CreatedAt = now ev, ie_ExpiresAt = None\<rparr>)) (\<lambda>snapRaw.
       bindE (exec ev CInsertIdem ''memory/postgres: insert promote idempotency: ''
                (insert_idempotency
                   \<lparr>mi_tenant_id = pr_TenantID inp, mi_idempotency_key = pr_IdempotencyKey inp,
                    mi_request_hash = promote_hash inp, mi_memory_id = Some (MemoryID current),
                    mi_response_snapshot = snapRaw, mi_created_at = db_now ev, mi_expires_at = None\<rparr>
                   (idems db))) (\<lambda>ids.
       Inr (db\<lparr>idems := ids\<rparr>))))"

definition promoted_record :: "'j sdk \<Rightarrow> env \<Rightarrow> PromoteRecordInput \<Rightarrow> MemoryRecord \<Rightarrow> MemoryRecord" where
  "promoted_record K ev inp current =
     current\<lparr>Kind := RecordKindEpisodic K, ConsolidatedFromEventID := pr_SourceEventID inp,
       UpdatedAt := now ev, Version := i64_inc (Version current)\<rparr>"

text \<open>The part after the load, which takes no lock.\<close>

definition promote_loaded ::
  "'j sdk \<Rightarrow> env \<Rightarrow> PromoteRecordInput \<Rightarrow> MemoryRecord \<Rightarrow> 'j db \<Rightarrow> err + (string \<times> PromoteRecordResult \<times> 'j db)" where
  "promote_loaded K ev inp current db =
    (if pr_ExpectedVersion inp \<le> 0 \<or> Version current \<noteq> pr_ExpectedVersion inp then Inl ErrVersionConflict
     else
       let oldVersion = Version current; current' = promoted_record K ev inp current in
       bindE (exec ev CUpdateRecord ''memory/postgres: update promote record: ''
                (update_promoted current' (pr_TenantID inp) (pr_MemoryID inp) oldVersion (records db)))
         (\<lambda>(affected, recs).
            if affected \<noteq> 1 then Inl ErrVersionConflict
            else
              bindE (emit_change K ev promote_site None eventTypeMemoryPromoted current' []
                       (event_of eventTypeMemoryPromoted current') (db\<lparr>records := recs\<rparr>)) (\<lambda>db1.
              bindE (promote_save K ev inp current' db1) (\<lambda>db2.
              Inr (''memory/postgres: commit promote tx: '',
                   \<lparr>rr_MemoryID = MemoryID current', rr_Version = Version current', rr_Record = current',
                    rr_Created = True\<rparr>, db2)))))"

definition promoteTx ::
  "'j sdk \<Rightarrow> env \<Rightarrow> PromoteRecordInput \<Rightarrow> 'j db \<Rightarrow> err + (string \<times> PromoteRecordResult \<times> 'j db)" where
  "promoteTx K ev inp db =
     bindE (promote_lookup K ev inp db) (\<lambda>replay.
       case replay of
         Some r \<Rightarrow> Inr (''memory/postgres: commit promote replay tx: '', r, db)
       | None \<Rightarrow>
           bindE (loadRecordForUpdate ev CLoad (pr_TenantID inp) (pr_MemoryID inp) db)
             (\<lambda>current. promote_loaded K ev inp current db))"

definition Promote ::
  "'j sdk \<Rightarrow> env \<Rightarrow> PromoteRecordInput \<Rightarrow> 'j db \<Rightarrow> (err + PromoteRecordResult) \<times> 'j db" where
  "Promote K ev inp db =
    (if pr_TenantID inp = [] \<or> pr_MemoryID inp = [] then (Inl ErrNotFound, db)
     else run_tx ev ''memory/postgres: begin promote tx: '' (promoteTx K ev inp) db)"

section \<open>\<open>ResolveDedupe\<close>\<close>

definition collapse_site :: emit_site where
  "collapse_site = \<lparr>es_event_uuid = 3, es_outbox_uuid = 4, es_event_call = CInsertCollapseEvent,
     es_outbox_call = CInsertCollapseOutbox,
     es_encode_event = ''memory/postgres: encode dedupe collapse event: '',
     es_insert_event = ''memory/postgres: insert dedupe collapse event: '',
     es_encode_outbox = ''memory/postgres: encode dedupe collapse outbox: '',
     es_insert_outbox = ''memory/postgres: insert dedupe collapse outbox: ''\<rparr>"

definition loser_mutation :: "ResolveDedupeInput \<Rightarrow> mutationInput" where
  "loser_mutation inp = \<lparr>mu_tenantID = rd_TenantID inp, mu_memoryID = MemoryID (rd_Candidate inp),
     mu_expectedVersion = Version (rd_Candidate inp), mu_eventType = eventTypeMemoryDeleted,
     mu_apply = apply_delete\<rparr>"

definition collapse_event :: "'j sdk \<Rightarrow> ResolveDedupeInput \<Rightarrow> MemoryRecord \<Rightarrow> StoredEvent" where
  "collapse_event K inp winner =
     (event_of eventTypeMemoryDedupeCollapsed winner)
       \<lparr>se_Metadata := [(DedupeCollapsedLoserIDMetadataKey K, MemoryID (rd_Candidate inp))]\<rparr>"

definition dedupe_collide ::
  "'j sdk \<Rightarrow> env \<Rightarrow> ResolveDedupeInput \<Rightarrow> string \<Rightarrow> 'j db \<Rightarrow> err + (string \<times> ResolveDedupeResult \<times> 'j db)" where
  "dedupe_collide K ev inp winnerID db =
     bindE (mapErr (Wrap ''memory/postgres: dedupe delete loser: '') (mutateRecordTx K ev (loser_mutation inp) db))
       (\<lambda>(_, db1).
     bindE (mapErr (Wrap ''memory/postgres: load dedupe winner: '')
              (loadRecordForUpdate ev CLoadWinner (rd_TenantID inp) winnerID db1)) (\<lambda>winner.
     bindE (emit_change K ev collapse_site None eventTypeMemoryDedupeCollapsed winner
              [(DedupeCollapsedLoserIDMetadataKey K, MemoryID (rd_Candidate inp))] (collapse_event K inp winner) db1) (\<lambda>db2.
     Inr (''memory/postgres: commit dedupe collision tx: '',
          \<lparr>dr_WinnerID = winnerID, dr_Action = (if Pinned winner then DedupeCollapsedByPin else DedupeMergedExisting)\<rparr>,
          db2))))"

definition dedupeTx ::
  "'j sdk \<Rightarrow> env \<Rightarrow> ResolveDedupeInput \<Rightarrow> 'j db \<Rightarrow> err + (string \<times> ResolveDedupeResult \<times> 'j db)" where
  "dedupeTx K ev inp db =
    (case driver ev CClaimDedupe
            (claim_dedupe \<lparr>dd_tenant_id = rd_TenantID inp, dd_dedupe_key = rd_DedupeKey inp,
                dd_winner_memory_id = MemoryID (rd_Candidate inp), dd_created_at = db_now ev\<rparr> (dedupes db)) of
       Inr (_, dds) \<Rightarrow>
         Inr (''memory/postgres: commit dedupe first-writer tx: '',
              \<lparr>dr_WinnerID = MemoryID (rd_Candidate inp), dr_Action = DedupeNoCollision\<rparr>, db\<lparr>dedupes := dds\<rparr>)
     | Inl e \<Rightarrow>
         if \<not> isNoRows e then Inl (Wrap ''memory/postgres: claim dedupe index: '' (Pg e))
         else bindE (exec ev CSelectDedupe ''memory/postgres: query dedupe index: ''
                 (select_dedupe (rd_TenantID inp) (rd_DedupeKey inp) (dedupes db)))
               (\<lambda>winnerID. dedupe_collide K ev inp winnerID db))"

definition ResolveDedupe ::
  "'j sdk \<Rightarrow> env \<Rightarrow> ResolveDedupeInput \<Rightarrow> 'j db \<Rightarrow> (err + ResolveDedupeResult) \<times> 'j db" where
  "ResolveDedupe K ev inp db = run_tx ev ''memory/postgres: begin dedupe tx: '' (dedupeTx K ev inp) db"

section \<open>\<open>ListSessionWorking\<close>\<close>

record SessionWorkingRecord =
  sw_Record :: MemoryRecord
  sw_LatestEventID :: string

text \<open>\<open>ORDER BY version DESC, created_at DESC LIMIT 1\<close>, and rows by \<open>created_at DESC\<close>.\<close>

definition latest_event :: "env \<Rightarrow> string \<Rightarrow> 'j event_row list \<Rightarrow> string option" where
  "latest_event ev m evs =
    (case order_by ev me_event_id (\<lambda>e. (Desc (me_version e), Desc (me_created_at e)))
            (filter (\<lambda>e. me_memory_id e = m) evs) of
       [] \<Rightarrow> None | e # _ \<Rightarrow> Some (me_event_id e))"

definition in_session :: "'j sdk \<Rightarrow> string \<Rightarrow> string \<Rightarrow> string \<Rightarrow> string \<Rightarrow> record_row \<Rightarrow> bool" where
  "in_session K tenantID userID projectID sessionID r \<longleftrightarrow>
     mr_tenant_id r = tenantID \<and> mr_user_id r = userID \<and> mr_project_id r = Some projectID
     \<and> mr_session_id r = Some sessionID \<and> mr_kind r = RecordKindWorking K
     \<and> mr_deleted r = False \<and> mr_disabled r = False"

text \<open>The \<open>Scan\<close> of a joined row.\<close>

definition working_view :: "env \<Rightarrow> 'j db \<Rightarrow> record_row \<Rightarrow> SessionWorkingRecord" where
  "working_view ev db r = \<lparr>sw_Record = record_of_row r,
     sw_LatestEventID = derefString (latest_event ev (mr_memory_id r) (events db))\<rparr>"

definition ListSessionWorking ::
  "'j sdk \<Rightarrow> env \<Rightarrow> string \<Rightarrow> string \<Rightarrow> string \<Rightarrow> string \<Rightarrow> 'j db \<Rightarrow> err + SessionWorkingRecord list" where
  "ListSessionWorking K ev tenantID userID projectID sessionID db =
     bindE (exec ev CList ''memory/postgres: list session working: ''
              (Inr (order_by ev mr_memory_id (\<lambda>r. Desc (mr_created_at r))
                 (filter (in_session K tenantID userID projectID sessionID) (records db)))))
       (fetch_rows ev ''memory/postgres: list session working scan: '' ''memory/postgres: list session working rows: ''
          (\<lambda>r. Inr (working_view ev db r)) 0)"

section \<open>Lemmas\<close>

lemma unique_ids: "set (unique_ids seen ids) = set ids - set seen \<and> distinct (unique_ids seen ids)"
  by (induction seen ids rule: unique_ids.induct) auto

lemma promoted_record_simps [simp]:
  "MemoryID (promoted_record K ev inp r) = MemoryID r" "TenantID (promoted_record K ev inp r) = TenantID r"
  "Version (promoted_record K ev inp r) = i64_inc (Version r)" "Kind (promoted_record K ev inp r) = RecordKindEpisodic K"
  "UpdatedAt (promoted_record K ev inp r) = now ev"
  "ConsolidatedFromEventID (promoted_record K ev inp r) = pr_SourceEventID inp"
  by (simp_all add: promoted_record_def)

lemma collapse_event_simps [simp]:
  "se_MemoryID (collapse_event K inp w) = MemoryID w" "se_TenantID (collapse_event K inp w) = TenantID w"
  "se_Version (collapse_event K inp w) = Version w"
  "se_EventType (collapse_event K inp w) = eventTypeMemoryDedupeCollapsed"
  "se_Record (collapse_event K inp w) = w"
  "se_Metadata (collapse_event K inp w) = [(DedupeCollapsedLoserIDMetadataKey K, MemoryID (rd_Candidate inp))]"
  by (simp_all add: collapse_event_def)

lemma promote_save_Inr:
  assumes "promote_save K ev inp current db = Inr db'"
  shows "records db' = records db \<and> events db' = events db \<and> outbox db' = outbox db \<and> dedupes db' = dedupes db
    \<and> (if pr_IdempotencyKey inp = [] then idems db' = idems db
       else (pr_TenantID inp, pr_IdempotencyKey inp) \<notin> set (map idem_key (idems db))
         \<and> (\<exists>raw entry. marshal_entry K entry = Some raw
          \<and> ie_Response entry = \<lparr>wr_MemoryID = MemoryID current, wr_Version = Version current, wr_Created = True,
                 wr_Record = current\<rparr>
          \<and> ie_TenantID entry = pr_TenantID inp \<and> ie_IdempotencyKey entry = pr_IdempotencyKey inp
          \<and> ie_RequestHash entry = promote_hash inp
          \<and> idems db' = idems db @ [\<lparr>mi_tenant_id = pr_TenantID inp, mi_idempotency_key = pr_IdempotencyKey inp,
                    mi_request_hash = promote_hash inp, mi_memory_id = Some (MemoryID current),
                    mi_response_snapshot = raw, mi_created_at = db_now ev, mi_expires_at = None\<rparr>]))"
proof (cases "pr_IdempotencyKey inp = []")
  case True
  with assms show ?thesis by (simp add: promote_save_def)
next
  case False
  with assms obtain raw entry ids where
    "marshal_entry K entry = Some raw"
    "ie_Response entry = \<lparr>wr_MemoryID = MemoryID current, wr_Version = Version current, wr_Created = True,
                 wr_Record = current\<rparr>"
    "ie_TenantID entry = pr_TenantID inp" "ie_IdempotencyKey entry = pr_IdempotencyKey inp" "ie_RequestHash entry = promote_hash inp"
    and i: "insert_idempotency \<lparr>mi_tenant_id = pr_TenantID inp, mi_idempotency_key = pr_IdempotencyKey inp,
                    mi_request_hash = promote_hash inp, mi_memory_id = Some (MemoryID current),
                    mi_response_snapshot = raw, mi_created_at = db_now ev, mi_expires_at = None\<rparr> (idems db) = Inr ids"
      "db' = db\<lparr>idems := ids\<rparr>"
    by (auto simp: promote_save_def Let_def bindE_eq_Inr)
  with False idem_tab.ins_appends [OF i(1)] idem_tab.ins_fresh [OF i(1)] show ?thesis
    by (auto simp: idem_key_def)
qed

lemma promote_loaded_Inr:
  assumes "promote_loaded K ev inp current db = Inr (l, r, db')"
  obtains recs db1 where "0 < pr_ExpectedVersion inp" and "Version current = pr_ExpectedVersion inp"
    and "update_promoted (promoted_record K ev inp current) (pr_TenantID inp) (pr_MemoryID inp)
           (pr_ExpectedVersion inp) (records db) = Inr (1, recs)"
    and "emit K ev promote_site None (event_of eventTypeMemoryPromoted (promoted_record K ev inp current))
           (db\<lparr>records := recs\<rparr>) = Inr db1"
    and "promote_save K ev inp (promoted_record K ev inp current) db1 = Inr db'"
    and "r = \<lparr>rr_MemoryID = MemoryID current, rr_Version = i64_inc (Version current),
              rr_Record = promoted_record K ev inp current, rr_Created = True\<rparr>"
    and "records db' = recs"
proof -
  obtain recs db1 where r: "0 < pr_ExpectedVersion inp" "Version current = pr_ExpectedVersion inp"
      "update_promoted (promoted_record K ev inp current) (pr_TenantID inp) (pr_MemoryID inp)
           (pr_ExpectedVersion inp) (records db) = Inr (1, recs)"
      "emit K ev promote_site None (event_of eventTypeMemoryPromoted (promoted_record K ev inp current))
           (db\<lparr>records := recs\<rparr>) = Inr db1"
      "promote_save K ev inp (promoted_record K ev inp current) db1 = Inr db'"
      "r = \<lparr>rr_MemoryID = MemoryID current, rr_Version = i64_inc (Version current),
              rr_Record = promoted_record K ev inp current, rr_Created = True\<rparr>"
    using assms by (auto simp: promote_loaded_def Let_def bindE_eq_Inr split: if_splits prod.splits)
  moreover have "records db' = recs"
    using promote_save_Inr [OF r(5)] emittedD(1) [OF conjunct1 [OF emit_Inr [OF r(4)]]] by simp
  ultimately show thesis by (rule that)
qed

lemma promoteTx_Inr:
  "promoteTx K ev inp db = Inr x \<longleftrightarrow>
     (\<exists>r. promote_lookup K ev inp db = Inr (Some r) \<and> x = (''memory/postgres: commit promote replay tx: '', r, db))
   \<or> (promote_lookup K ev inp db = Inr None \<and> fault ev CLoad = None
      \<and> (\<exists>w. select_memory_record (pr_TenantID inp) (pr_MemoryID inp) (records db) = Inr w
           \<and> promote_loaded K ev inp (record_of_row w) db = Inr x))"
  by (auto simp: promoteTx_def bindE_eq_Inr load_Inr split: option.splits)

lemma dedupeTx_Inr:
  "dedupeTx K ev inp db = Inr x \<longleftrightarrow>
     fault ev CClaimDedupe = None \<and>
     ((rd_TenantID inp, rd_DedupeKey inp) \<notin> set (map dedupe_key (dedupes db))
       \<and> x = (''memory/postgres: commit dedupe first-writer tx: '',
              \<lparr>dr_WinnerID = MemoryID (rd_Candidate inp), dr_Action = DedupeNoCollision\<rparr>,
              db\<lparr>dedupes := dedupes db @ [\<lparr>dd_tenant_id = rd_TenantID inp, dd_dedupe_key = rd_DedupeKey inp,
                dd_winner_memory_id = MemoryID (rd_Candidate inp), dd_created_at = db_now ev\<rparr>]\<rparr>)
    \<or> (rd_TenantID inp, rd_DedupeKey inp) \<in> set (map dedupe_key (dedupes db)) \<and> fault ev CSelectDedupe = None
       \<and> (\<exists>w. select_dedupe (rd_TenantID inp) (rd_DedupeKey inp) (dedupes db) = Inr w
           \<and> dedupe_collide K ev inp w db = Inr x))"
  by (auto simp: dedupeTx_def driver_def claim_dedupe_def dedupe_key_def isNoRows_def bindE_eq_Inr
      split: option.splits)

lemma dedupe_collide_Inr:
  "dedupe_collide K ev inp w db = Inr (l, r, db') \<longleftrightarrow>
     (\<exists>rec db1 winner. mutateRecordTx K ev (loser_mutation inp) db = Inr (rec, db1)
       \<and> loadRecordForUpdate ev CLoadWinner (rd_TenantID inp) w db1 = Inr winner
       \<and> emit K ev collapse_site None (collapse_event K inp winner) db1 = Inr db'
       \<and> l = ''memory/postgres: commit dedupe collision tx: ''
       \<and> r = \<lparr>dr_WinnerID = w, dr_Action = (if Pinned winner then DedupeCollapsedByPin else DedupeMergedExisting)\<rparr>)"
  by (auto simp: dedupe_collide_def bindE_eq_Inr)

end
