(* ===== verification/Samples.thy ===== *)
theory Samples
  imports Tables
begin

text \<open>
  Concrete inputs at which the witnesses apply the properties: a JSON form that keeps the
  documents themselves, a calm environment, and a record.
\<close>

datatype doc = DocEvent StoredEvent | DocOutbox OutboxMessage | DocEntry IdempotencyEntry

definition doc_sdk :: "doc sdk" where
  "doc_sdk =
     \<lparr>RecordKindEpisodic = ''episodic'', RecordKindWorking = ''working'',
      DedupeCollapsedLoserIDMetadataKey = ''loser_id'',
      marshal_event = (\<lambda>e. Some (DocEvent e)), marshal_outbox = (\<lambda>m. Some (DocOutbox m)),
      marshal_entry = (\<lambda>i. Some (DocEntry i)),
      unmarshal_outbox = (\<lambda>j. case j of DocOutbox m \<Rightarrow> Some m | _ \<Rightarrow> None),
      unmarshal_entry = (\<lambda>j. case j of DocEntry i \<Rightarrow> Some i | _ \<Rightarrow> None)\<rparr>"

lemma doc_sdk_ok: "sdk_ok doc_sdk" and doc_sdk_marshals: "marshals doc_sdk"
  by (simp_all add: sdk_ok_def marshals_def doc_sdk_def)

text \<open>An environment in which nothing fails: \<open>s\<close> makes its identifiers differ from those of
  another call.\<close>

definition calm_env :: "string \<Rightarrow> gotime \<Rightarrow> env" where
  "calm_env s t = \<lparr>now = t, db_now = pg_time t,
     uuid = (\<lambda>n. if n = 0 then ''m'' @ s else if n = 1 then ''e'' @ s else if n = 2 then ''o'' @ s
       else if n = 3 then ''f'' @ s else ''p'' @ s),
     scan_rank = (\<lambda>_. 0), fault = (\<lambda>_. None), commit = Committed\<rparr>"

definition sample_record :: MemoryRecord where
  "sample_record =
     \<lparr>MemoryID = '''', TenantID = '''', UserID = ''user_a'', ProjectID = '''', SessionID = ''s1'',
      Kind = ''working'', Source = ''user_saved'', Category = ''project'', Content = ''note'',
      NormalizedContentHash = ''h'', Tags = None, Importance = Fin (1/2), Pinned = False,
      Disabled = False, Deleted = False, Version = 0, CreatedAt = go_zero_time,
      UpdatedAt = go_zero_time, DeletedAt = None, LastAccessAt = None, HitCount = 0,
      ConsolidatedFromEventID = ''''\<rparr>"

definition sample_write :: WriteRecordInput where
  "sample_write = \<lparr>wi_TenantID = ''ta'', wi_IdempotencyKey = ''k1'', wi_RequestHash = ''h1'',
     wi_Record = sample_record\<rparr>"

lemmas sample_defs = doc_sdk_def calm_env_def sample_record_def sample_write_def empty_db_def

lemma calm_env_simps [simp]:
  "fault (calm_env s t) c = None" "commit (calm_env s t) = Committed"
  "scan_rank (calm_env s t) i = 0" "now (calm_env s t) = t" "db_now (calm_env s t) = pg_time t"
  by (simp_all add: calm_env_def)

lemma empty_db_simps [simp]:
  "records empty_db = []" "events empty_db = []" "outbox empty_db = []" "idems empty_db = []"
  "dedupes empty_db = []"
  by (simp_all add: empty_db_def)

definition sample_message :: "string \<Rightarrow> OutboxMessage" where
  "sample_message i = \<lparr>om_Version = 1, om_TenantID = ''ta'', om_MemoryID = i, om_EventType = ''memory_created'',
     om_EventID = i, om_Record = sample_record, om_Metadata = []\<rparr>"

end
