(* ===== verification/WriteProps.thy ===== *)
theory WriteProps
  imports MutateRecord Samples
begin

text \<open>
  Properties of the write path: what a first write adds, that retries replay it (exactly once,
  even when the answer to a commit is lost), how a reused key with another request is refused,
  atomicity, and what a race between two first writes of one key reports.
\<close>

section \<open>A first write\<close>

definition write_idem_row :: "env \<Rightarrow> WriteRecordInput \<Rightarrow> 'j \<Rightarrow> 'j idem_row" where
  "write_idem_row ev inp raw =
     \<lparr>mi_tenant_id = wi_TenantID inp, mi_idempotency_key = wi_IdempotencyKey inp,
      mi_request_hash = wi_RequestHash inp, mi_memory_id = Some (MemoryID (stamp_record ev inp)),
      mi_response_snapshot = raw, mi_created_at = db_now ev, mi_expires_at = None\<rparr>"

lemma stamp_record_simps [simp]:
  "TenantID (stamp_record ev inp) = wi_TenantID inp"
  "Version (stamp_record ev inp) = 1"
  "UpdatedAt (stamp_record ev inp) = now ev"
  "Kind (stamp_record ev inp) = Kind (wi_Record inp)"
  "Source (stamp_record ev inp) = Source (wi_Record inp)"
  "Importance (stamp_record ev inp) = Importance (wi_Record inp)"
  "Tags (stamp_record ev inp) = Tags (wi_Record inp)"
  "Deleted (stamp_record ev inp) = Deleted (wi_Record inp)"
  "Disabled (stamp_record ev inp) = Disabled (wi_Record inp)"
  "MemoryID (stamp_record ev inp) = (if MemoryID (wi_Record inp) = [] then uuid ev 0 else MemoryID (wi_Record inp))"
  by (simp_all add: stamp_record_def Let_def)

lemma write_fresh_Inr:
  assumes "write_fresh K ev inp db = Inr (l, r, db')"
  obtains recs db1 raw where
    "insert_memory_record (row_of_record (stamp_record ev inp)) (records db) = Inr recs"
    "emit K ev write_site (Some (wi_IdempotencyKey inp)) (created_event inp (stamp_record ev inp))
       (db\<lparr>records := recs\<rparr>) = Inr db1"
    "marshal_entry K (write_entry ev inp (stamp_record ev inp)) = Some raw"
    "(wi_TenantID inp, wi_IdempotencyKey inp) \<notin> set (map idem_key (idems db))"
    "db' = db1\<lparr>idems := idems db @ [write_idem_row ev inp raw]\<rparr>"
    "r = write_result (stamp_record ev inp)" "l = ''memory/postgres: commit tx: ''"
proof -
  obtain recs db1 raw ids where
    a: "insert_memory_record (row_of_record (stamp_record ev inp)) (records db) = Inr recs"
      "emit K ev write_site (Some (wi_IdempotencyKey inp)) (created_event inp (stamp_record ev inp))
         (db\<lparr>records := recs\<rparr>) = Inr db1"
      "marshal_entry K (write_entry ev inp (stamp_record ev inp)) = Some raw"
      "insert_idempotency (write_idem_row ev inp raw) (idems db1) = Inr ids"
      "db' = db1\<lparr>idems := ids\<rparr>" "r = write_result (stamp_record ev inp)"
      "l = ''memory/postgres: commit tx: ''"
    using assms by (auto simp: write_fresh_def Let_def bindE_eq_Inr write_idem_row_def)
  have "idems db1 = idems db" using emittedD(2) [OF conjunct1 [OF emit_Inr [OF a(2)]]] by simp
  with a idem_tab.ins_appends [OF a(4)] idem_tab.ins_fresh [OF a(4)] show thesis
    by (intro that [of recs db1 raw]) (simp_all add: idem_key_def write_idem_row_def)
qed

text \<open>All that a first write changes, in one equation per table.\<close>

lemma write_fresh_effect:
  assumes "write_fresh K ev inp db = Inr (l, r, db')"
  shows "\<exists>eraw oraw raw. db' = db\<lparr>
     records := records db @ [row_of_record (stamp_record ev inp)],
     events := events db @ [event_row_of ev (uuid ev 1) (Some (wi_IdempotencyKey inp))
        (created_event inp (stamp_record ev inp)) eraw],
     outbox := outbox db @ [new_outbox_row ev (uuid ev 2) (MemoryID (stamp_record ev inp))
        (wi_TenantID inp) (uuid ev 1) eventTypeMemoryCreated oraw],
     idems := idems db @ [write_idem_row ev inp raw]\<rparr>
   \<and> marshal_event K (created_event inp (stamp_record ev inp)) = Some eraw
   \<and> marshal_entry K (write_entry ev inp (stamp_record ev inp)) = Some raw
   \<and> marshal_outbox K (message_of (uuid ev 1) (created_event inp (stamp_record ev inp))) = Some oraw
   \<and> r = write_result (stamp_record ev inp)"
  using assms
proof (cases rule: write_fresh_Inr)
  case (1 recs db1 raw)
  from rec_tab.ins_appends [OF 1(1)] conjunct1 [OF emit_Inr [OF 1(2)]] 1(3,5,6) show ?thesis
    by (auto simp: emitted_def write_site_def)
qed

text \<open>The identifier of a new record is new, and a row appended under a new identifier is what a read finds.\<close>

lemma write_fresh_new:
  "write_fresh K ev inp db = Inr (l, r, db') \<Longrightarrow> MemoryID (stamp_record ev inp) \<notin> set (map mr_memory_id (records db))"
  using rec_tab.ins_fresh by (elim write_fresh_Inr) (fastforce simp: row_of_record_def)

lemma appended_found:
  assumes "m \<notin> set (map mr_memory_id rows)" and "mr_memory_id w = m" and "mr_tenant_id w = t"
  shows "select_memory_record t m (rows @ [w]) = Inr w"
proof -
  have "find (\<lambda>r. mr_tenant_id r = t \<and> mr_memory_id r = m) rows = None"
    using assms(1) by (auto simp: find_None_iff)
  then show ?thesis using assms(2,3) by (simp add: select_memory_record_def find_append conj_commute)
qed

section \<open>Replay\<close>

lemma lookup_after_write:
  assumes "write_fresh K ev inp db = Inr (l, r, db')" and "sdk_ok K"
    and "wi_TenantID inp' = wi_TenantID inp" and "wi_IdempotencyKey inp' = wi_IdempotencyKey inp"
    and "fault ev' CLookup = None"
  shows "lookupIdempotentWrite K ev' inp' db' =
    (if wi_RequestHash inp' = wi_RequestHash inp then Inr (Some r) else Inl ErrIdempotencyConflict)"
proof -
  from assms(1) obtain recs db1 raw where
    w: "marshal_entry K (write_entry ev inp (stamp_record ev inp)) = Some raw"
      "(wi_TenantID inp, wi_IdempotencyKey inp) \<notin> set (map idem_key (idems db))"
      "idems db' = idems db @ [write_idem_row ev inp raw]"
      "r = write_result (stamp_record ev inp)"
    by (rule write_fresh_Inr) auto
  have "find (\<lambda>x. idem_key x = (wi_TenantID inp, wi_IdempotencyKey inp)) (idems db) = None"
    by (rule find_no_key [OF w(2)])
  then have "select_idempotency (wi_TenantID inp) (wi_IdempotencyKey inp) (idems db')
      = Inr (write_idem_row ev inp raw)"
    by (simp add: w(3) select_idempotency_def find_append idem_key_def write_idem_row_def)
  moreover have "unmarshal_entry K raw = Some (write_entry ev inp (stamp_record ev inp))"
    using assms(2) w(1) by (simp add: sdk_ok_def)
  ultimately show ?thesis
    using assms(3-5) w(4)
    by (simp add: lookupIdempotentWrite_def driver_def write_idem_row_def decodeJSON_def write_entry_def)
qed

definition valid_write :: "WriteRecordInput \<Rightarrow> bool" where
  "valid_write inp \<longleftrightarrow> wi_TenantID inp \<noteq> [] \<and> wi_IdempotencyKey inp \<noteq> [] \<and> wi_RequestHash inp \<noteq> []"

lemma WriteRecord_valid:
  "valid_write inp \<Longrightarrow> WriteRecord K ev inp db = run_tx ev ''memory/postgres: begin tx: '' (writeTx K ev inp) db"
  by (simp add: WriteRecord_def valid_write_def)

lemma writeTx_replay:
  "lookupIdempotentWrite K ev inp db = Inr (Some r) \<Longrightarrow>
     writeTx K ev inp db = Inr (''memory/postgres: commit replay tx: '', r, db)"
  by (simp add: writeTx_def)

lemma writeTx_first:
  assumes "(wi_TenantID inp, wi_IdempotencyKey inp) \<notin> set (map idem_key (idems db))"
    and "fault ev CLookup = None"
  shows "writeTx K ev inp db = write_fresh K ev inp db"
  using assms find_no_key [OF assms(1)]
  by (simp add: writeTx_def lookupIdempotentWrite_def select_idempotency_def driver_def isNoRows_def)

text \<open>The attempts of a client that retries one request, each in its own environment.\<close>

fun attempts :: "'j sdk \<Rightarrow> env list \<Rightarrow> WriteRecordInput \<Rightarrow> 'j db \<Rightarrow> (err + WriteRecordResult) list \<times> 'j db" where
  "attempts K [] inp db = ([], db)"
| "attempts K (ev # evs) inp db =
     (case WriteRecord K ev inp db of (r, db1) \<Rightarrow>
        (case attempts K evs inp db1 of (rs, db2) \<Rightarrow> (r # rs, db2)))"

lemma attempt_after_write:
  assumes w: "write_fresh K ev inp db = Inr (l, r, db')" and "sdk_ok K"
  shows "snd (WriteRecord K ev' inp db') = db' \<and> (\<forall>x. fst (WriteRecord K ev' inp db') = Inr x \<longrightarrow> x = r)"
proof (cases "valid_write inp \<and> fault ev' CBegin = None \<and> fault ev' CLookup = None")
  case True
  from lookup_after_write [OF w assms(2) refl refl, of ev'] True
  have "writeTx K ev' inp db' = Inr (''memory/postgres: commit replay tx: '', r, db')"
    by (simp add: writeTx_replay)
  with True show ?thesis
    by (simp add: WriteRecord_valid run_tx_def split: commit_outcome.split)
next
  case False
  then show ?thesis
  proof (cases "valid_write inp")
    case True
    with False have "fault ev' CBegin \<noteq> None \<or> fault ev' CLookup \<noteq> None" by auto
    with True show ?thesis
      by (auto simp: WriteRecord_valid run_tx_def writeTx_def lookupIdempotentWrite_def driver_def
          isNoRows_def split: option.split)
  qed (auto simp: WriteRecord_def valid_write_def)
qed

lemma attempts_after_write:
  assumes w: "write_fresh K ev inp db = Inr (l, r, db')" and "sdk_ok K"
  shows "snd (attempts K evs inp db') = db' \<and> (\<forall>x. Inr x \<in> set (fst (attempts K evs inp db')) \<longrightarrow> x = r)"
proof (induction evs)
  case (Cons e evs)
  with attempt_after_write [OF w assms(2), of e] show ?case
    by (cases "WriteRecord K e inp db'"; cases "attempts K evs inp db'") auto
qed simp

lemma attempt_first:
  assumes "(wi_TenantID inp, wi_IdempotencyKey inp) \<notin> set (map idem_key (idems db))"
  shows "(snd (WriteRecord K ev inp db) = db \<and> (\<exists>e. fst (WriteRecord K ev inp db) = Inl e))
    \<or> (\<exists>l r. write_fresh K ev inp db = Inr (l, r, snd (WriteRecord K ev inp db))
        \<and> (fst (WriteRecord K ev inp db) = Inr r \<or> (\<exists>e. fst (WriteRecord K ev inp db) = Inl e)))"
proof (cases "valid_write inp \<and> fault ev CLookup = None")
  case True
  with writeTx_first [OF assms] show ?thesis
    by (auto simp: WriteRecord_valid run_tx_def split: option.split sum.split prod.split commit_outcome.split)
next
  case False
  then show ?thesis
    by (auto simp: WriteRecord_def valid_write_def run_tx_def writeTx_def lookupIdempotentWrite_def driver_def
        isNoRows_def split: option.split)
qed

text \<open>C1: Exactly once. A client that retries one write any number of times, with any call of any
  attempt failing and any commit refused or left without an answer, on a database that has not
  seen the key: either no attempt took effect and the database is as it was, or exactly one did
  (its record, event, outbox row and idempotency row are there once) and every attempt that
  reported success returned that one result.\<close>

theorem write_exactly_once:
  assumes "sdk_ok K" and "(wi_TenantID inp, wi_IdempotencyKey inp) \<notin> set (map idem_key (idems db))"
  shows "(snd (attempts K evs inp db) = db \<and> (\<forall>x. Inr x \<notin> set (fst (attempts K evs inp db))))
    \<or> (\<exists>ev\<in>set evs. \<exists>l r. write_fresh K ev inp db = Inr (l, r, snd (attempts K evs inp db))
        \<and> (\<forall>x. Inr x \<in> set (fst (attempts K evs inp db)) \<longrightarrow> x = r))"
proof (induction evs)
  case (Cons e evs)
  obtain r1 db1 where one: "WriteRecord K e inp db = (r1, db1)" by fastforce
  obtain rs db2 where rest: "attempts K evs inp db1 = (rs, db2)" by fastforce
  from attempt_first [OF assms(2), of K e] one
  consider (none) x where "db1 = db" "r1 = Inl x"
    | (wrote) l r where "write_fresh K e inp db = Inr (l, r, db1)" "r1 = Inr r \<or> (\<exists>x. r1 = Inl x)"
    by auto
  then show ?case
  proof cases
    case none
    with Cons one rest show ?thesis by auto
  next
    case wrote
    from attempts_after_write [OF wrote(1) assms(1), of evs] rest wrote one show ?thesis by auto
  qed
qed simp

text \<open>Evaluation of a write at a concrete input.\<close>

lemmas write_eval = stmt_defs WriteRecord_def run_tx_def writeTx_def lookupIdempotentWrite_def write_fresh_def
  emit_def Let_def driver_def exec_def isNoRows_def encodeJSON_def decodeJSON_def write_site_def unit_interval_def
  kinds_v3_def sources_v1_def event_row_of_def stamp_record_def write_entry_def write_result_def

lemma write_exactly_once_witness:
  "(\<exists>ev\<in>{(calm_env ''1'' 5)\<lparr>commit := CommitUnknown ''eof''\<rparr>, calm_env ''2'' 9}.
     \<exists>l r. write_fresh doc_sdk ev sample_write empty_db
      = Inr (l, r, snd (attempts doc_sdk [(calm_env ''1'' 5)\<lparr>commit := CommitUnknown ''eof''\<rparr>, calm_env ''2'' 9]
          sample_write empty_db)))"
proof -
  let ?evs = "[(calm_env ''1'' 5)\<lparr>commit := CommitUnknown ''eof''\<rparr>, calm_env ''2'' 9]"
  have "\<exists>x. Inr x \<in> set (fst (attempts doc_sdk ?evs sample_write empty_db))"
    by (simp add: write_eval sample_defs)
  with write_exactly_once [OF doc_sdk_ok, of sample_write empty_db ?evs] show ?thesis
    by (simp only: empty_db_simps list.map list.set empty_iff simp_thms) auto
qed

section \<open>First writes, conflicts, failures, races\<close>

lemma WriteRecord_unseen_Inr:
  assumes "(wi_TenantID inp, wi_IdempotencyKey inp) \<notin> set (map idem_key (idems db))"
    and "WriteRecord K ev inp db = (Inr r, db')"
  shows "\<exists>l. write_fresh K ev inp db = Inr (l, r, db')" "valid_write inp"
proof -
  show "valid_write inp" using assms(2) by (auto simp: WriteRecord_def valid_write_def split: if_splits)
  show "\<exists>l. write_fresh K ev inp db = Inr (l, r, db')"
    using attempt_first [OF assms(1), of K ev] assms(2) by auto
qed

text \<open>C23: What a successful first write stores. The record of the result is the caller's, every field of it,
  with the tenant, version 1, the update time and, when the caller gave none, a drawn identifier and
  creation time; a read finds it, to the microsecond. Beside its row one event, one pending outbox row that
  points to the event, and one idempotency row under the caller's key and hash are appended, whose
  documents all carry this record; nothing else changes.\<close>

theorem write_first_effect:
  assumes "(wi_TenantID inp, wi_IdempotencyKey inp) \<notin> set (map idem_key (idems db))"
    and "WriteRecord K ev inp db = (Inr r, db')"
  defines "m \<equiv> (if MemoryID (wi_Record inp) = [] then uuid ev 0 else MemoryID (wi_Record inp))"
    and "t \<equiv> wi_TenantID inp" and "ty \<equiv> ''memory_created''"
  shows "wr_Record r = (wi_Record inp)\<lparr>TenantID := t, MemoryID := m,
        CreatedAt := (if CreatedAt (wi_Record inp) = go_zero_time then now ev else CreatedAt (wi_Record inp)),
        UpdatedAt := now ev, Version := 1\<rparr>
    \<and> wr_MemoryID r = m \<and> wr_Version r = 1 \<and> wr_Created r
    \<and> (\<exists>w. records db' = records db @ [w])
    \<and> (\<forall>ev'. fault ev' CLoad = None \<longrightarrow> GetRecordIncludingHidden ev' t m db' = Inr (stored_form (wr_Record r)))
    \<and> (\<exists>e. events db' = events db @ [e] \<and> me_memory_id e = m \<and> me_tenant_id e = t
          \<and> me_event_type e = ty \<and> me_version e = 1 \<and> me_idempotency_key e = Some (wi_IdempotencyKey inp)
          \<and> marshal_event K \<lparr>se_Version = 1, se_TenantID = t, se_MemoryID = m, se_EventType = ty,
              se_IdempotencyKey = wi_IdempotencyKey inp, se_Record = wr_Record r, se_Metadata = []\<rparr> = Some (me_payload e)
          \<and> (\<exists>ob. outbox db' = outbox db @ [ob] \<and> oe_event_id ob = me_event_id e \<and> oe_aggregate_id ob = m
              \<and> oe_tenant_id ob = t \<and> oe_event_type ob = ty
              \<and> oe_status ob = outboxStatusPending \<and> oe_attempt_count ob = 0 \<and> oe_claimed_by ob = None
              \<and> marshal_outbox K \<lparr>om_Version = 1, om_TenantID = t, om_MemoryID = m, om_EventType = ty,
                  om_EventID = me_event_id e, om_Record = wr_Record r, om_Metadata = []\<rparr> = Some (oe_payload ob)))
    \<and> (\<exists>i. idems db' = idems db @ [i] \<and> idem_key i = (t, wi_IdempotencyKey inp)
          \<and> mi_request_hash i = wi_RequestHash inp \<and> mi_memory_id i = Some m
          \<and> marshal_entry K \<lparr>ie_TenantID = t, ie_IdempotencyKey = wi_IdempotencyKey inp, ie_RequestHash = wi_RequestHash inp,
              ie_MemoryID = m, ie_Response = r, ie_CreatedAt = now ev, ie_ExpiresAt = None\<rparr> = Some (mi_response_snapshot i))
    \<and> dedupes db' = dedupes db"
proof -
  let ?rec = "stamp_record ev inp"
  from WriteRecord_unseen_Inr(1) [OF assms(1,2)] obtain l where w: "write_fresh K ev inp db = Inr (l, r, db')" by blast
  from write_fresh_effect [OF w] obtain eraw oraw raw where
    db': "db' = db\<lparr>records := records db @ [row_of_record ?rec],
     events := events db @ [event_row_of ev (uuid ev 1) (Some (wi_IdempotencyKey inp)) (created_event inp ?rec) eraw],
     outbox := outbox db @ [new_outbox_row ev (uuid ev 2) (MemoryID ?rec) (wi_TenantID inp) (uuid ev 1) eventTypeMemoryCreated oraw],
     idems := idems db @ [write_idem_row ev inp raw]\<rparr>"
    and docs: "marshal_event K (created_event inp ?rec) = Some eraw" "marshal_entry K (write_entry ev inp ?rec) = Some raw"
      "marshal_outbox K (message_of (uuid ev 1) (created_event inp ?rec)) = Some oraw"
    and r: "r = write_result ?rec" by blast
  have m: "MemoryID ?rec = m" by (simp add: m_def)
  have new: "m \<notin> set (map mr_memory_id (records db))"
    using write_fresh_new [OF w] unfolding m .
  have read: "select_memory_record t m (records db') = Inr (row_of_record ?rec)"
    using appended_found [OF new, of "row_of_record ?rec" t] m by (simp add: db' t_def row_of_record_def)
  show ?thesis
  proof (intro conjI)
    show "wr_Record r = (wi_Record inp)\<lparr>TenantID := t, MemoryID := m,
        CreatedAt := (if CreatedAt (wi_Record inp) = go_zero_time then now ev else CreatedAt (wi_Record inp)),
        UpdatedAt := now ev, Version := 1\<rparr>"
      by (simp add: r write_result_def stamp_record_def m_def t_def Let_def)
    show "\<forall>ev'. fault ev' CLoad = None \<longrightarrow> GetRecordIncludingHidden ev' t m db' = Inr (stored_form (wr_Record r))"
      using read by (simp add: GetRecordIncludingHidden_def load_calm record_row_roundtrip r write_result_def)
  qed (use docs in \<open>simp_all add: db' r m_def t_def ty_def write_result_def event_row_of_def new_outbox_row_def write_idem_row_def
      idem_key_def created_event_def message_of_def write_entry_def eventTypeMemoryCreated_def\<close>)
qed

lemma write_first_effect_witness:
  "\<exists>r db'. WriteRecord doc_sdk (calm_env ''1'' 5) sample_write empty_db = (Inr r, db')
     \<and> Content (wr_Record r) = ''note'' \<and> length (records db') = 1"
proof -
  obtain r db' where w: "WriteRecord doc_sdk (calm_env ''1'' 5) sample_write empty_db = (Inr r, db')"
    by (simp add: write_eval sample_defs)
  have "(wi_TenantID sample_write, wi_IdempotencyKey sample_write) \<notin> set (map idem_key (idems (empty_db :: doc db)))" by simp
  note e = write_first_effect [OF this w]
  have "wr_Record r = (wi_Record sample_write)\<lparr>TenantID := wi_TenantID sample_write,
     MemoryID := (if MemoryID (wi_Record sample_write) = [] then uuid (calm_env ''1'' 5) 0 else MemoryID (wi_Record sample_write)),
     CreatedAt := (if CreatedAt (wi_Record sample_write) = go_zero_time then now (calm_env ''1'' 5) else CreatedAt (wi_Record sample_write)),
     UpdatedAt := now (calm_env ''1'' 5), Version := 1\<rparr>" by (rule conjunct1 [OF e])
  then have "Content (wr_Record r) = ''note''" by (simp add: sample_defs)
  moreover have "\<exists>x. records db' = records (empty_db :: doc db) @ [x]" by (rule e [THEN conjunct2, THEN conjunct2, THEN conjunct2, THEN conjunct2, THEN conjunct1])
  ultimately show ?thesis using w by auto
qed

text \<open>Replay and conflict. When the key has a row, a valid write never touches the database:
  with the stored hash it returns the stored response, with any other hash it is refused with
  \<open>ErrIdempotencyConflict\<close>.\<close>

theorem write_replay_or_conflict:
  assumes "valid_write inp" and "fault ev CBegin = None" and "fault ev CLookup = None"
    and row: "select_idempotency (wi_TenantID inp) (wi_IdempotencyKey inp) (idems db) = Inr row"
  shows "(mi_request_hash row \<noteq> wi_RequestHash inp \<longrightarrow> WriteRecord K ev inp db = (Inl ErrIdempotencyConflict, db))
    \<and> (mi_request_hash row = wi_RequestHash inp \<and> unmarshal_entry K (mi_response_snapshot row) = Some snap
        \<and> commit ev = Committed \<longrightarrow> WriteRecord K ev inp db = (Inr (ie_Response snap), db))
    \<and> snd (WriteRecord K ev inp db) = db"
  using assms
  by (auto simp: WriteRecord_valid run_tx_def writeTx_def lookupIdempotentWrite_def driver_def decodeJSON_def
      mapErr_def bindE_def split: option.split commit_outcome.split sum.split)

lemma write_replay_or_conflict_witness:
  "let db1 = snd (WriteRecord doc_sdk (calm_env ''1'' 5) sample_write empty_db) in
   WriteRecord doc_sdk (calm_env ''2'' 9) (sample_write\<lparr>wi_RequestHash := ''other''\<rparr>) db1
     = (Inl ErrIdempotencyConflict, db1)"
proof -
  define db1 where "db1 = snd (WriteRecord doc_sdk (calm_env ''1'' 5) sample_write empty_db)"
  obtain row where row: "select_idempotency ''ta'' ''k1'' (idems db1) = Inr row \<and> mi_request_hash row = ''h1''"
    by (simp add: db1_def write_eval sample_defs)
  have "WriteRecord doc_sdk (calm_env ''2'' 9) (sample_write\<lparr>wi_RequestHash := ''other''\<rparr>) db1
     = (Inl ErrIdempotencyConflict, db1)"
    using write_replay_or_conflict [of "sample_write\<lparr>wi_RequestHash := ''other''\<rparr>" "calm_env ''2'' 9" db1 row doc_sdk]
      row by (simp add: valid_write_def sample_write_def)
  then show ?thesis by (simp add: db1_def Let_def)
qed

text \<open>Atomicity of the write. A write that reports an error has changed nothing, unless the
  server applied its commit and only the answer was lost; then the whole write is there.\<close>

theorem write_atomic:
  assumes "WriteRecord K ev inp db = (Inl e, db')"
  shows "db' = db \<or> (\<exists>t l r. commit ev = CommitUnknown t \<and> writeTx K ev inp db = Inr (l, r, db')
      \<and> e = Wrap l (Pg (DriverFailure t)))"
proof (cases "valid_write inp")
  case True
  with assms run_tx_Inl [of ev _ "writeTx K ev inp" db e db'] show ?thesis
    by (simp add: WriteRecord_valid) blast
next
  case False
  with assms show ?thesis by (auto simp: WriteRecord_def valid_write_def split: if_splits)
qed

lemma write_atomic_witness:
  "snd (WriteRecord doc_sdk ((calm_env ''1'' 5)\<lparr>commit := CommitRefused ''down''\<rparr>) sample_write empty_db) = empty_db"
proof -
  obtain e db' where w: "WriteRecord doc_sdk ((calm_env ''1'' 5)\<lparr>commit := CommitRefused ''down''\<rparr>) sample_write empty_db
    = (Inl e, db')" by (simp add: write_eval sample_defs)
  with write_atomic [OF w] show ?thesis by simp
qed

definition insertable :: "MemoryRecord \<Rightarrow> bool" where
  "insertable r \<longleftrightarrow> unit_interval (Importance r) \<and> Kind r \<in> set kinds_v3 \<and> Source r \<in> set sources_v1"

lemma insert_ok:
  "insertable r \<Longrightarrow> MemoryID r \<notin> set (map mr_memory_id rows)
    \<Longrightarrow> insert_memory_record (row_of_record r) rows = Inr (rows @ [row_of_record r])"
  by (simp add: insertable_def insert_memory_record_def)

text \<open>Identifiers a call draws are new to the database: the event and outbox ones at given draws,
  and the record's.\<close>

definition draws_fresh :: "env \<Rightarrow> nat \<Rightarrow> nat \<Rightarrow> 'j db \<Rightarrow> bool" where
  "draws_fresh ev i j db \<longleftrightarrow> uuid ev i \<notin> set (map me_event_id (events db))
     \<and> uuid ev j \<notin> set (map oe_outbox_id (outbox db))"

lemma emit_fresh_ok:
  assumes "marshals K" and "fault ev (es_event_call es) = None" and "fault ev (es_outbox_call es) = None"
    and "draws_fresh ev (es_event_uuid es) (es_outbox_uuid es) db"
    and "(se_MemoryID e, se_Version e, se_EventType e)
        \<notin> set (map (\<lambda>r. (me_memory_id r, me_version r, me_event_type r)) (events db))"
  obtains db' where "emit K ev es key e db = Inr db'" and "emitted K ev es key e db db'"
  using emit_ok [OF assms(1-3), of db e key] assms(4,5) emit_Inr [of K ev es key e db]
  unfolding draws_fresh_def by blast

lemma write_fresh_until_idem:
  assumes "marshals K" and "\<forall>c. fault ev c = None" and "insertable (stamp_record ev inp)"
    and "MemoryID (stamp_record ev inp) \<notin> set (map mr_memory_id (records db))"
    and "MemoryID (stamp_record ev inp) \<notin> set (map me_memory_id (events db))"
    and "draws_fresh ev 1 2 db"
  shows "\<exists>db1 raw. idems db1 = idems db \<and> write_fresh K ev inp db =
    bindE (exec ev CInsertIdem ''memory/postgres: insert idempotency: ''
       (insert_idempotency (write_idem_row ev inp raw) (idems db)))
      (\<lambda>ids. Inr (''memory/postgres: commit tx: '', write_result (stamp_record ev inp), db1\<lparr>idems := ids\<rparr>))"
proof -
  let ?rec = "stamp_record ev inp"
  let ?db0 = "db\<lparr>records := records db @ [row_of_record ?rec]\<rparr>"
  obtain raw where raw: "marshal_entry K (write_entry ev inp ?rec) = Some raw"
    using assms(1) by (rule marshalsE) blast
  have calm: "fault ev (es_event_call write_site) = None" "fault ev (es_outbox_call write_site) = None"
    using assms(2) by simp_all
  have fresh: "draws_fresh ev (es_event_uuid write_site) (es_outbox_uuid write_site) ?db0"
    using assms(6) by (simp add: draws_fresh_def write_site_def)
  have "(se_MemoryID (created_event inp ?rec), se_Version (created_event inp ?rec), se_EventType (created_event inp ?rec))
        \<notin> set (map (\<lambda>r. (me_memory_id r, me_version r, me_event_type r)) (events ?db0))"
    using assms(5) by (simp only: created_event_simps db.simps db.ext_inject) auto
  with assms(1) calm fresh obtain db1 where
    db1: "emit K ev write_site (Some (wi_IdempotencyKey inp)) (created_event inp ?rec) ?db0 = Inr db1"
      "emitted K ev write_site (Some (wi_IdempotencyKey inp)) (created_event inp ?rec) ?db0 db1"
    by (rule emit_fresh_ok)
  have "write_fresh K ev inp db =
    bindE (exec ev CInsertIdem ''memory/postgres: insert idempotency: ''
       (insert_idempotency (write_idem_row ev inp raw) (idems db1)))
      (\<lambda>ids. Inr (''memory/postgres: commit tx: '', write_result ?rec, db1\<lparr>idems := ids\<rparr>))"
    using insert_ok [OF assms(3,4)] assms(2) db1(1) raw
    by (simp add: write_fresh_def Let_def exec_calm encodeJSON_ok write_idem_row_def)
  with emittedD(2) [OF db1(2)] show ?thesis by auto
qed

text \<open>Progress of the write. When nothing fails, the drawn identifiers are new, the key is unseen
  and the record meets the schema's constraints, the write succeeds.\<close>

theorem write_progress:
  assumes "marshals K" and "valid_write inp" and "\<forall>c. fault ev c = None" and "commit ev = Committed"
    and "insertable (wi_Record inp)" and "draws_fresh ev 1 2 db"
    and "MemoryID (stamp_record ev inp) \<notin> set (map mr_memory_id (records db))"
    and "MemoryID (stamp_record ev inp) \<notin> set (map me_memory_id (events db))"
    and "(wi_TenantID inp, wi_IdempotencyKey inp) \<notin> set (map idem_key (idems db))"
  shows "\<exists>db'. WriteRecord K ev inp db = (Inr (write_result (stamp_record ev inp)), db')"
proof -
  have ins: "insertable (stamp_record ev inp)" using assms(5) by (simp add: insertable_def)
  from write_fresh_until_idem [OF assms(1,3) ins assms(7,8,6)] assms(3,9)
  obtain db' where "write_fresh K ev inp db = Inr (''memory/postgres: commit tx: '', write_result (stamp_record ev inp), db')"
    by (auto simp: exec_calm insert_idempotency_def idem_key_def write_idem_row_def)
  then show ?thesis
    using assms(2-4) writeTx_first [OF assms(9), of ev K] by (simp add: WriteRecord_valid run_tx_def)
qed

lemma write_progress_witness:
  "\<exists>db'. WriteRecord doc_sdk (calm_env ''1'' 5) sample_write empty_db
     = (Inr (write_result (stamp_record (calm_env ''1'' 5) sample_write)), db')"
  by (rule write_progress) (simp_all add: doc_sdk_marshals valid_write_def insertable_def draws_fresh_def
      unit_interval_def kinds_v3_def sources_v1_def sample_write_def sample_record_def)

text \<open>C33: The race of two first writes. Two clients look one key up, both find nothing, and the first
  commits; the second then continues from its empty lookup, with the first's rows in the
  tables. It can never store a second record for the key; but what it reports, even for the
  same request, is the driver's raw uniqueness violation, not the stored result and not
  \<open>ErrIdempotencyConflict\<close>.\<close>

theorem write_race:
  assumes "write_fresh K ev1 inp1 db = Inr (l, r, db1)"
    and "wi_TenantID inp2 = wi_TenantID inp1" and "wi_IdempotencyKey inp2 = wi_IdempotencyKey inp1"
  shows "(\<exists>e. write_fresh K ev2 inp2 db1 = Inl e)
    \<and> (marshals K \<and> (\<forall>c. fault ev2 c = None) \<and> insertable (wi_Record inp2) \<and> draws_fresh ev2 1 2 db1
       \<and> MemoryID (stamp_record ev2 inp2) \<notin> set (map mr_memory_id (records db1)) \<union> set (map me_memory_id (events db1))
       \<longrightarrow> write_fresh K ev2 inp2 db1 = Inl (Wrap ''memory/postgres: insert idempotency: ''
             (Pg (UniqueViolation ''tenant_id, idempotency_key''))))"
proof -
  have seen: "(wi_TenantID inp2, wi_IdempotencyKey inp2) \<in> set (map idem_key (idems db1))"
    using write_fresh_effect [OF assms(1)] assms(2,3)
    by (auto simp: write_idem_row_def idem_key_def)
  have "\<exists>e. write_fresh K ev2 inp2 db1 = Inl e"
  proof (cases "write_fresh K ev2 inp2 db1")
    case (Inr x)
    then obtain l' r' db2 where "write_fresh K ev2 inp2 db1 = Inr (l', r', db2)" by (metis prod_cases3)
    then have "(wi_TenantID inp2, wi_IdempotencyKey inp2) \<notin> set (map idem_key (idems db1))"
      by (rule write_fresh_Inr)
    with seen show ?thesis by contradiction
  qed simp
  moreover have "write_fresh K ev2 inp2 db1 = Inl (Wrap ''memory/postgres: insert idempotency: ''
      (Pg (UniqueViolation ''tenant_id, idempotency_key'')))"
    if h: "marshals K \<and> (\<forall>c. fault ev2 c = None) \<and> insertable (wi_Record inp2) \<and> draws_fresh ev2 1 2 db1
       \<and> MemoryID (stamp_record ev2 inp2) \<notin> set (map mr_memory_id (records db1)) \<union> set (map me_memory_id (events db1))"
  proof -
    have "insertable (stamp_record ev2 inp2)" using h by (simp add: insertable_def)
    with h write_fresh_until_idem [of K ev2 inp2 db1] obtain db3 raw where
      "write_fresh K ev2 inp2 db1 = bindE (exec ev2 CInsertIdem ''memory/postgres: insert idempotency: ''
         (insert_idempotency (write_idem_row ev2 inp2 raw) (idems db1)))
        (\<lambda>ids. Inr (''memory/postgres: commit tx: '', write_result (stamp_record ev2 inp2), db3\<lparr>idems := ids\<rparr>))"
      by blast
    with h seen show ?thesis
      by (simp add: exec_calm insert_idempotency_def idem_key_def write_idem_row_def)
  qed
  ultimately show ?thesis by blast
qed

lemma write_race_witness:
  "\<exists>l r db1. write_fresh doc_sdk (calm_env ''1'' 5) sample_write empty_db = Inr (l, r, db1)
     \<and> (\<exists>e. write_fresh doc_sdk (calm_env ''2'' 9) sample_write db1 = Inl e)"
proof -
  obtain l r db1 where w: "write_fresh doc_sdk (calm_env ''1'' 5) sample_write empty_db = Inr (l, r, db1)"
    by (simp add: write_eval sample_defs)
  from write_race [OF w refl refl, of "calm_env ''2'' 9"] w show ?thesis by blast
qed

end
