(* ===== verification/MutateProps.thy ===== *)
theory MutateProps
  imports MutateRecord WriteProps
begin

text \<open>
  Properties of the mutations. What the four \<open>apply\<close> closures have in common is the locale
  \<open>mutation\<close>; its lemmas (identity and frozen columns kept, a mutation is read back as it was
  returned) are proved once and interpreted on the four.
\<close>

section \<open>Stored rows\<close>

text \<open>Rows the store's statements leave behind: tags are present and the times are microseconds.\<close>

definition row_ok :: "record_row \<Rightarrow> bool" where
  "row_ok w \<longleftrightarrow> mr_tags w \<noteq> None \<and> pg_time (mr_created_at w) = mr_created_at w
     \<and> pg_time (mr_updated_at w) = mr_updated_at w
     \<and> map_option pg_time (mr_deleted_at w) = mr_deleted_at w
     \<and> map_option pg_time (mr_last_access_at w) = mr_last_access_at w"

definition rows_wf :: "record_row list \<Rightarrow> bool" where
  "rows_wf rows \<longleftrightarrow> distinct (map mr_memory_id rows) \<and> (\<forall>w\<in>set rows. row_ok w)"

lemma row_ok_row_of_record [simp]: "row_ok (row_of_record r)"
  by (simp add: row_ok_def row_of_record_def)

lemma row_ok_stored: "row_ok w \<Longrightarrow> stored_form (record_of_row w) = record_of_row w"
  by (auto simp: row_ok_def stored_form_def record_of_row_def nonNilTags_def)

text \<open>The columns no mutation writes.\<close>

definition frozen :: "MemoryRecord \<Rightarrow> (string \<times> string \<times> string \<times> string \<times> string) \<times> string
    \<times> gotime \<times> gotime option \<times> int \<times> string" where
  "frozen r = ((UserID r, ProjectID r, SessionID r, Kind r, Source r), NormalizedContentHash r,
     CreatedAt r, LastAccessAt r, HitCount r, ConsolidatedFromEventID r)"

section \<open>The contract of an \<open>apply\<close> closure\<close>

locale mutation =
  fixes app :: "MemoryRecord \<Rightarrow> gotime \<Rightarrow> MemoryRecord"
  assumes keeps_id: "MemoryID (app r t) = MemoryID r" "TenantID (app r t) = TenantID r"
    and keeps_version: "Version (app r t) = Version r"
    and keeps_frozen: "frozen (app r t) = frozen r"
    and keeps_tags: "Tags r \<noteq> None \<Longrightarrow> Tags (app r t) \<noteq> None"
    and stamps: "UpdatedAt (app r t) = t"
begin

lemma read_back:
  assumes "row_ok w"
  shows "record_of_row (set_mutated ((app (record_of_row w) t)\<lparr>Version := v\<rparr>) w)
     = stored_form ((app (record_of_row w) t)\<lparr>Version := v\<rparr>)"
proof -
  let ?a = "app (record_of_row w) t"
  have "Tags ?a \<noteq> None" using assms keeps_tags [of "record_of_row w" t] by (simp add: row_ok_def)
  then have "nonNilTags (Tags ?a) = Tags ?a" by (auto simp: nonNilTags_def)
  then show ?thesis
    using assms keeps_frozen [of "record_of_row w" t] keeps_id [of "record_of_row w" t]
    by (simp add: record_of_row_def set_mutated_def stored_form_def frozen_def row_ok_def)
qed

lemma row_ok_after:
  assumes "row_ok w"
  shows "row_ok (set_mutated ((app (record_of_row w) t)\<lparr>Version := v\<rparr>) w)"
  using assms keeps_tags [of "record_of_row w" t] by (simp add: row_ok_def set_mutated_def)

lemma identity_after:
  assumes "mu_apply inp = app"
  shows "MemoryID (mutated_to ev inp r) = MemoryID r" "TenantID (mutated_to ev inp r) = TenantID r"
    "Version (mutated_to ev inp r) = i64_inc (Version r)" "UpdatedAt (mutated_to ev inp r) = now ev"
    "frozen (mutated_to ev inp r) = frozen r"
  using keeps_id keeps_version stamps keeps_frozen [of r "now ev"]
  by (simp_all add: assms mutated_to_def frozen_def)

text \<open>A mutation that succeeds rewrites the one row it loaded, and the row then reads as the record
  it returns.\<close>

lemma success:
  assumes inp: "mu_apply inp = app" and wf: "rows_wf (records db)"
    and run: "mutateRecordTx K ev inp db = Inr (rec, db')"
  obtains w w' where "select_memory_record (mu_tenantID inp) (mu_memoryID inp) (records db) = Inr w"
    and "mr_version w = mu_expectedVersion inp" and "rec = mutated_to ev inp (record_of_row w)"
    and "select_memory_record (mu_tenantID inp) (mu_memoryID inp) (records db') = Inr w'"
    and "record_of_row w' = stored_form rec" and "rows_wf (records db')"
    and "\<And>r. r \<in> set (records db) \<Longrightarrow> mr_memory_id r \<noteq> mu_memoryID inp \<Longrightarrow> r \<in> set (records db')"
    and "map mr_memory_id (records db') = map mr_memory_id (records db)"
proof -
  let ?t = "mu_tenantID inp" and ?m = "mu_memoryID inp" and ?v = "mu_expectedVersion inp"
  from run obtain w where w: "select_memory_record ?t ?m (records db) = Inr w"
    and loaded: "mutate_loaded K ev inp (record_of_row w) db = Inr (rec, db')"
    by (auto simp: mutateRecordTx_Inr)
  from loaded obtain recs where m: "Version (record_of_row w) = ?v" "rec = mutated_to ev inp (record_of_row w)"
    "update_mutated rec ?t ?m ?v (records db) = Inr (1, recs)" "records db' = recs"
    by (rule mutate_loaded_Inr)
  note member = select_memory_record_Inr [OF w]
  have ok: "row_ok w" using member wf by (simp add: rows_wf_def)
  have g: "guarded ?t ?m ?v w" using member m(1) by (simp add: guarded_def)
  have rec: "rec = (app (record_of_row w) (now ev))\<lparr>Version := i64_inc ?v\<rparr>"
    using m(1) keeps_version by (simp add: m(2) mutated_to_def inp)
  have dist: "distinct (map mr_memory_id (records db'))"
    using wf mutated.upd_ids [OF m(3)] by (simp add: rows_wf_def m(4))
  have rows: "recs = update_where (guarded ?t ?m ?v) (set_mutated rec) (records db)"
    using mutated.upd_rows [OF m(3)] by simp
  have only: "r = w" if "r \<in> set (records db)" "guarded ?t ?m ?v r" for r
    using that member wf distinct_key_inj [of mr_memory_id "records db" r w]
    by (simp add: rows_wf_def guarded_def)
  have "row_ok r'" if "r' \<in> set (records db')" for r'
    using that only wf row_ok_after [OF ok] m(4)
    by (auto simp: rows set_update_where rows_wf_def rec split: if_splits)
  then have wf': "rows_wf (records db')" using dist by (simp add: rows_wf_def)
  have "set_mutated rec w \<in> set (records db')"
    using member g by (force simp: m(4) rows set_update_where image_iff)
  then have w': "select_memory_record ?t ?m (records db') = Inr (set_mutated rec w)"
    using dist member by (simp add: select_memory_record_iff set_mutated_def)
  show thesis
    using that [OF w _ m(2) w' _ wf'] m(1) read_back [OF ok] rec
      mutated.upd_other_rows [OF m(3)] mutated.upd_ids [OF m(3)] m(4) by simp
qed

end

interpretation patch: mutation "apply_patch p" for p
  by unfold_locales (simp_all add: apply_patch_def frozen_def)

interpretation delete: mutation apply_delete
  by unfold_locales (simp_all add: apply_delete_def frozen_def)

interpretation pin: mutation "apply_pin b" for b
  by unfold_locales (simp_all add: apply_pin_def frozen_def)

interpretation disable: mutation "apply_disable b" for b
  by unfold_locales (simp_all add: apply_disable_def frozen_def)

section \<open>The four operations as one type of call\<close>

datatype mutation_call =
    Patch PatchRecordInput | Delete DeleteRecordInput | Pin PinRecordInput | Disable DisableRecordInput

fun mutation_of :: "mutation_call \<Rightarrow> mutationInput" where
  "mutation_of (Patch p) = patch_mutation p"
| "mutation_of (Delete d) = delete_mutation d"
| "mutation_of (Pin n) = pin_mutation n"
| "mutation_of (Disable i) = disable_mutation i"

fun run_mutation :: "'j sdk \<Rightarrow> env \<Rightarrow> mutation_call \<Rightarrow> 'j db \<Rightarrow> (err + MutateRecordResult) \<times> 'j db" where
  "run_mutation K ev (Patch p) db = PatchRecord K ev p db"
| "run_mutation K ev (Delete d) db = DeleteRecord K ev d db"
| "run_mutation K ev (Pin n) db = PinRecord K ev n db"
| "run_mutation K ev (Disable i) db = DisableRecord K ev i db"

lemma run_mutation_core: "run_mutation K ev q db = mutate_result (mutateRecord K ev (mutation_of q) db)"
  by (cases q) (simp_all add: PatchRecord_def DeleteRecord_def PinRecord_def DisableRecord_def)

lemma mutation_of_contract: "mutation (mu_apply (mutation_of q))"
  by (cases q) (simp_all add: patch.mutation_axioms delete.mutation_axioms pin.mutation_axioms
      disable.mutation_axioms)

lemma mutation_of_event: "mu_eventType (mutation_of q) \<in> set allowedEventTypes"
  by (cases q) (simp_all add: pin_mutation_def disable_mutation_def allowedEventTypes_def)

lemmas mutation_of_success = mutation.success [OF mutation_of_contract refl]
lemmas mutation_of_identity = mutation.identity_after [OF mutation_of_contract refl]

section \<open>A concrete store\<close>

definition sample_row :: record_row where
  "sample_row = row_of_record (stamp_record (calm_env ''1'' 5) sample_write)"

definition sample_db :: "doc db" where
  "sample_db = snd (WriteRecord doc_sdk (calm_env ''1'' 5) sample_write empty_db)"

lemma sample_row_simps [simp]:
  "mr_memory_id sample_row = ''m1''" "mr_tenant_id sample_row = ''ta''" "mr_version sample_row = 1"
  "mr_deleted sample_row = False" "mr_disabled sample_row = False" "mr_pinned sample_row = False"
  "mr_kind sample_row = ''working''" "mr_importance sample_row = Fin (1/2)" "mr_tags sample_row = Some []"
  "mr_hit_count sample_row = 0" "mr_category sample_row = ''project''" "mr_content sample_row = ''note''"
  by (simp_all add: sample_row_def row_of_record_def stamp_record_def sample_defs nonNilTags_def)

lemma sample_db_simps [simp]:
  "records sample_db = [sample_row]" "dedupes sample_db = []"
  "map me_event_id (events sample_db) = [''e1'']" "map oe_outbox_id (outbox sample_db) = [''o1'']"
  "map (\<lambda>r. (me_memory_id r, me_version r, me_event_type r)) (events sample_db)
     = [(''m1'', 1, eventTypeMemoryCreated)]"
  "map idem_key (idems sample_db) = [(''ta'', ''k1'')]"
proof -
  obtain l r db where w: "write_fresh doc_sdk (calm_env ''1'' 5) sample_write empty_db = Inr (l, r, db)"
    "sample_db = db" by (simp add: sample_db_def write_eval sample_defs)
  from write_fresh_effect [OF w(1)]
  show "records sample_db = [sample_row]" "dedupes sample_db = []"
    "map me_event_id (events sample_db) = [''e1'']" "map oe_outbox_id (outbox sample_db) = [''o1'']"
    "map (\<lambda>r. (me_memory_id r, me_version r, me_event_type r)) (events sample_db)
       = [(''m1'', 1, eventTypeMemoryCreated)]"
    "map idem_key (idems sample_db) = [(''ta'', ''k1'')]"
    unfolding w(2)
    by (auto simp: sample_row_def event_row_of_def new_outbox_row_def write_idem_row_def idem_key_def
        sample_write_def sample_record_def calm_env_def)
qed

lemma sample_db_keys [simp]:
  "me_event_id ` set (events sample_db) = {''e1''}" "oe_outbox_id ` set (outbox sample_db) = {''o1''}"
  "(\<lambda>r. (me_memory_id r, me_version r, me_event_type r)) ` set (events sample_db)
     = {(''m1'', 1, eventTypeMemoryCreated)}"
  "idem_key ` set (idems sample_db) = {(''ta'', ''k1'')}"
  using arg_cong [OF sample_db_simps(3), of set] arg_cong [OF sample_db_simps(4), of set]
    arg_cong [OF sample_db_simps(5), of set] arg_cong [OF sample_db_simps(6), of set]
  by (simp_all only: set_map list.set)

lemma sample_rows_wf: "rows_wf (records sample_db)"
  by (simp add: rows_wf_def sample_row_def)

text \<open>When nothing fails, a mutation of a stored record at its version succeeds if its identifiers
  are new and the new values meet the constraints.\<close>

lemma mutation_ok:
  assumes "marshals K" and "\<forall>c. fault ev c = None" and "commit ev = Committed"
    and "mu_tenantID (mutation_of q) \<noteq> []" and "mu_memoryID (mutation_of q) \<noteq> []"
    and "0 < mu_expectedVersion (mutation_of q)" and wf: "rows_wf (records db)"
    and w: "select_memory_record (mu_tenantID (mutation_of q)) (mu_memoryID (mutation_of q)) (records db) = Inr w"
    and v: "mr_version w = mu_expectedVersion (mutation_of q)"
    and "unit_interval (Importance (mutated_to ev (mutation_of q) (record_of_row w)))"
    and "draws_fresh ev 1 2 db"
    and new: "(mr_memory_id w, i64_inc (mr_version w), mu_eventType (mutation_of q))
        \<notin> set (map (\<lambda>r. (me_memory_id r, me_version r, me_event_type r)) (events db))"
  shows "\<exists>r db'. run_mutation K ev q db = (Inr r, db')"
proof -
  let ?i = "mutation_of q"
  let ?rec = "mutated_to ev ?i (record_of_row w)"
  note member = select_memory_record_Inr [OF w]
  have "Tags ?rec \<noteq> None"
    using member wf mutation.keeps_tags [OF mutation_of_contract, of "record_of_row w" q "now ev"]
    by (simp add: mutated_to_def rows_wf_def row_ok_def)
  moreover have one: "count_where (guarded (mu_tenantID ?i) (mu_memoryID ?i) (mu_expectedVersion ?i)) (records db) = 1"
    using wf member v by (intro count_where_1 [of mr_memory_id _ _ "mu_memoryID ?i" w])
      (simp_all add: rows_wf_def guarded_def)
  ultimately obtain recs where u: "update_mutated ?rec (mu_tenantID ?i) (mu_memoryID ?i) (mu_expectedVersion ?i) (records db)
    = Inr (1, recs)" using assms(10) by (simp add: update_mutated_def)
  have calm: "fault ev (es_event_call mutate_site) = None" "fault ev (es_outbox_call mutate_site) = None"
    using assms(2) by simp_all
  have fresh: "draws_fresh ev (es_event_uuid mutate_site) (es_outbox_uuid mutate_site) (db\<lparr>records := recs\<rparr>)"
    using assms(11) by (simp add: draws_fresh_def mutate_site_def)
  have "(se_MemoryID (event_of (mu_eventType ?i) ?rec), se_Version (event_of (mu_eventType ?i) ?rec),
      se_EventType (event_of (mu_eventType ?i) ?rec))
        \<notin> set (map (\<lambda>r. (me_memory_id r, me_version r, me_event_type r)) (events (db\<lparr>records := recs\<rparr>)))"
    using new by (simp add: mutation_of_identity)
  with assms(1) calm fresh obtain db' where
    "emit K ev mutate_site None (event_of (mu_eventType ?i) ?rec) (db\<lparr>records := recs\<rparr>) = Inr db'"
    by (rule emit_fresh_ok)
  then have "mutateRecordTx K ev ?i db = Inr (?rec, db')"
    using assms(2) w v u by (simp add: mutateRecordTx_Inr mutate_loaded_def mutated_to_def Let_def exec_calm)
  then have "mutateRecord K ev ?i db = (Inr ?rec, db')"
    using assms(2-6) by (simp add: mutateRecord_def mutation_of_event run_tx_def)
  then show ?thesis by (simp add: run_mutation_core mutate_result_def)
qed

definition sample_patch :: mutation_call where
  "sample_patch = Patch \<lparr>pa_TenantID = ''ta'', pa_MemoryID = ''m1'', pa_ExpectedVersion = 1,
     pa_Content = ''new'', pa_Category = [], pa_Tags = Some [''x''], pa_Importance = Fin 0\<rparr>"

lemma sample_patch_runs: "\<exists>r db'. run_mutation doc_sdk (calm_env ''2'' 9000) sample_patch sample_db = (Inr r, db')"
proof (rule mutation_ok [where w = sample_row])
  show "rows_wf (records sample_db)" by (rule sample_rows_wf)
  show "unit_interval (Importance (mutated_to (calm_env ''2'' 9000) (mutation_of sample_patch) (record_of_row sample_row)))"
    by (simp add: sample_patch_def mutated_to_def apply_patch_def float_zero_def unit_interval_def)
qed (simp_all add: sample_patch_def doc_sdk_marshals select_memory_record_def draws_fresh_def calm_env_def i64_inc_def
    i64_max_def event_type_defs)

section \<open>What a mutation does\<close>

lemma run_mutation_success:
  assumes wf: "rows_wf (records db)" and run: "run_mutation K ev q db = (Inr r, db')"
  obtains w w' recs where
      "select_memory_record (mu_tenantID (mutation_of q)) (mu_memoryID (mutation_of q)) (records db) = Inr w"
    and "mr_version w = mu_expectedVersion (mutation_of q)"
    and "rr_Record r = mutated_to ev (mutation_of q) (record_of_row w)"
    and "rr_MemoryID r = MemoryID (rr_Record r)" and "rr_Version r = Version (rr_Record r)"
    and "select_memory_record (mu_tenantID (mutation_of q)) (mu_memoryID (mutation_of q)) (records db') = Inr w'"
    and "record_of_row w' = stored_form (rr_Record r)"
    and "\<And>x. x \<in> set (records db) \<Longrightarrow> mr_memory_id x \<noteq> mu_memoryID (mutation_of q) \<Longrightarrow> x \<in> set (records db')"
    and "map mr_memory_id (records db') = map mr_memory_id (records db)"
    and "emitted K ev mutate_site None (event_of (mu_eventType (mutation_of q)) (rr_Record r)) (db\<lparr>records := recs\<rparr>) db'"
proof -
  from run obtain rec where rec: "mutateRecordTx K ev (mutation_of q) db = Inr (rec, db')"
    "r = \<lparr>rr_MemoryID = MemoryID rec, rr_Version = Version rec, rr_Record = rec\<rparr>"
    by (auto simp: run_mutation_core mutate_result_Inr dest: mutateRecord_Inr)
  from mutation_of_success [OF wf rec(1)] obtain w w' where
    w: "select_memory_record (mu_tenantID (mutation_of q)) (mu_memoryID (mutation_of q)) (records db) = Inr w"
      "mr_version w = mu_expectedVersion (mutation_of q)" "rec = mutated_to ev (mutation_of q) (record_of_row w)"
      "select_memory_record (mu_tenantID (mutation_of q)) (mu_memoryID (mutation_of q)) (records db') = Inr w'"
      "record_of_row w' = stored_form rec"
      "\<And>x. x \<in> set (records db) \<Longrightarrow> mr_memory_id x \<noteq> mu_memoryID (mutation_of q) \<Longrightarrow> x \<in> set (records db')"
      "map mr_memory_id (records db') = map mr_memory_id (records db)" by metis
  from rec(1) obtain recs where "emit K ev mutate_site None (event_of (mu_eventType (mutation_of q)) rec)
      (db\<lparr>records := recs\<rparr>) = Inr db'"
    by (auto simp: mutateRecordTx_Inr elim: mutate_loaded_Inr)
  then have "emitted K ev mutate_site None (event_of (mu_eventType (mutation_of q)) rec) (db\<lparr>records := recs\<rparr>) db'"
    by (blast dest: emit_Inr)
  with w show thesis by (intro that [of w w' recs]) (simp_all add: rec(2))
qed

text \<open>What each call makes of a record, field by field.\<close>

lemma applied_fields:
  "mutated_to ev (mutation_of q) (record_of_row w) =
     (case q of
        Patch p \<Rightarrow> (record_of_row w)\<lparr>Content := (if pa_Content p = [] then Content (record_of_row w) else pa_Content p),
          Category := (if pa_Category p = [] then Category (record_of_row w) else pa_Category p),
          Tags := (case pa_Tags p of None \<Rightarrow> Tags (record_of_row w) | Some ts \<Rightarrow> Some ts),
          Importance := (if pa_Importance p = Fin 0 then Importance (record_of_row w) else pa_Importance p)\<rparr>
      | Delete d \<Rightarrow> (record_of_row w)\<lparr>Deleted := True, DeletedAt := Some (now ev)\<rparr>
      | Pin n \<Rightarrow> (record_of_row w)\<lparr>Pinned := pn_Pinned n\<rparr>
      | Disable i \<Rightarrow> (record_of_row w)\<lparr>Disabled := di_Disabled i\<rparr>)\<lparr>Version := i64_inc (mr_version w), UpdatedAt := now ev\<rparr>"
  by (cases q) (auto simp: mutated_to_def apply_patch_def apply_delete_def apply_pin_def apply_disable_def float_zero_def
      record_of_row_def split: option.split)

text \<open>C22: Effect of a mutation. When a call succeeds, the stored record was at the expected version and the
  record returned is the stored one with the next version, the call's update time and exactly what the call
  asks for: a patch replaces the content and category when given (non-empty), the tags when given (non-nil)
  and the importance when not zero; a delete sets the flag and its time; pinning and disabling set
  their flag as given; every other field is as it was. A read of the new state returns this record, to the
  microsecond, and every row of another identifier is kept.\<close>

theorem mutation_effect:
  assumes "rows_wf (records db)" and "run_mutation K ev q db = (Inr r, db')"
  shows "\<exists>w old. select_memory_record (mu_tenantID (mutation_of q)) (mu_memoryID (mutation_of q)) (records db) = Inr w
      \<and> mr_version w = mu_expectedVersion (mutation_of q) \<and> old = record_of_row w
      \<and> rr_Record r =
          (case q of
             Patch p \<Rightarrow> old\<lparr>Content := (if pa_Content p = [] then Content old else pa_Content p),
               Category := (if pa_Category p = [] then Category old else pa_Category p),
               Tags := (case pa_Tags p of None \<Rightarrow> Tags old | Some ts \<Rightarrow> Some ts),
               Importance := (if pa_Importance p = Fin 0 then Importance old else pa_Importance p)\<rparr>
           | Delete d \<Rightarrow> old\<lparr>Deleted := True, DeletedAt := Some (now ev)\<rparr>
           | Pin n \<Rightarrow> old\<lparr>Pinned := pn_Pinned n\<rparr>
           | Disable i \<Rightarrow> old\<lparr>Disabled := di_Disabled i\<rparr>)\<lparr>Version := i64_inc (mr_version w), UpdatedAt := now ev\<rparr>
      \<and> rr_MemoryID r = mr_memory_id w \<and> rr_Version r = i64_inc (mr_version w)
      \<and> (\<forall>ev'. fault ev' CLoad = None \<longrightarrow> GetRecordIncludingHidden ev' (mu_tenantID (mutation_of q))
            (mu_memoryID (mutation_of q)) db' = Inr (stored_form (rr_Record r)))
      \<and> map mr_memory_id (records db') = map mr_memory_id (records db)
      \<and> (\<forall>x\<in>set (records db). mr_memory_id x \<noteq> mr_memory_id w \<longrightarrow> x \<in> set (records db'))"
proof -
  from assms obtain w w' recs where
    w: "select_memory_record (mu_tenantID (mutation_of q)) (mu_memoryID (mutation_of q)) (records db) = Inr w"
      "mr_version w = mu_expectedVersion (mutation_of q)"
      "rr_Record r = mutated_to ev (mutation_of q) (record_of_row w)"
      "rr_MemoryID r = MemoryID (rr_Record r)" "rr_Version r = Version (rr_Record r)"
      "select_memory_record (mu_tenantID (mutation_of q)) (mu_memoryID (mutation_of q)) (records db') = Inr w'"
      "record_of_row w' = stored_form (rr_Record r)"
      "\<And>x. x \<in> set (records db) \<Longrightarrow> mr_memory_id x \<noteq> mu_memoryID (mutation_of q) \<Longrightarrow> x \<in> set (records db')"
      "map mr_memory_id (records db') = map mr_memory_id (records db)"
    by (rule run_mutation_success) blast
  show ?thesis
    by (intro exI [of _ w] exI [of _ "record_of_row w"] conjI w(1,2,9) refl, unfold w(3), rule applied_fields)
      (use select_memory_record_Inr [OF w(1)] w in \<open>auto simp: mutation_of_identity GetRecordIncludingHidden_def load_calm\<close>)
qed

lemma mutation_effect_witness:
  "\<exists>r db'. run_mutation doc_sdk (calm_env ''2'' 9000) sample_patch sample_db = (Inr r, db') \<and> rr_Version r = 2
     \<and> GetRecordIncludingHidden (calm_env ''3'' 1) ''ta'' ''m1'' db' = Inr (stored_form (rr_Record r))"
proof -
  obtain r db' where run: "run_mutation doc_sdk (calm_env ''2'' 9000) sample_patch sample_db = (Inr r, db')"
    using sample_patch_runs by blast
  from mutation_effect [OF sample_rows_wf run] have "rr_Version r = 2
     \<and> GetRecordIncludingHidden (calm_env ''3'' 1) ''ta'' ''m1'' db' = Inr (stored_form (rr_Record r))"
    by (auto simp: select_memory_record_def i64_inc_def i64_max_def sample_patch_def)
  with run show ?thesis by blast
qed

text \<open>Transactional outbox. A successful mutation appends exactly one event and exactly one pending
  outbox row that points to it, both with the new version and the operation's event type; the
  message encodes the returned record; and the other tables are left alone.\<close>

theorem mutation_emits:
  assumes "rows_wf (records db)" and "run_mutation K ev q db = (Inr r, db')"
  shows "idems db' = idems db \<and> dedupes db' = dedupes db
      \<and> (\<exists>e ob. events db' = events db @ [e] \<and> outbox db' = outbox db @ [ob]
          \<and> me_memory_id e = rr_MemoryID r \<and> me_version e = rr_Version r
          \<and> me_event_type e = mu_eventType (mutation_of q) \<and> oe_event_id ob = me_event_id e
          \<and> oe_aggregate_id ob = rr_MemoryID r \<and> oe_status ob = outboxStatusPending \<and> oe_attempt_count ob = 0
          \<and> marshal_outbox K (message_of (me_event_id e) (event_of (me_event_type e) (rr_Record r))) = Some (oe_payload ob))"
proof -
  from assms obtain recs where "rr_MemoryID r = MemoryID (rr_Record r)" "rr_Version r = Version (rr_Record r)"
    "emitted K ev mutate_site None (event_of (mu_eventType (mutation_of q)) (rr_Record r)) (db\<lparr>records := recs\<rparr>) db'"
    by (rule run_mutation_success) blast
  then show ?thesis by (auto simp: emitted_def event_row_of_def new_outbox_row_def)
qed

lemma mutation_emits_witness:
  "\<exists>r db'. run_mutation doc_sdk (calm_env ''2'' 9000) sample_patch sample_db = (Inr r, db')
     \<and> length (outbox db') = Suc (length (outbox sample_db))"
proof -
  obtain r db' where run: "run_mutation doc_sdk (calm_env ''2'' 9000) sample_patch sample_db = (Inr r, db')"
    using sample_patch_runs by blast
  from mutation_emits [OF sample_rows_wf run] run show ?thesis by auto
qed

text \<open>What a patch changes. Non-empty content and category, non-nil tags and a non-zero importance
  replace the stored ones; an empty or zero field leaves the stored value (so no field can be
  emptied); the flags and the content hash are never touched, whatever the new content.\<close>

theorem patch_fields:
  assumes "PatchRecord K ev p db = (Inr r, db')"
  shows "\<exists>w. select_memory_record (pa_TenantID p) (pa_MemoryID p) (records db) = Inr w
    \<and> Content (rr_Record r) = (if pa_Content p = [] then mr_content w else pa_Content p)
    \<and> Category (rr_Record r) = (if pa_Category p = [] then mr_category w else pa_Category p)
    \<and> Tags (rr_Record r) = (case pa_Tags p of None \<Rightarrow> mr_tags w | Some ts \<Rightarrow> Some ts)
    \<and> Importance (rr_Record r) = (if pa_Importance p = Fin 0 then mr_importance w else pa_Importance p)
    \<and> Pinned (rr_Record r) = mr_pinned w \<and> Disabled (rr_Record r) = mr_disabled w
    \<and> Deleted (rr_Record r) = mr_deleted w
    \<and> NormalizedContentHash (rr_Record r) = mr_normalized_content_hash w"
proof -
  from assms obtain rec w where w: "select_memory_record (pa_TenantID p) (pa_MemoryID p) (records db) = Inr w"
    "mutate_loaded K ev (patch_mutation p) (record_of_row w) db = Inr (rec, db')" "rr_Record r = rec"
    by (auto simp: PatchRecord_def mutate_result_Inr mutateRecordTx_Inr dest!: mutateRecord_Inr(1))
  from w(2) have "rec = mutated_to ev (patch_mutation p) (record_of_row w)" by (rule mutate_loaded_Inr)
  with w show ?thesis
    by (intro exI [of _ w]) (auto simp: mutated_to_def apply_patch_def float_zero_def record_of_row_def split: option.split)
qed

lemma patch_fields_witness:
  "\<exists>r db'. run_mutation doc_sdk (calm_env ''2'' 9000) sample_patch sample_db = (Inr r, db')
     \<and> Content (rr_Record r) = ''new'' \<and> Category (rr_Record r) = ''project''"
proof -
  obtain p where p: "sample_patch = Patch p" "pa_Content p = ''new''" "pa_Category p = []"
    "pa_TenantID p = ''ta''" "pa_MemoryID p = ''m1''" by (simp add: sample_patch_def)
  obtain r db' where run: "run_mutation doc_sdk (calm_env ''2'' 9000) sample_patch sample_db = (Inr r, db')"
    using sample_patch_runs by blast
  then have run': "PatchRecord doc_sdk (calm_env ''2'' 9000) p sample_db = (Inr r, db')" by (simp add: p(1))
  from patch_fields [OF run'] p have "Content (rr_Record r) = ''new'' \<and> Category (rr_Record r) = ''project''"
    by (auto simp: select_memory_record_def)
  with run show ?thesis by blast
qed

section \<open>Visibility\<close>

text \<open>Whether a record is hidden after a mutation, from its flags before: a specification of the
  flags that does not mention rows, versions or times.\<close>

fun hidden_after :: "mutation_call \<Rightarrow> MemoryRecord \<Rightarrow> bool" where
  "hidden_after (Patch _) old \<longleftrightarrow> Deleted old \<or> Disabled old"
| "hidden_after (Delete _) old \<longleftrightarrow> True"
| "hidden_after (Pin _) old \<longleftrightarrow> Deleted old \<or> Disabled old"
| "hidden_after (Disable i) old \<longleftrightarrow> Deleted old \<or> di_Disabled i"

lemma hidden_mutated_to:
  "hidden_after q old \<longleftrightarrow> Deleted (mutated_to ev (mutation_of q) old) \<or> Disabled (mutated_to ev (mutation_of q) old)"
  by (cases q) (simp_all add: mutated_to_def apply_patch_def apply_delete_def apply_pin_def apply_disable_def)

lemma stored_form_flags [simp]:
  "Deleted (stored_form r) = Deleted r" "Disabled (stored_form r) = Disabled r" "Pinned (stored_form r) = Pinned r"
  "MemoryID (stored_form r) = MemoryID r" "Version (stored_form r) = Version r"
  by (simp_all add: stored_form_def)

text \<open>C25: Visibility. After a mutation, \<open>GetRecord\<close> finds the record exactly when it is neither deleted nor
  disabled: a delete hides it for good (no mutation brings a deleted record back), disabling
  hides it until it is enabled, patching and pinning change nothing; and hidden or not,
  \<open>GetRecordIncludingHidden\<close> still returns it.\<close>

theorem mutation_visibility:
  assumes "rows_wf (records db)" and "run_mutation K ev q db = (Inr r, db')"
    and "fault ev0 CLoad = None" and "fault ev' CLoad = None"
  shows "\<exists>old. GetRecordIncludingHidden ev0 (mu_tenantID (mutation_of q)) (mu_memoryID (mutation_of q)) db = Inr old
    \<and> GetRecord ev' (mu_tenantID (mutation_of q)) (mu_memoryID (mutation_of q)) db'
       = (if hidden_after q old then Inl ErrNotFound else Inr (stored_form (rr_Record r)))
    \<and> GetRecordIncludingHidden ev' (mu_tenantID (mutation_of q)) (mu_memoryID (mutation_of q)) db'
       = Inr (stored_form (rr_Record r))"
proof -
  from assms(1,2) obtain w w' where
    w: "select_memory_record (mu_tenantID (mutation_of q)) (mu_memoryID (mutation_of q)) (records db) = Inr w"
      "rr_Record r = mutated_to ev (mutation_of q) (record_of_row w)"
      "select_memory_record (mu_tenantID (mutation_of q)) (mu_memoryID (mutation_of q)) (records db') = Inr w'"
      "record_of_row w' = stored_form (rr_Record r)"
    by (rule run_mutation_success) blast
  have "GetRecordIncludingHidden ev0 (mu_tenantID (mutation_of q)) (mu_memoryID (mutation_of q)) db
      = Inr (record_of_row w)"
    using w(1) assms(3) by (simp add: GetRecordIncludingHidden_def load_calm)
  moreover have "GetRecord ev' (mu_tenantID (mutation_of q)) (mu_memoryID (mutation_of q)) db'
      = (if hidden_after q (record_of_row w) then Inl ErrNotFound else Inr (stored_form (rr_Record r)))"
    using w(3,4) assms(4) by (simp add: GetRecord_def load_calm hidden_mutated_to [of q _ ev] w(2))
  ultimately show ?thesis
    using w(3,4) assms(4) by (simp add: GetRecordIncludingHidden_def load_calm)
qed

lemma mutation_visibility_witness:
  "\<exists>r db'. run_mutation doc_sdk (calm_env ''2'' 9000) sample_patch sample_db = (Inr r, db')
     \<and> GetRecord (calm_env ''3'' 1) ''ta'' ''m1'' db' = Inr (stored_form (rr_Record r))"
proof -
  obtain r db' where run: "run_mutation doc_sdk (calm_env ''2'' 9000) sample_patch sample_db = (Inr r, db')"
    using sample_patch_runs by blast
  from mutation_visibility [OF sample_rows_wf run, of "calm_env ''0'' 0" "calm_env ''3'' 1"]
  have "GetRecord (calm_env ''3'' 1) ''ta'' ''m1'' db' = Inr (stored_form (rr_Record r))"
    by (auto simp: sample_patch_def GetRecordIncludingHidden_def load_calm select_memory_record_def)
  with run show ?thesis by blast
qed

section \<open>Refusals, failures and races\<close>

text \<open>A mutation at the stored version is not refused: what can still fail is a constraint or the encoding.\<close>

lemma emit_error_wrapped: "emit K ev es key e db = Inl x \<Longrightarrow> \<exists>l y. x = Wrap l y"
  by (auto simp: emit_def Let_def bindE_eq_Inl mapErr_eq_Inl exec_def)

lemma found_no_refusal:
  assumes "\<forall>c. fault ev c = None" and "commit ev = Committed" and wf: "rows_wf (records db)"
    and "mu_tenantID (mutation_of q) \<noteq> []" and "mu_memoryID (mutation_of q) \<noteq> []" and "0 < mu_expectedVersion (mutation_of q)"
    and w: "select_memory_record (mu_tenantID (mutation_of q)) (mu_memoryID (mutation_of q)) (records db) = Inr w"
    and v: "mr_version w = mu_expectedVersion (mutation_of q)"
  shows "fst (run_mutation K ev q db) \<noteq> Inl ErrNotFound \<and> fst (run_mutation K ev q db) \<noteq> Inl ErrVersionConflict"
proof -
  let ?i = "mutation_of q"
  let ?rec = "mutated_to ev ?i (record_of_row w)"
  have one: "count_where (guarded (mu_tenantID ?i) (mu_memoryID ?i) (mu_expectedVersion ?i)) (records db) = 1"
    using wf select_memory_record_Inr [OF w] v by (intro count_where_1 [of mr_memory_id _ _ "mu_memoryID ?i" w])
      (simp_all add: rows_wf_def guarded_def)
  have "(\<exists>r d. mutateRecordTx K ev ?i db = Inr (r, d)) \<or> (\<exists>l y. mutateRecordTx K ev ?i db = Inl (Wrap l y))"
  proof (cases "update_mutated ?rec (mu_tenantID ?i) (mu_memoryID ?i) (mu_expectedVersion ?i) (records db)")
    case (Inl p)
    then show ?thesis using assms(1) w v
      by (simp add: mutateRecordTx_def load_calm mutate_loaded_def mutated_to_def Let_def exec_calm)
  next
    case (Inr x)
    obtain n recs where x: "x = (n, recs)" by fastforce
    have n: "n = 1" using Inr one by (auto simp: x update_mutated_def split: if_splits)
    show ?thesis
    proof (cases "emit K ev mutate_site None (event_of (mu_eventType ?i) ?rec) (db\<lparr>records := recs\<rparr>)")
      case (Inl y)
      with emit_error_wrapped [OF Inl] \<open>update_mutated _ _ _ _ _ = Inr x\<close> assms(1) w v n show ?thesis
        by (auto simp: x mutateRecordTx_def load_calm mutate_loaded_def mutated_to_def Let_def exec_calm)
    next
      case (Inr d)
      with \<open>update_mutated _ _ _ _ _ = Inr x\<close> assms(1) w v n show ?thesis
        by (simp add: x mutateRecordTx_def load_calm mutate_loaded_def mutated_to_def Let_def exec_calm)
    qed
  qed
  then show ?thesis using assms(1,2,4-6)
    by (auto simp: run_mutation_core mutateRecord_def mutation_of_event mutate_result_def run_tx_def)
qed

lemma no_row_absent:
  "select_memory_record t m rows = Inl e \<Longrightarrow> \<not> (\<exists>w\<in>set rows. mr_tenant_id w = t \<and> mr_memory_id w = m)"
  by (auto simp: select_memory_record_def find_None_iff split: option.splits)

text \<open>C24: Optimistic concurrency, the refusals. With no failing call, a mutation answers \<open>ErrNotFound\<close> exactly
  when an identifier is empty or, the expected version being positive, the tenant does not have the record
  (another tenant's record included); it answers \<open>ErrVersionConflict\<close> exactly when both identifiers are
  given and the expected version is not positive, or is not the stored version of the tenant's record. Neither
  changes anything, and at the stored version neither is answered.\<close>

theorem mutation_refused:
  fixes q :: mutation_call
  assumes "\<forall>c. fault ev c = None" and "commit ev = Committed" and "rows_wf (records db)"
  defines "t \<equiv> mu_tenantID (mutation_of q)" and "m \<equiv> mu_memoryID (mutation_of q)" and "v \<equiv> mu_expectedVersion (mutation_of q)"
  shows "(fst (run_mutation K ev q db) = Inl ErrNotFound \<longleftrightarrow>
       t = [] \<or> m = [] \<or> 0 < v \<and> \<not> (\<exists>w\<in>set (records db). mr_tenant_id w = t \<and> mr_memory_id w = m))
    \<and> (fst (run_mutation K ev q db) = Inl ErrVersionConflict \<longleftrightarrow>
       t \<noteq> [] \<and> m \<noteq> [] \<and> (v \<le> 0 \<or> (\<exists>w\<in>set (records db). mr_tenant_id w = t \<and> mr_memory_id w = m \<and> mr_version w \<noteq> v)))
    \<and> (fst (run_mutation K ev q db) \<in> {Inl ErrNotFound, Inl ErrVersionConflict} \<longrightarrow> snd (run_mutation K ev q db) = db)"
proof -
  let ?i = "mutation_of q"
  consider (empty) "t = [] \<or> m = []" | (version) "t \<noteq> []" "m \<noteq> []" "v \<le> 0"
    | (absent) e where "t \<noteq> []" "m \<noteq> []" "0 < v" "select_memory_record t m (records db) = Inl e"
    | (stale) w where "t \<noteq> []" "m \<noteq> []" "0 < v" "select_memory_record t m (records db) = Inr w" "mr_version w \<noteq> v"
    | (found) w where "t \<noteq> []" "m \<noteq> []" "0 < v" "select_memory_record t m (records db) = Inr w" "mr_version w = v"
    by (cases "select_memory_record t m (records db)") force+
  then show ?thesis
  proof cases
    case empty
    then have "run_mutation K ev q db = (Inl ErrNotFound, db)"
      by (auto simp: t_def m_def run_mutation_core mutateRecord_def mutation_of_event mutate_result_def)
    with empty show ?thesis by auto
  next
    case version
    then have "run_mutation K ev q db = (Inl ErrVersionConflict, db)"
      by (auto simp: t_def m_def v_def run_mutation_core mutateRecord_def mutation_of_event mutate_result_def)
    with version show ?thesis by auto
  next
    case absent
    then have "run_mutation K ev q db = (Inl ErrNotFound, db)"
      by (auto simp: t_def m_def v_def run_mutation_core mutateRecord_def mutation_of_event mutate_result_def run_tx_def
          mutateRecordTx_def load_calm assms(1))
    with absent no_row_absent [OF absent(4)] show ?thesis by auto
  next
    case stale
    then have "run_mutation K ev q db = (Inl ErrVersionConflict, db)"
      by (auto simp: t_def m_def v_def run_mutation_core mutateRecord_def mutation_of_event mutate_result_def run_tx_def
          mutateRecordTx_def mutate_loaded_def load_calm assms(1) record_of_row_def)
    with stale select_memory_record_Inr [OF stale(4)] show ?thesis by auto
  next
    case found
    have only: "mr_version x = v" if "x \<in> set (records db)" "mr_memory_id x = m" for x
      using that found(5) select_memory_record_Inr [OF found(4)] assms(3) distinct_key_inj [of mr_memory_id "records db" x w]
      by (simp add: rows_wf_def)
    have "fst (run_mutation K ev q db) \<noteq> Inl ErrNotFound \<and> fst (run_mutation K ev q db) \<noteq> Inl ErrVersionConflict"
      using found_no_refusal [OF assms(1-3) found(1-4) [unfolded t_def m_def v_def] found(5) [unfolded v_def], of K] .
    with found only select_memory_record_Inr [OF found(4)] show ?thesis by auto
  qed
qed

lemma mutation_refused_witness:
  "fst (run_mutation doc_sdk (calm_env ''2'' 9) (Delete \<lparr>de_TenantID = ''tb'', de_MemoryID = ''m1'', de_ExpectedVersion = 1\<rparr>) sample_db)
     = Inl ErrNotFound
   \<and> fst (run_mutation doc_sdk (calm_env ''2'' 9) (Delete \<lparr>de_TenantID = ''ta'', de_MemoryID = ''m1'', de_ExpectedVersion = 7\<rparr>) sample_db)
     = Inl ErrVersionConflict
   \<and> fst (run_mutation doc_sdk (calm_env ''2'' 9) (Delete \<lparr>de_TenantID = ''ta'', de_MemoryID = ''m1'', de_ExpectedVersion = 1\<rparr>) sample_db)
     \<notin> {Inl ErrNotFound, Inl ErrVersionConflict}"
  using mutation_refused [of "calm_env ''2'' 9" sample_db doc_sdk "Delete \<lparr>de_TenantID = ''tb'', de_MemoryID = ''m1'', de_ExpectedVersion = 1\<rparr>"]
    mutation_refused [of "calm_env ''2'' 9" sample_db doc_sdk "Delete \<lparr>de_TenantID = ''ta'', de_MemoryID = ''m1'', de_ExpectedVersion = 7\<rparr>"]
    mutation_refused [of "calm_env ''2'' 9" sample_db doc_sdk "Delete \<lparr>de_TenantID = ''ta'', de_MemoryID = ''m1'', de_ExpectedVersion = 1\<rparr>"]
    sample_rows_wf
  by simp

text \<open>Atomicity of the mutations. A mutation that reports an error has changed nothing, unless the
  server applied its commit and only the answer was lost; then the whole mutation is there.\<close>

theorem mutation_atomic:
  assumes "run_mutation K ev q db = (Inl e, db')"
  shows "db' = db \<or> (\<exists>t rec. commit ev = CommitUnknown t \<and> mutateRecordTx K ev (mutation_of q) db = Inr (rec, db')
      \<and> e = Wrap ''memory/postgres: commit mutation tx: '' (Pg (DriverFailure t)))"
proof -
  from assms have e: "mutateRecord K ev (mutation_of q) db = (Inl e, db')"
    by (auto simp: run_mutation_core mutate_result_def bindE_eq_Inl split: prod.splits)
  show ?thesis
  proof (cases "mu_tenantID (mutation_of q) = [] \<or> mu_memoryID (mutation_of q) = [] \<or> mu_expectedVersion (mutation_of q) \<le> 0")
    case True
    with e show ?thesis by (auto simp: mutateRecord_def mutation_of_event split: if_splits)
  next
    case False
    with e have "run_tx ev ''memory/postgres: begin mutation tx: ''
        (\<lambda>d. bindE (mutateRecordTx K ev (mutation_of q) d)
           (\<lambda>(rec, d'). Inr (''memory/postgres: commit mutation tx: '', rec, d'))) db = (Inl e, db')"
      by (simp add: mutateRecord_def mutation_of_event)
    from run_tx_Inl [OF this] show ?thesis by (auto simp: bindE_eq_Inr)
  qed
qed

lemma mutation_atomic_witness:
  "snd (run_mutation doc_sdk ((calm_env ''2'' 9000)\<lparr>fault := (\<lambda>c. if c = CInsertOutbox then Some ''down'' else None)\<rparr>)
     sample_patch sample_db) = sample_db"
proof -
  let ?ev = "(calm_env ''2'' 9000)\<lparr>fault := (\<lambda>c. if c = CInsertOutbox then Some ''down'' else None)\<rparr>"
  obtain x db' where run: "run_mutation doc_sdk ?ev sample_patch sample_db = (x, db')" by fastforce
  show ?thesis
  proof (cases x)
    case (Inl e)
    with mutation_atomic [of doc_sdk ?ev sample_patch sample_db e db'] run show ?thesis by simp
  next
    case (Inr r)
    with run have False
      by (auto simp: run_mutation_core mutate_result_Inr mutateRecordTx_Inr dest!: mutateRecord_Inr(1)
          elim!: mutate_loaded_Inr simp: emit_def mutate_site_def Let_def bindE_eq_Inr)
    then show ?thesis by simp
  qed
qed

text \<open>C5: One winner. Two clients mutate one record from the same version, whatever their operations and
  whatever each of them loaded before the other committed: once the first is through, the second
  can only fail, and, when its update itself does not fail, with \<open>ErrVersionConflict\<close>.\<close>

theorem mutation_one_winner:
  assumes "mutate_loaded K ev1 (mutation_of q1) current1 db = Inr (rec1, db1)"
    and "mu_tenantID (mutation_of q2) = mu_tenantID (mutation_of q1)"
    and "mu_memoryID (mutation_of q2) = mu_memoryID (mutation_of q1)"
    and "mu_expectedVersion (mutation_of q2) = mu_expectedVersion (mutation_of q1)"
  shows "mutate_loaded K ev2 (mutation_of q2) current2 db1 =
    Inl (if Version current2 \<noteq> mu_expectedVersion (mutation_of q2) then ErrVersionConflict
         else case fault ev2 CUpdateRecord of
            None \<Rightarrow> ErrVersionConflict
          | Some t \<Rightarrow> Wrap ''memory/postgres: update memory_record: '' (Pg (DriverFailure t)))"
proof -
  let ?i = "mutation_of q1"
  from assms(1) obtain recs where m: "Version current1 = mu_expectedVersion ?i"
    "rec1 = mutated_to ev1 ?i current1"
    "update_mutated rec1 (mu_tenantID ?i) (mu_memoryID ?i) (mu_expectedVersion ?i) (records db) = Inr (1, recs)"
    "records db1 = recs" by (rule mutate_loaded_Inr)
  have "Version rec1 \<noteq> mu_expectedVersion ?i"
    using m(1) i64_inc_neq [of "Version current1"] by (simp add: m(2) mutation_of_identity)
  from mutated.upd_spent_again [OF m(3) this]
  have "update_mutated cur (mu_tenantID ?i) (mu_memoryID ?i) (mu_expectedVersion ?i) (records db1) = Inr (0, records db1)" for cur
    by (simp add: m(4))
  then show ?thesis
    using assms(2-4) by (simp add: mutate_loaded_def Let_def exec_def driver_def split: option.split)
qed

lemma mutation_one_winner_witness:
  "\<exists>rec db1. mutate_loaded doc_sdk (calm_env ''2'' 9000) (mutation_of sample_patch) (record_of_row sample_row) sample_db
       = Inr (rec, db1)
     \<and> mutate_loaded doc_sdk (calm_env ''3'' 9001)
         (mutation_of (Delete \<lparr>de_TenantID = ''ta'', de_MemoryID = ''m1'', de_ExpectedVersion = 1\<rparr>))
         (record_of_row sample_row) db1 = Inl ErrVersionConflict"
proof -
  obtain r db' where "run_mutation doc_sdk (calm_env ''2'' 9000) sample_patch sample_db = (Inr r, db')"
    using sample_patch_runs by blast
  then obtain rec where w: "mutate_loaded doc_sdk (calm_env ''2'' 9000) (mutation_of sample_patch)
      (record_of_row sample_row) sample_db = Inr (rec, db')"
    by (auto simp: run_mutation_core mutate_result_Inr mutateRecordTx_Inr sample_patch_def select_memory_record_def
        dest!: mutateRecord_Inr(1))
  from mutation_one_winner [OF w, of "Delete \<lparr>de_TenantID = ''ta'', de_MemoryID = ''m1'', de_ExpectedVersion = 1\<rparr>"
      "calm_env ''3'' 9001" "record_of_row sample_row"] w
  show ?thesis by (auto simp: sample_patch_def)
qed

text \<open>Progress of the mutations. When nothing fails, the expected version is the stored one, the
  drawn identifiers are new, no event of that kind was appended for the next version, and a
  patched importance is in its range, the mutation succeeds.\<close>

theorem mutation_progress:
  assumes "marshals K" and "\<forall>c. fault ev c = None" and "commit ev = Committed"
    and "mu_tenantID (mutation_of q) \<noteq> []" and "mu_memoryID (mutation_of q) \<noteq> []"
    and "0 < mu_expectedVersion (mutation_of q)" and "rows_wf (records db)"
    and "select_memory_record (mu_tenantID (mutation_of q)) (mu_memoryID (mutation_of q)) (records db) = Inr w"
    and "mr_version w = mu_expectedVersion (mutation_of q)" and "unit_interval (mr_importance w)"
    and "case q of Patch p \<Rightarrow> float_zero (pa_Importance p) \<or> unit_interval (pa_Importance p) | _ \<Rightarrow> True"
    and "draws_fresh ev 1 2 db"
    and "(mr_memory_id w, i64_inc (mr_version w), mu_eventType (mutation_of q))
        \<notin> set (map (\<lambda>r. (me_memory_id r, me_version r, me_event_type r)) (events db))"
  shows "\<exists>r db'. run_mutation K ev q db = (Inr r, db')"
proof -
  have "unit_interval (Importance (mutated_to ev (mutation_of q) (record_of_row w)))"
    using assms(10,11) by (cases q)
      (auto simp: mutated_to_def apply_patch_def apply_delete_def apply_pin_def apply_disable_def)
  with assms show ?thesis by (intro mutation_ok)
qed

lemma mutation_progress_witness:
  "\<exists>r db'. run_mutation doc_sdk (calm_env ''2'' 9000)
     (Disable \<lparr>di_TenantID = ''ta'', di_MemoryID = ''m1'', di_ExpectedVersion = 1, di_Disabled = True\<rparr>) sample_db = (Inr r, db')"
  by (rule mutation_progress [where w = sample_row])
    (use sample_rows_wf in \<open>simp_all add: doc_sdk_marshals select_memory_record_def unit_interval_def draws_fresh_def calm_env_def
      disable_mutation_def i64_inc_def i64_max_def event_type_defs\<close>)

end
