(* ===== verification/DurableProps.thy ===== *)
theory DurableProps
  imports Durable MutateProps
begin

text \<open>
  Properties of the durable operations: access marks count once and survive concurrent mutations;
  promotions are version-checked, replayed under their key and told apart by their synthetic hash;
  a dedupe key keeps its first winner; and what a collision does.
\<close>

section \<open>Access marks\<close>

text \<open>Marking accesses. Every record of the tenant whose identifier is listed, however often, gets one
  more hit and the access time; every other row, column and table is left alone (no version, no
  event); and only the set of identifiers matters.\<close>

theorem mark_access_effect:
  assumes "MarkAccess ev inp db = (Inr u, db')"
  shows "db' = db\<lparr>records := map (\<lambda>r. if mr_tenant_id r = ma_TenantID inp \<and> mr_memory_id r \<in> set (ma_MemoryIDs inp)
        then r\<lparr>mr_last_access_at := Some (pg_time (ma_AccessedAt inp)), mr_hit_count := mr_hit_count r + 1\<rparr>
        else r) (records db)\<rparr>
    \<and> (\<forall>ids. set ids = set (ma_MemoryIDs inp) \<longrightarrow> MarkAccess ev (inp\<lparr>ma_MemoryIDs := ids\<rparr>) db = (Inr u, db'))"
proof (cases "ma_MemoryIDs inp = []")
  case True
  with assms show ?thesis by (auto simp: MarkAccess_def)
next
  case False
  have s: "set (unique_ids [] ids) = set ids" for ids using unique_ids [of "[]" ids] by simp
  have same: "MarkAccess ev (inp\<lparr>ma_MemoryIDs := ids\<rparr>) db = MarkAccess ev inp db"
    if "set ids = set (ma_MemoryIDs inp)" for ids
    using that False by (auto simp: MarkAccess_def update_access_def s)
  from assms False have "update_access (ma_AccessedAt inp) (ma_TenantID inp) (unique_ids [] (ma_MemoryIDs inp)) (records db)
      = Inr (records db')" "db' = db\<lparr>records := records db'\<rparr>"
    by (auto simp: MarkAccess_def auto_stmt_Inr bindE_eq_Inr)
  then have "db' = db\<lparr>records := map (\<lambda>r. if mr_tenant_id r = ma_TenantID inp \<and> mr_memory_id r \<in> set (ma_MemoryIDs inp)
        then r\<lparr>mr_last_access_at := Some (pg_time (ma_AccessedAt inp)), mr_hit_count := mr_hit_count r + 1\<rparr>
        else r) (records db)\<rparr>"
    by (simp add: update_access_def Let_def s update_where_def split: if_splits)
  with same assms show ?thesis by simp
qed

definition sample_mark :: MarkAccessInput where
  "sample_mark = \<lparr>ma_TenantID = ''ta'', ma_MemoryIDs = [''m1'', ''m1'', ''zz''], ma_AccessedAt = 7000\<rparr>"

lemma sample_mark_runs: "\<exists>db'. MarkAccess (calm_env ''9'' 7000) sample_mark sample_db = (Inr (), db')"
  by (simp add: MarkAccess_def sample_mark_def auto_stmt_calm update_access_def i64_max_def)

lemma mark_access_effect_witness:
  "\<exists>db'. MarkAccess (calm_env ''9'' 7000) sample_mark sample_db = (Inr (), db') \<and> map mr_hit_count (records db') = [1]"
proof -
  obtain db' where run: "MarkAccess (calm_env ''9'' 7000) sample_mark sample_db = (Inr (), db')"
    using sample_mark_runs by blast
  have "map mr_hit_count (records db') = [1]"
    unfolding conjunct1 [OF mark_access_effect [OF run]] by (simp add: sample_mark_def)
  with run show ?thesis by (intro exI conjI)
qed

text \<open>A sample run: a record is loaded, accessed by another client, then patched.\<close>

lemma sample_mark_then_patch:
  "\<exists>db1 rec db2. MarkAccess (calm_env ''9'' 7000) sample_mark sample_db = (Inr (), db1) \<and> events db1 = events sample_db
     \<and> mutate_loaded doc_sdk (calm_env ''2'' 9000) (mutation_of sample_patch) (record_of_row sample_row) db1 = Inr (rec, db2)"
proof -
  obtain db1 where run: "MarkAccess (calm_env ''9'' 7000) sample_mark sample_db = (Inr (), db1)"
    using sample_mark_runs by blast
  have rows: "records db1 = [sample_row\<lparr>mr_last_access_at := Some 7000, mr_hit_count := 1\<rparr>]" "events db1 = events sample_db"
    "outbox db1 = outbox sample_db"
    using run by (auto simp: MarkAccess_def auto_stmt_calm bindE_eq_Inr sample_mark_def update_access_def i64_max_def
        update_where_def pg_time_def)
  have "\<exists>rec db2. mutate_loaded doc_sdk (calm_env ''2'' 9000) (mutation_of sample_patch) (record_of_row sample_row) db1
      = Inr (rec, db2)"
    by (simp add: mutate_loaded_def sample_patch_def exec_calm update_mutated_def count_where_def guarded_def rows
        apply_patch_def float_zero_def unit_interval_def Let_def emit_def mutate_site_def doc_sdk_def encodeJSON_def
        insert_memory_event_def event_row_of_def insert_outbox_event_def new_outbox_row_def calm_env_def
        i64_inc_def i64_max_def)
  with run rows(2) show ?thesis by blast
qed

text \<open>No access is lost to a mutation. When an access is marked after a mutation has loaded the record
  and before it updates it, the mutation still succeeds and the row keeps the new hit and access
  time beside the mutation's columns; the record the mutation returns and publishes carries the
  old count.\<close>

theorem access_survives_mutation:
  assumes "rows_wf (records db)"
    and "select_memory_record (mu_tenantID (mutation_of q)) (mu_memoryID (mutation_of q)) (records db) = Inr w"
    and "MarkAccess evA inp db = (Inr u, db1)" and "ma_TenantID inp = mu_tenantID (mutation_of q)"
    and "mu_memoryID (mutation_of q) \<in> set (ma_MemoryIDs inp)"
    and "mutate_loaded K ev (mutation_of q) (record_of_row w) db1 = Inr (rec, db2)"
  shows "\<exists>w2. select_memory_record (mu_tenantID (mutation_of q)) (mu_memoryID (mutation_of q)) (records db2) = Inr w2
    \<and> mr_hit_count w2 = mr_hit_count w + 1 \<and> mr_last_access_at w2 = Some (pg_time (ma_AccessedAt inp))
    \<and> mr_version w2 = i64_inc (mr_version w) \<and> mr_content w2 = Content rec \<and> HitCount rec = mr_hit_count w"
proof -
  let ?i = "mutation_of q"
  let ?mark = "\<lambda>r. r\<lparr>mr_last_access_at := Some (pg_time (ma_AccessedAt inp)), mr_hit_count := mr_hit_count r + 1\<rparr>"
  from assms(6) obtain recs where m: "Version (record_of_row w) = mu_expectedVersion ?i"
    "rec = mutated_to ev ?i (record_of_row w)"
    "update_mutated rec (mu_tenantID ?i) (mu_memoryID ?i) (mu_expectedVersion ?i) (records db1) = Inr (1, recs)"
    "records db2 = recs" by (rule mutate_loaded_Inr)
  have s: "set (unique_ids [] ids) = set ids" for ids using unique_ids [of "[]" ids] by simp
  have nonempty: "ma_MemoryIDs inp \<noteq> []" using assms(5) by auto
  have rows: "records db1 = update_where (\<lambda>r. mr_tenant_id r = mu_tenantID ?i \<and> mr_memory_id r \<in> set (ma_MemoryIDs inp))
      ?mark (records db)"
    using assms(3,4) nonempty
    by (auto simp: MarkAccess_def auto_stmt_Inr bindE_eq_Inr update_access_def Let_def s split: if_splits)
  let ?q = "\<lambda>r. mr_tenant_id r = mu_tenantID ?i \<and> mr_memory_id r = mu_memoryID ?i"
  have "find ?q (records db) = Some w"
    using assms(2) by (simp add: select_memory_record_def split: option.splits)
  then have "find ?q (records db1) = Some (?mark w)"
    using assms(5) select_memory_record_Inr [OF assms(2)] by (simp add: rows find_update_where)
  moreover have g: "guarded (mu_tenantID ?i) (mu_memoryID ?i) (mu_expectedVersion ?i) (?mark w)"
    using m(1) select_memory_record_Inr [OF assms(2)] by (simp add: guarded_def)
  ultimately have "find ?q (records db2) = Some (set_mutated rec (?mark w))"
    using mutated.upd_find [OF m(3)] by (simp add: m(4))
  moreover have "frozen rec = frozen (record_of_row w)" "Version rec = i64_inc (mr_version w)"
    by (simp_all add: m(2) mutation_of_identity)
  ultimately show ?thesis
    by (simp add: select_memory_record_def set_mutated_def frozen_def record_of_row_def)
qed

lemma access_survives_mutation_witness:
  "\<exists>db1 rec db2. MarkAccess (calm_env ''9'' 7000) sample_mark sample_db = (Inr (), db1)
     \<and> mutate_loaded doc_sdk (calm_env ''2'' 9000) (mutation_of sample_patch) (record_of_row sample_row) db1 = Inr (rec, db2)
     \<and> HitCount rec = 0"
proof -
  obtain db1 rec db2 where run: "MarkAccess (calm_env ''9'' 7000) sample_mark sample_db = (Inr (), db1)"
    and mut: "mutate_loaded doc_sdk (calm_env ''2'' 9000) (mutation_of sample_patch) (record_of_row sample_row) db1 = Inr (rec, db2)"
    using sample_mark_then_patch by blast
  have "HitCount rec = 0"
    using access_survives_mutation [OF sample_rows_wf _ run _ _ mut]
    by (auto simp: sample_patch_def sample_mark_def select_memory_record_def)
  with run mut show ?thesis by blast
qed

section \<open>Promotion\<close>

lemma promoted_read_back:
  assumes "row_ok w" and "mr_memory_id w = m"
  shows "record_of_row (set_promoted (promoted_record K ev inp (record_of_row w)) w)
     = stored_form (promoted_record K ev inp (record_of_row w))"
    "row_ok (set_promoted (promoted_record K ev inp (record_of_row w)) w)"
  using assms by (auto simp: row_ok_def set_promoted_def promoted_record_def record_of_row_def stored_form_def
      nonNilTags_def)

lemma promote_replayed_not_created: "promote_lookup K ev inp db = Inr (Some r) \<Longrightarrow> \<not> rr_Created r"
  by (auto simp: promote_lookup_def promote_result_def bindE_eq_Inr split: if_splits sum.splits)

lemma promote_created:
  assumes "promoteTx K ev inp db = Inr (l, r, db')" and "rr_Created r"
  shows "\<exists>w. select_memory_record (pr_TenantID inp) (pr_MemoryID inp) (records db) = Inr w
    \<and> promote_loaded K ev inp (record_of_row w) db = Inr (l, r, db') \<and> promote_lookup K ev inp db = Inr None"
  using assms by (auto simp: promoteTx_Inr dest: promote_replayed_not_created)

text \<open>C30: Effect of a promotion. When a promotion reports that it was made, the stored record was at the
  expected version; the returned record is the stored one with the episodic kind, the source
  event, the next version and the update time, and the new state reads as it; one
  \<open>memory_promoted\<close> event and one pending outbox row for it are appended; and an idempotency row
  is saved exactly when a key was given. What the record's kind was plays no part.\<close>

theorem promote_effect:
  assumes "rows_wf (records db)" and "Promote K ev inp db = (Inr r, db')" and "rr_Created r"
  shows "\<exists>w w'. select_memory_record (pr_TenantID inp) (pr_MemoryID inp) (records db) = Inr w
    \<and> mr_version w = pr_ExpectedVersion inp \<and> 0 < pr_ExpectedVersion inp
    \<and> rr_Record r = (record_of_row w)\<lparr>Kind := RecordKindEpisodic K, ConsolidatedFromEventID := pr_SourceEventID inp,
          UpdatedAt := now ev, Version := i64_inc (mr_version w)\<rparr>
    \<and> rr_Version r = Version (rr_Record r) \<and> rr_MemoryID r = MemoryID (rr_Record r)
    \<and> select_memory_record (pr_TenantID inp) (pr_MemoryID inp) (records db') = Inr w'
    \<and> record_of_row w' = stored_form (rr_Record r)
    \<and> (\<exists>e ob. events db' = events db @ [e] \<and> outbox db' = outbox db @ [ob] \<and> me_memory_id e = rr_MemoryID r
        \<and> me_version e = rr_Version r \<and> me_event_type e = eventTypeMemoryPromoted \<and> oe_event_id ob = me_event_id e
        \<and> oe_status ob = outboxStatusPending)
    \<and> length (idems db') = length (idems db) + (if pr_IdempotencyKey inp = [] then 0 else 1)"
proof -
  from assms(2) obtain l where tx: "promoteTx K ev inp db = Inr (l, r, db')"
    by (auto simp: Promote_def run_tx_Inr split: if_splits)
  from promote_created [OF tx assms(3)] obtain w where
    w: "select_memory_record (pr_TenantID inp) (pr_MemoryID inp) (records db) = Inr w"
    and p: "promote_loaded K ev inp (record_of_row w) db = Inr (l, r, db')" by blast
  let ?cur = "promoted_record K ev inp (record_of_row w)"
  from p obtain recs db1 where
    s: "0 < pr_ExpectedVersion inp" "Version (record_of_row w) = pr_ExpectedVersion inp"
      "update_promoted ?cur (pr_TenantID inp) (pr_MemoryID inp) (pr_ExpectedVersion inp) (records db) = Inr (1, recs)"
      "emit K ev promote_site None (event_of eventTypeMemoryPromoted ?cur) (db\<lparr>records := recs\<rparr>) = Inr db1"
      "promote_save K ev inp ?cur db1 = Inr db'"
      "r = \<lparr>rr_MemoryID = MemoryID (record_of_row w), rr_Version = i64_inc (Version (record_of_row w)),
              rr_Record = ?cur, rr_Created = True\<rparr>" "records db' = recs" by (rule promote_loaded_Inr)
  note member = select_memory_record_Inr [OF w]
  have ok: "row_ok w" using assms(1) member by (simp add: rows_wf_def)
  have "guarded (pr_TenantID inp) (pr_MemoryID inp) (pr_ExpectedVersion inp) w"
    using member s(2) by (simp add: guarded_def)
  moreover have "find (\<lambda>x. mr_tenant_id x = pr_TenantID inp \<and> mr_memory_id x = pr_MemoryID inp) (records db) = Some w"
    using w by (simp add: select_memory_record_def split: option.splits)
  ultimately have w': "select_memory_record (pr_TenantID inp) (pr_MemoryID inp) (records db') = Inr (set_promoted ?cur w)"
    using promoted.upd_find [OF s(3)] by (simp add: s(7) select_memory_record_def)
  have em: "emitted K ev promote_site None (event_of eventTypeMemoryPromoted ?cur) (db\<lparr>records := recs\<rparr>) db1"
    using emit_Inr [OF s(4)] by simp
  have em': "\<exists>e ob. events db' = events db @ [e] \<and> outbox db' = outbox db @ [ob] \<and> me_memory_id e = mr_memory_id w
        \<and> me_version e = i64_inc (mr_version w) \<and> me_event_type e = eventTypeMemoryPromoted \<and> oe_event_id ob = me_event_id e
        \<and> oe_status ob = outboxStatusPending"
    using em promote_save_Inr [OF s(5)] by (auto simp: emitted_def event_row_of_def new_outbox_row_def)
  have id: "length (idems db') = length (idems db) + (if pr_IdempotencyKey inp = [] then 0 else 1)"
    using emittedD(2) [OF em] promote_save_Inr [OF s(5)] by (auto split: if_splits)
  show ?thesis
    using w w' promoted_read_back(1) [OF ok refl] s(1,2) em' id
    by (intro exI [of _ w] exI [of _ "set_promoted ?cur w"]) (simp add: s(6) promoted_record_def)
qed

definition sample_promote :: PromoteRecordInput where
  "sample_promote = \<lparr>pr_TenantID = ''ta'', pr_MemoryID = ''m1'', pr_ExpectedVersion = 1, pr_SourceEventID = ''e1'',
     pr_IdempotencyKey = ''pk''\<rparr>"

lemma sample_promote_runs:
  "\<exists>l r db'. promoteTx doc_sdk (calm_env ''2'' 9000) sample_promote sample_db = Inr (l, r, db') \<and> rr_Created r"
proof -
  have none: "select_idempotency ''ta'' ''pk'' (idems sample_db) = Inl NoRows"
    using find_no_key [of "(''ta'', ''pk'')" idem_key "idems sample_db"] by (simp add: select_idempotency_def)
  have key: "idem_key \<lparr>mi_tenant_id = t, mi_idempotency_key = k, mi_request_hash = h, mi_memory_id = m,
     mi_response_snapshot = raw, mi_created_at = c, mi_expires_at = x\<rparr> = (t, k)" for t k h m c x and raw :: doc
    by (simp add: idem_key_def)
  show ?thesis
    by (simp add: promoteTx_def promote_lookup_def none key driver_def isNoRows_def sample_promote_def load_calm
        select_memory_record_def promote_loaded_def exec_calm update_promoted_def count_where_def guarded_def
        kinds_v3_def Let_def emit_def promote_site_def doc_sdk_def encodeJSON_def insert_memory_event_def
        event_row_of_def insert_outbox_event_def new_outbox_row_def calm_env_def promote_save_def
        insert_idempotency_def i64_inc_def i64_max_def)
qed

lemma sample_promote_commits:
  obtains r db' where "Promote doc_sdk (calm_env ''2'' 9000) sample_promote sample_db = (Inr r, db')" and "rr_Created r"
    and "\<exists>l. promoteTx doc_sdk (calm_env ''2'' 9000) sample_promote sample_db = Inr (l, r, db')"
proof -
  from sample_promote_runs obtain l r db' where
    p: "promoteTx doc_sdk (calm_env ''2'' 9000) sample_promote sample_db = Inr (l, r, db')" "rr_Created r" by blast
  then have "Promote doc_sdk (calm_env ''2'' 9000) sample_promote sample_db = (Inr r, db')"
    by (simp add: Promote_def run_tx_def sample_promote_def)
  with p that show thesis by blast
qed

lemma promote_effect_witness:
  "\<exists>r db'. Promote doc_sdk (calm_env ''2'' 9000) sample_promote sample_db = (Inr r, db') \<and> rr_Version r = 2
     \<and> Kind (rr_Record r) = ''episodic''"
proof -
  obtain r db' where run: "Promote doc_sdk (calm_env ''2'' 9000) sample_promote sample_db = (Inr r, db')" "rr_Created r"
    by (rule sample_promote_commits)
  from promote_effect [OF sample_rows_wf run] have "rr_Version r = 2 \<and> Kind (rr_Record r) = ''episodic''"
    by (auto simp: sample_promote_def select_memory_record_def doc_sdk_def i64_inc_def i64_max_def)
  with run(1) show ?thesis by (intro exI [of _ r] exI [of _ db']) simp
qed

text \<open>What a committed promotion leaves under its key, and what a promotion does that finds an entry.\<close>

lemma promoted_entry:
  assumes "promote_loaded K ev inp cur db = Inr (l, r, db')" and "sdk_ok K" and "pr_IdempotencyKey inp \<noteq> []"
  shows "\<exists>row snap. select_idempotency (pr_TenantID inp) (pr_IdempotencyKey inp) (idems db') = Inr row
    \<and> mi_request_hash row = promote_hash inp \<and> unmarshal_entry K (mi_response_snapshot row) = Some snap
    \<and> promote_result False (ie_Response snap) = r\<lparr>rr_Created := False\<rparr>"
proof -
  let ?cur = "promoted_record K ev inp cur"
  from assms(1) obtain db1 where s: "promote_save K ev inp ?cur db1 = Inr db'"
    and r: "r = \<lparr>rr_MemoryID = MemoryID cur, rr_Version = i64_inc (Version cur), rr_Record = ?cur, rr_Created = True\<rparr>"
    by (rule promote_loaded_Inr)
  from promote_save_Inr [OF s] assms(3) obtain raw entry where
    i: "(pr_TenantID inp, pr_IdempotencyKey inp) \<notin> set (map idem_key (idems db1))" "marshal_entry K entry = Some raw"
      "ie_Response entry = \<lparr>wr_MemoryID = MemoryID ?cur, wr_Version = Version ?cur, wr_Created = True, wr_Record = ?cur\<rparr>"
      "idems db' = idems db1 @ [\<lparr>mi_tenant_id = pr_TenantID inp, mi_idempotency_key = pr_IdempotencyKey inp,
                    mi_request_hash = promote_hash inp, mi_memory_id = Some (MemoryID ?cur),
                    mi_response_snapshot = raw, mi_created_at = db_now ev, mi_expires_at = None\<rparr>]" by auto
  have u: "unmarshal_entry K raw = Some entry" using assms(2) i(2) by (simp add: sdk_ok_def)
  show ?thesis
    using find_no_key [OF i(1)] u i(3)
    by (simp add: i(4) select_idempotency_def find_append idem_key_def promote_result_def r)
qed

lemma promote_of_row:
  assumes "select_idempotency (pr_TenantID inp) (pr_IdempotencyKey inp) (idems db) = Inr row"
    and "unmarshal_entry K (mi_response_snapshot row) = Some snap"
    and "pr_IdempotencyKey inp \<noteq> []" and "pr_TenantID inp \<noteq> []" and "pr_MemoryID inp \<noteq> []"
  shows "snd (Promote K ev inp db) = db
    \<and> (fault ev CBegin = None \<and> fault ev CLookup = None \<and> commit ev = Committed \<longrightarrow>
        fst (Promote K ev inp db) = (if mi_request_hash row = promote_hash inp
          then Inr (promote_result False (ie_Response snap)) else Inl ErrIdempotencyConflict))"
  using assms
  by (auto simp: Promote_def run_tx_def promoteTx_def promote_lookup_def driver_def decodeJSON_def isNoRows_def
      mapErr_def bindE_def split: option.split commit_outcome.split sum.split)

text \<open>Replay of a promotion. Once a promotion under a key is in the tables, whether or not its client heard
  so, no later promotion under that key touches the database; one with the same synthetic hash
  that goes through returns the stored record and version, marked as not created now; one with
  another hash is \<open>ErrIdempotencyConflict\<close>.\<close>

theorem promote_replay:
  assumes "sdk_ok K" and tx: "promoteTx K ev inp db = Inr (l, r, db')" and "rr_Created r"
    and key: "pr_IdempotencyKey inp \<noteq> []" and "pr_TenantID inp \<noteq> []"
    and "pr_TenantID inp' = pr_TenantID inp" and "pr_IdempotencyKey inp' = pr_IdempotencyKey inp"
    and "pr_MemoryID inp' \<noteq> []"
  shows "snd (Promote K ev' inp' db') = db'
    \<and> (fault ev' CBegin = None \<and> fault ev' CLookup = None \<and> commit ev' = Committed \<longrightarrow>
        Promote K ev' inp' db' =
          (if promote_hash inp' = promote_hash inp then Inr (r\<lparr>rr_Created := False\<rparr>) else Inl ErrIdempotencyConflict, db'))"
proof -
  from promote_created [OF tx assms(3)] obtain w where
    p: "promote_loaded K ev inp (record_of_row w) db = Inr (l, r, db')" by blast
  from promoted_entry [OF p assms(1) key] obtain row snap where
    e: "select_idempotency (pr_TenantID inp) (pr_IdempotencyKey inp) (idems db') = Inr row"
      "mi_request_hash row = promote_hash inp" "unmarshal_entry K (mi_response_snapshot row) = Some snap"
      "promote_result False (ie_Response snap) = r\<lparr>rr_Created := False\<rparr>" by blast
  have "select_idempotency (pr_TenantID inp') (pr_IdempotencyKey inp') (idems db') = Inr row" using e(1) assms(6,7) by simp
  from promote_of_row [OF this e(3), of ev'] show ?thesis
    using key assms(5-8) unfolding e(2,4) by (auto simp: prod_eq_iff)
qed

lemma promote_replay_witness:
  "\<exists>r db'. Promote doc_sdk (calm_env ''2'' 9000) sample_promote sample_db = (Inr r, db')
     \<and> Promote doc_sdk (calm_env ''3'' 9900) sample_promote db' = (Inr (r\<lparr>rr_Created := False\<rparr>), db')
     \<and> Promote doc_sdk (calm_env ''4'' 9900) (sample_promote\<lparr>pr_ExpectedVersion := 2\<rparr>) db' = (Inl ErrIdempotencyConflict, db')"
proof -
  obtain r db' where run: "Promote doc_sdk (calm_env ''2'' 9000) sample_promote sample_db = (Inr r, db')" "rr_Created r"
    and "\<exists>l. promoteTx doc_sdk (calm_env ''2'' 9000) sample_promote sample_db = Inr (l, r, db')"
    by (rule sample_promote_commits)
  then obtain l where tx: "promoteTx doc_sdk (calm_env ''2'' 9000) sample_promote sample_db = Inr (l, r, db')" by blast
  have "promote_hash (sample_promote\<lparr>pr_ExpectedVersion := 2\<rparr>) \<noteq> promote_hash sample_promote"
    by (simp add: promote_hash_def go_itoa_inj sample_promote_def)
  with promote_replay [OF doc_sdk_ok tx run(2), of sample_promote "calm_env ''3'' 9900"]
    promote_replay [OF doc_sdk_ok tx run(2), of "sample_promote\<lparr>pr_ExpectedVersion := 2\<rparr>" "calm_env ''4'' 9900"] run(1)
  show ?thesis by (intro exI [of _ r] exI [of _ db'] conjI) (simp_all add: sample_promote_def)
qed





end
