(* ===== verification/DedupeProps.thy ===== *)
theory DedupeProps
  imports DurableProps "HOL-Library.Multiset"
begin

text \<open>
  Properties of \<open>ResolveDedupe\<close> and \<open>ListSessionWorking\<close>.
\<close>

section \<open>The winner of a key\<close>

lemma ResolveDedupe_Inr:
  "ResolveDedupe K ev inp db = (Inr r, db') \<longleftrightarrow>
     fault ev CBegin = None \<and> commit ev = Committed \<and> (\<exists>l. dedupeTx K ev inp db = Inr (l, r, db'))"
  by (auto simp: ResolveDedupe_def run_tx_Inr)

lemma select_dedupe_Inr:
  "select_dedupe t k rows = Inr w \<Longrightarrow> (t, k) \<in> set (map dedupe_key rows)"
  by (auto simp: select_dedupe_def image_iff dest!: find_SomeD split: option.splits) metis

lemma emit_frame:
  "emit K ev es key e db = Inr db' \<Longrightarrow> records db' = records db \<and> idems db' = idems db \<and> dedupes db' = dedupes db"
  by (auto simp: emit_def Let_def bindE_eq_Inr)

lemma mutateRecordTx_frame:
  "mutateRecordTx K ev inp db = Inr (rec, db1) \<Longrightarrow> dedupes db1 = dedupes db \<and> idems db1 = idems db"
  by (auto simp: mutateRecordTx_Inr elim!: mutate_loaded_Inr dest!: emit_frame)

text \<open>One winner per key. The first resolution of a key makes its candidate the winner and changes
  nothing but the index; every later one that succeeds, for whatever candidate, reports that
  winner as a collision and leaves the index alone.\<close>

theorem dedupe_first_wins:
  assumes "ResolveDedupe K ev inp db = (Inr r, db')"
  shows "case select_dedupe (rd_TenantID inp) (rd_DedupeKey inp) (dedupes db) of
      Inl _ \<Rightarrow> r = \<lparr>dr_WinnerID = MemoryID (rd_Candidate inp), dr_Action = DedupeNoCollision\<rparr>
        \<and> db'\<lparr>dedupes := dedupes db\<rparr> = db
        \<and> select_dedupe (rd_TenantID inp) (rd_DedupeKey inp) (dedupes db') = Inr (MemoryID (rd_Candidate inp))
        \<and> (\<forall>t k. (t, k) \<noteq> (rd_TenantID inp, rd_DedupeKey inp) \<longrightarrow>
             select_dedupe t k (dedupes db') = select_dedupe t k (dedupes db))
    | Inr w \<Rightarrow> dr_WinnerID r = w \<and> dr_Action r \<noteq> DedupeNoCollision \<and> dedupes db' = dedupes db"
proof -
  from assms obtain l where tx: "dedupeTx K ev inp db = Inr (l, r, db')" by (auto simp: ResolveDedupe_Inr)
  show ?thesis
  proof (cases "select_dedupe (rd_TenantID inp) (rd_DedupeKey inp) (dedupes db)")
    case (Inl e)
    then have none: "find (\<lambda>r. dedupe_key r = (rd_TenantID inp, rd_DedupeKey inp)) (dedupes db) = None"
      by (simp add: select_dedupe_def split: option.splits)
    then have "(rd_TenantID inp, rd_DedupeKey inp) \<notin> set (map dedupe_key (dedupes db))"
      by (auto simp: find_None)
    with tx none Inl show ?thesis
      by (auto simp: dedupeTx_Inr select_dedupe_def find_append dedupe_key_def split: option.split)
  next
    case (Inr w)
    with tx select_dedupe_Inr [OF Inr] have "dedupe_collide K ev inp w db = Inr (l, r, db')"
      by (auto simp: dedupeTx_Inr)
    then obtain rec db1 winner where c: "mutateRecordTx K ev (loser_mutation inp) db = Inr (rec, db1)"
      "emit K ev collapse_site None (collapse_event K inp winner) db1 = Inr db'"
      "r = \<lparr>dr_WinnerID = w, dr_Action = (if Pinned winner then DedupeCollapsedByPin else DedupeMergedExisting)\<rparr>"
      by (auto simp: dedupe_collide_Inr)
    with mutateRecordTx_frame [OF c(1)] emit_frame [OF c(2)] Inr show ?thesis by simp
  qed
qed

definition resolve :: "string \<Rightarrow> int \<Rightarrow> ResolveDedupeInput" where
  "resolve m v = \<lparr>rd_TenantID = ''ta'', rd_DedupeKey = ''dk'', rd_Candidate = sample_record\<lparr>MemoryID := m, Version := v\<rparr>\<rparr>"

lemma resolve_simps [simp]:
  "rd_TenantID (resolve m v) = ''ta''" "rd_DedupeKey (resolve m v) = ''dk''"
  "MemoryID (rd_Candidate (resolve m v)) = m" "Version (rd_Candidate (resolve m v)) = v"
  by (simp_all add: resolve_def)

lemma resolve_first:
  assumes "(''ta'', ''dk'') \<notin> set (map dedupe_key (dedupes db))"
  shows "ResolveDedupe K (calm_env s t) (resolve m v) db =
    (Inr \<lparr>dr_WinnerID = m, dr_Action = DedupeNoCollision\<rparr>,
     db\<lparr>dedupes := dedupes db @ [\<lparr>dd_tenant_id = ''ta'', dd_dedupe_key = ''dk'', dd_winner_memory_id = m,
        dd_created_at = pg_time t\<rparr>]\<rparr>)"
proof -
  have "dedupeTx K (calm_env s t) (resolve m v) db = Inr (''memory/postgres: commit dedupe first-writer tx: '',
     \<lparr>dr_WinnerID = m, dr_Action = DedupeNoCollision\<rparr>,
     db\<lparr>dedupes := dedupes db @ [\<lparr>dd_tenant_id = ''ta'', dd_dedupe_key = ''dk'', dd_winner_memory_id = m,
        dd_created_at = pg_time t\<rparr>]\<rparr>)"
    using assms by (simp only: dedupeTx_Inr) simp
  then show ?thesis by (simp add: ResolveDedupe_def run_tx_def)
qed

lemma dedupe_first_wins_witness:
  "\<exists>r db'. ResolveDedupe doc_sdk (calm_env ''2'' 9) (resolve ''m1'' 1) sample_db = (Inr r, db')
     \<and> dr_WinnerID r = ''m1'' \<and> select_dedupe ''ta'' ''dk'' (dedupes db') = Inr ''m1''"
proof -
  obtain r db' where run: "ResolveDedupe doc_sdk (calm_env ''2'' 9) (resolve ''m1'' 1) sample_db = (Inr r, db')"
    by (simp add: resolve_first)
  from dedupe_first_wins [OF run] have "dr_WinnerID r = ''m1'' \<and> select_dedupe ''ta'' ''dk'' (dedupes db') = Inr ''m1''"
    by (simp add: select_dedupe_def)
  with run show ?thesis by (intro exI [of _ r] exI [of _ db']) simp
qed

section \<open>Collisions\<close>

lemma loser_mutation_simps [simp]:
  "mu_tenantID (loser_mutation inp) = rd_TenantID inp" "mu_memoryID (loser_mutation inp) = MemoryID (rd_Candidate inp)"
  "mu_expectedVersion (loser_mutation inp) = Version (rd_Candidate inp)"
  "mu_eventType (loser_mutation inp) = eventTypeMemoryDeleted" "mu_apply (loser_mutation inp) = apply_delete"
  by (simp_all add: loser_mutation_def)

lemma dedupe_taken:
  assumes "select_dedupe (rd_TenantID inp) (rd_DedupeKey inp) (dedupes db) = Inr wid"
  shows "dedupeTx K ev inp db = Inr x \<longleftrightarrow>
    fault ev CClaimDedupe = None \<and> fault ev CSelectDedupe = None \<and> dedupe_collide K ev inp wid db = Inr x"
  using assms select_dedupe_Inr [OF assms] by (auto simp: dedupeTx_Inr)

lemma loser_deleted:
  "record_of_row lw = stored_form (mutated_to ev (loser_mutation inp) r) \<Longrightarrow> mr_deleted lw"
  by (drule arg_cong [of _ _ Deleted]) (simp add: mutated_to_def apply_delete_def)

text \<open>Everything a successful collision did.\<close>

lemma collision:
  assumes wf: "rows_wf (records db)"
    and run: "dedupe_collide K ev inp wid db = Inr (l, r, db')"
  obtains lw lw' winner db1 where
      "select_memory_record (rd_TenantID inp) (MemoryID (rd_Candidate inp)) (records db) = Inr lw"
    and "mr_version lw = Version (rd_Candidate inp)"
    and "select_memory_record (rd_TenantID inp) (MemoryID (rd_Candidate inp)) (records db') = Inr lw'"
    and "record_of_row lw' = stored_form (mutated_to ev (loser_mutation inp) (record_of_row lw))"
    and "rows_wf (records db')"
    and "\<And>x. x \<in> set (records db) \<Longrightarrow> mr_memory_id x \<noteq> MemoryID (rd_Candidate inp) \<Longrightarrow> x \<in> set (records db')"
    and "map mr_memory_id (records db') = map mr_memory_id (records db)"
    and "select_memory_record (rd_TenantID inp) wid (records db') = Inr winner"
    and "emitted K ev mutate_site None (event_of eventTypeMemoryDeleted (mutated_to ev (loser_mutation inp) (record_of_row lw)))
           (db\<lparr>records := records db'\<rparr>) db1"
    and "emit K ev collapse_site None (collapse_event K inp (record_of_row winner)) db1 = Inr db'"
    and "r = \<lparr>dr_WinnerID = wid, dr_Action = (if mr_pinned winner then DedupeCollapsedByPin else DedupeMergedExisting)\<rparr>"
proof -
  from run obtain rec db1 winner where c: "mutateRecordTx K ev (loser_mutation inp) db = Inr (rec, db1)"
      "select_memory_record (rd_TenantID inp) wid (records db1) = Inr winner"
      "emit K ev collapse_site None (collapse_event K inp (record_of_row winner)) db1 = Inr db'"
      "r = \<lparr>dr_WinnerID = wid, dr_Action = (if mr_pinned winner then DedupeCollapsedByPin else DedupeMergedExisting)\<rparr>"
    by (auto simp: dedupe_collide_Inr load_Inr)
  have rows: "records db' = records db1" using emit_frame [OF c(3)] by simp
  have em: "rec = mutated_to ev (loser_mutation inp) (record_of_row lw) \<Longrightarrow> emitted K ev mutate_site None
      (event_of eventTypeMemoryDeleted (mutated_to ev (loser_mutation inp) (record_of_row lw))) (db\<lparr>records := records db'\<rparr>) db1" for lw
    using c(1) by (auto simp: mutateRecordTx_Inr rows elim!: mutate_loaded_Inr dest!: emit_Inr)
  show thesis
    by (rule delete.success [OF _ wf c(1)]) (use c em in \<open>auto simp: rows intro!: that\<close>)
qed

lemma dedupe_frame:
  assumes "select_dedupe (rd_TenantID inp) (rd_DedupeKey inp) (dedupes db) = Inr wid"
    and "ResolveDedupe K ev inp db = (Inr r, db')"
  shows "dedupes db' = dedupes db"
  using assms by (auto simp: ResolveDedupe_Inr dedupe_taken dedupe_collide_Inr
      dest!: mutateRecordTx_frame emit_frame)

text \<open>C29: Effect of a collision. The candidate, at the version given, is soft-deleted and becomes
  invisible; the winner (when it is another record) keeps its row and is loaded for the answer,
  which says whether it is pinned; two events and two pending outbox rows are appended together:
  \<open>memory_deleted\<close> for the candidate, then \<open>memory_dedupe_collapsed\<close> for the winner at its
  version, naming the candidate in its metadata; all other rows are kept.\<close>

theorem dedupe_collision_effect:
  assumes "rows_wf (records db)"
    and "select_dedupe (rd_TenantID inp) (rd_DedupeKey inp) (dedupes db) = Inr wid"
    and "wid \<noteq> MemoryID (rd_Candidate inp)" and "ResolveDedupe K ev inp db = (Inr r, db')"
  shows "\<exists>lw winner e1 e2 ob1 ob2.
      select_memory_record (rd_TenantID inp) (MemoryID (rd_Candidate inp)) (records db) = Inr lw
    \<and> mr_version lw = Version (rd_Candidate inp)
    \<and> (\<forall>ev'. fault ev' CLoad = None \<longrightarrow>
         GetRecord ev' (rd_TenantID inp) (MemoryID (rd_Candidate inp)) db' = Inl ErrNotFound)
    \<and> winner \<in> set (records db) \<and> mr_memory_id winner = wid \<and> mr_tenant_id winner = rd_TenantID inp
    \<and> (\<forall>x\<in>set (records db). mr_memory_id x \<noteq> MemoryID (rd_Candidate inp) \<longrightarrow> x \<in> set (records db'))
    \<and> r = \<lparr>dr_WinnerID = wid, dr_Action = (if mr_pinned winner then DedupeCollapsedByPin else DedupeMergedExisting)\<rparr>
    \<and> events db' = events db @ [e1, e2] \<and> outbox db' = outbox db @ [ob1, ob2]
    \<and> me_event_type e1 = eventTypeMemoryDeleted \<and> me_memory_id e1 = MemoryID (rd_Candidate inp)
    \<and> me_version e1 = i64_inc (mr_version lw)
    \<and> me_event_type e2 = eventTypeMemoryDedupeCollapsed \<and> me_memory_id e2 = wid
    \<and> me_version e2 = mr_version winner
    \<and> marshal_event K (collapse_event K inp (record_of_row winner)) = Some (me_payload e2)
    \<and> oe_event_id ob1 = me_event_id e1 \<and> oe_event_id ob2 = me_event_id e2
    \<and> oe_status ob1 = outboxStatusPending \<and> oe_status ob2 = outboxStatusPending"
proof -
  from assms(2,4) obtain l where run: "dedupe_collide K ev inp wid db = Inr (l, r, db')"
    by (auto simp: ResolveDedupe_Inr dedupe_taken)
  obtain lw lw' winner db1 where
      l: "select_memory_record (rd_TenantID inp) (MemoryID (rd_Candidate inp)) (records db) = Inr lw"
      "mr_version lw = Version (rd_Candidate inp)"
      "select_memory_record (rd_TenantID inp) (MemoryID (rd_Candidate inp)) (records db') = Inr lw'"
      "record_of_row lw' = stored_form (mutated_to ev (loser_mutation inp) (record_of_row lw))"
      "rows_wf (records db')"
      "\<And>x. x \<in> set (records db) \<Longrightarrow> mr_memory_id x \<noteq> MemoryID (rd_Candidate inp) \<Longrightarrow> x \<in> set (records db')"
      "map mr_memory_id (records db') = map mr_memory_id (records db)"
      "select_memory_record (rd_TenantID inp) wid (records db') = Inr winner"
      "emitted K ev mutate_site None (event_of eventTypeMemoryDeleted (mutated_to ev (loser_mutation inp) (record_of_row lw)))
           (db\<lparr>records := records db'\<rparr>) db1"
      "emit K ev collapse_site None (collapse_event K inp (record_of_row winner)) db1 = Inr db'"
      "r = \<lparr>dr_WinnerID = wid, dr_Action = (if mr_pinned winner then DedupeCollapsedByPin else DedupeMergedExisting)\<rparr>"
    by (rule collision [OF assms(1) run]) (rule that; assumption)
  have hidden: "GetRecord ev' (rd_TenantID inp) (MemoryID (rd_Candidate inp)) db' = Inl ErrNotFound"
    if "fault ev' CLoad = None" for ev'
    using that l(3) loser_deleted [OF l(4)] by (simp add: GetRecord_def load_calm)
  note w = select_memory_record_Inr [OF l(8)]
  have "wid \<in> set (map mr_memory_id (records db))" using w unfolding l(7) [symmetric] by auto
  then obtain x where x: "x \<in> set (records db)" "mr_memory_id x = wid" by auto
  then have "x = winner" using l(5,6) w assms(3) distinct_key_inj [of mr_memory_id "records db'" x winner]
    by (simp add: rows_wf_def)
  with x w have "winner \<in> set (records db)" by simp
  moreover from l(9) obtain e1 ob1 where e1: "events db1 = events db @ [e1]" "outbox db1 = outbox db @ [ob1]"
    "me_event_type e1 = eventTypeMemoryDeleted" "me_memory_id e1 = MemoryID (mutated_to ev (loser_mutation inp) (record_of_row lw))"
    "me_version e1 = Version (mutated_to ev (loser_mutation inp) (record_of_row lw))" "oe_event_id ob1 = me_event_id e1"
    "oe_status ob1 = outboxStatusPending" by (rule emittedE) simp
  moreover from conjunct1 [OF emit_Inr [OF l(10)]] obtain e2 ob2 where
    e2: "events db' = events db1 @ [e2]" "outbox db' = outbox db1 @ [ob2]"
    "me_event_type e2 = eventTypeMemoryDedupeCollapsed" "me_memory_id e2 = mr_memory_id winner"
    "me_version e2 = mr_version winner" "oe_event_id ob2 = me_event_id e2" "oe_status ob2 = outboxStatusPending"
    "marshal_event K (collapse_event K inp (record_of_row winner)) = Some (me_payload e2)"
    by (rule emittedE) simp
  ultimately show ?thesis
    using l(1,2,6,11) hidden w select_memory_record_Inr [OF l(1)]
    by (intro exI [of _ lw] exI [of _ winner] exI [of _ e1] exI [of _ e2] exI [of _ ob1] exI [of _ ob2])
      (simp add: delete.identity_after)
qed

text \<open>Three records and a resolved key.\<close>

definition dup_db :: "doc db" where
  "dup_db = sample_db\<lparr>records := [sample_row, sample_row\<lparr>mr_memory_id := ''m2''\<rparr>, sample_row\<lparr>mr_memory_id := ''m3''\<rparr>],
     dedupes := [\<lparr>dd_tenant_id = ''ta'', dd_dedupe_key = ''dk'', dd_winner_memory_id = ''m1'', dd_created_at = 0\<rparr>]\<rparr>"

lemma dup_db_simps [simp]:
  "records dup_db = [sample_row, sample_row\<lparr>mr_memory_id := ''m2''\<rparr>, sample_row\<lparr>mr_memory_id := ''m3''\<rparr>]"
  "select_dedupe ''ta'' ''dk'' (dedupes dup_db) = Inr ''m1''" "events dup_db = events sample_db" "outbox dup_db = outbox sample_db"
  by (simp_all add: dup_db_def select_dedupe_def dedupe_key_def)

lemma dup_rows_wf: "rows_wf (records dup_db)"
  using sample_rows_wf by (simp add: rows_wf_def row_ok_def)

lemma dup_collides:
  assumes "m \<in> {''m1'', ''m2''}"
  shows "\<exists>r db'. ResolveDedupe doc_sdk (calm_env ''5'' 90000) (resolve m 1) dup_db = (Inr r, db')"
proof -
  have taken: "(''ta'', ''dk'') \<in> set (map dedupe_key (dedupes dup_db))" by (rule select_dedupe_Inr [of _ _ _ "''m1''"]) simp
  have "\<exists>rec db1. mutateRecordTx doc_sdk (calm_env ''5'' 90000) (loser_mutation (resolve m 1)) dup_db = Inr (rec, db1)
     \<and> (\<exists>w. select_memory_record ''ta'' ''m1'' (records db1) = Inr w \<and>
        (\<exists>db'. emit doc_sdk (calm_env ''5'' 90000) collapse_site None
          (collapse_event doc_sdk (resolve m 1) (record_of_row w)) db1 = Inr db'))"
    using assms
    by (elim insertE) (simp_all add: mutateRecordTx_def load_calm select_memory_record_def mutate_loaded_def exec_calm
        update_mutated_def count_where_def guarded_def apply_delete_def unit_interval_def Let_def emit_def mutate_site_def
        doc_sdk_def encodeJSON_def insert_memory_event_def event_row_of_def insert_outbox_event_def new_outbox_row_def
        calm_env_def i64_inc_def i64_max_def update_where_def set_mutated_def collapse_site_def event_type_defs)
  then obtain l r db' where "dedupe_collide doc_sdk (calm_env ''5'' 90000) (resolve m 1) ''m1'' dup_db = Inr (l, r, db')"
    by (fastforce simp: dedupe_collide_Inr load_Inr)
  with taken have "dedupeTx doc_sdk (calm_env ''5'' 90000) (resolve m 1) dup_db = Inr (l, r, db')"
    by (simp add: dedupeTx_Inr)
  then show ?thesis by (simp add: ResolveDedupe_def run_tx_def)
qed

lemma dedupe_collision_effect_witness:
  "\<exists>r db'. ResolveDedupe doc_sdk (calm_env ''5'' 90000) (resolve ''m2'' 1) dup_db = (Inr r, db')
     \<and> GetRecord (calm_env ''6'' 0) ''ta'' ''m2'' db' = Inl ErrNotFound"
proof -
  obtain r db' where run: "ResolveDedupe doc_sdk (calm_env ''5'' 90000) (resolve ''m2'' 1) dup_db = (Inr r, db')"
    using dup_collides [of "''m2''"] by auto
  have "GetRecord (calm_env ''6'' 0) ''ta'' ''m2'' db' = Inl ErrNotFound"
    using dedupe_collision_effect [OF dup_rows_wf _ _ run, of "''m1''"] by auto
  with run show ?thesis by (intro exI [of _ r] exI [of _ db']) simp
qed

text \<open>C37: A second collision is refused. Directly after a collision on a key, every resolution of the key for a
  candidate other than the winner, a new one or the same again, fails and changes nothing: the winner is
  still at its version, and a second \<open>memory_dedupe_collapsed\<close> event of that version would break the
  uniqueness of \<^verbatim>\<open>memory_event\<close>.\<close>

theorem dedupe_second_collision_fails:
  assumes "rows_wf (records db)"
    and "select_dedupe (rd_TenantID inp1) (rd_DedupeKey inp1) (dedupes db) = Inr wid"
    and "ResolveDedupe K ev1 inp1 db = (Inr r, db1)" and "wid \<noteq> MemoryID (rd_Candidate inp2)"
    and "rd_TenantID inp2 = rd_TenantID inp1" and "rd_DedupeKey inp2 = rd_DedupeKey inp1"
  shows "\<exists>e. ResolveDedupe K ev2 inp2 db1 = (Inl e, db1)"
proof -
  have "dedupes db1 = dedupes db" using dedupe_frame [OF assms(2,3)] .
  then have win: "select_dedupe (rd_TenantID inp2) (rd_DedupeKey inp2) (dedupes db1) = Inr wid"
    using assms(2,5,6) by simp
  from assms(2,3) obtain l where run: "dedupe_collide K ev1 inp1 wid db = Inr (l, r, db1)"
    by (auto simp: ResolveDedupe_Inr dedupe_taken)
  obtain w dbm where one: "rows_wf (records db1)" "select_memory_record (rd_TenantID inp1) wid (records db1) = Inr w"
    "emit K ev1 collapse_site None (collapse_event K inp1 (record_of_row w)) dbm = Inr db1"
    by (rule collision [OF assms(1) run]) (rule that; assumption)
  from conjunct1 [OF emit_Inr [OF one(3)]] obtain e where e: "events db1 = events dbm @ [e]"
    "me_event_type e = eventTypeMemoryDedupeCollapsed" "me_memory_id e = mr_memory_id w" "me_version e = mr_version w"
    by (rule emittedE) simp
  have no: "dedupeTx K ev2 inp2 db1 \<noteq> Inr (l', r', db2)" for l' r' db2
  proof
    assume "dedupeTx K ev2 inp2 db1 = Inr (l', r', db2)"
    then have run2: "dedupe_collide K ev2 inp2 wid db1 = Inr (l', r', db2)" by (simp add: dedupe_taken [OF win])
    obtain lw w2 dbn where two: "rows_wf (records db2)"
      "\<And>x. x \<in> set (records db1) \<Longrightarrow> mr_memory_id x \<noteq> MemoryID (rd_Candidate inp2) \<Longrightarrow> x \<in> set (records db2)"
      "select_memory_record (rd_TenantID inp2) wid (records db2) = Inr w2"
      "emitted K ev2 mutate_site None (event_of eventTypeMemoryDeleted (mutated_to ev2 (loser_mutation inp2) (record_of_row lw)))
           (db1\<lparr>records := records db2\<rparr>) dbn"
      "emit K ev2 collapse_site None (collapse_event K inp2 (record_of_row w2)) dbn = Inr db2"
      by (rule collision [OF one(1) run2]) (rule that; assumption)
    note w = select_memory_record_Inr [OF one(2)] and w2 = select_memory_record_Inr [OF two(3)]
    have "w \<in> set (records db2)" using w assms(4) two(2) by simp
    with w w2 two(1) distinct_key_inj [of mr_memory_id "records db2" w w2] have "w2 = w" by (simp add: rows_wf_def)
    moreover from two(4) have "e \<in> set (events dbn)" by (rule emittedE) (simp add: e(1))
    ultimately show False using emit_Inr [OF two(5)] e(2-4) by (auto simp: image_iff)
  qed
  show ?thesis
  proof (cases "dedupeTx K ev2 inp2 db1")
    case (Inl e)
    then show ?thesis by (auto simp: ResolveDedupe_def run_tx_def split: option.split)
  next
    case (Inr x)
    with no [of "fst x" "fst (snd x)" "snd (snd x)"] show ?thesis by simp
  qed
qed

lemma dedupe_second_collision_fails_witness:
  "\<exists>r db1 e. ResolveDedupe doc_sdk (calm_env ''5'' 90000) (resolve ''m2'' 1) dup_db = (Inr r, db1)
     \<and> ResolveDedupe doc_sdk (calm_env ''7'' 90000) (resolve ''m3'' 1) db1 = (Inl e, db1)"
proof -
  obtain r db1 where run: "ResolveDedupe doc_sdk (calm_env ''5'' 90000) (resolve ''m2'' 1) dup_db = (Inr r, db1)"
    using dup_collides [of "''m2''"] by auto
  from dedupe_second_collision_fails [OF dup_rows_wf _ run, of "''m1''" "resolve ''m3'' 1" "calm_env ''7'' 90000"]
  obtain e where "ResolveDedupe doc_sdk (calm_env ''7'' 90000) (resolve ''m3'' 1) db1 = (Inl e, db1)" by auto
  with run show ?thesis by (intro exI [of _ r] exI [of _ db1] exI [of _ e]) simp
qed

text \<open>Resolving the winner again deletes it. A repeated resolution of a key with its own winner as the
  candidate (a retry of the first call, say) that succeeds reports a collision won by that
  record, having soft-deleted it; the index still names it.\<close>

theorem dedupe_retry_deletes_winner:
  assumes "rows_wf (records db)"
    and "select_dedupe (rd_TenantID inp) (rd_DedupeKey inp) (dedupes db) = Inr (MemoryID (rd_Candidate inp))"
    and "ResolveDedupe K ev inp db = (Inr r, db')" and "fault ev' CLoad = None"
  shows "dr_WinnerID r = MemoryID (rd_Candidate inp) \<and> dr_Action r \<noteq> DedupeNoCollision
    \<and> GetRecord ev' (rd_TenantID inp) (dr_WinnerID r) db' = Inl ErrNotFound
    \<and> select_dedupe (rd_TenantID inp) (rd_DedupeKey inp) (dedupes db') = Inr (dr_WinnerID r)"
proof -
  from assms(2,3) obtain l where run: "dedupe_collide K ev inp (MemoryID (rd_Candidate inp)) db = Inr (l, r, db')"
    by (auto simp: ResolveDedupe_Inr dedupe_taken)
  have "\<exists>w. select_memory_record (rd_TenantID inp) (MemoryID (rd_Candidate inp)) (records db') = Inr w \<and> mr_deleted w"
    by (rule collision [OF assms(1) run]) (auto dest: loser_deleted)
  then have "GetRecord ev' (rd_TenantID inp) (MemoryID (rd_Candidate inp)) db' = Inl ErrNotFound"
    using assms(4) by (auto simp: GetRecord_def load_calm)
  moreover have "dr_WinnerID r = MemoryID (rd_Candidate inp) \<and> dr_Action r \<noteq> DedupeNoCollision"
    using run by (auto simp: dedupe_collide_Inr split: if_splits)
  ultimately show ?thesis using dedupe_frame [OF assms(2,3)] assms(2) by simp
qed

lemma dedupe_retry_deletes_winner_witness:
  "\<exists>r db'. ResolveDedupe doc_sdk (calm_env ''5'' 90000) (resolve ''m1'' 1) dup_db = (Inr r, db')
     \<and> dr_WinnerID r = ''m1'' \<and> GetRecord (calm_env ''6'' 0) ''ta'' ''m1'' db' = Inl ErrNotFound"
proof -
  obtain r db' where run: "ResolveDedupe doc_sdk (calm_env ''5'' 90000) (resolve ''m1'' 1) dup_db = (Inr r, db')"
    using dup_collides [of "''m1''"] by auto
  from dedupe_retry_deletes_winner [OF dup_rows_wf _ run, of "calm_env ''6'' 0"]
  have "dr_WinnerID r = ''m1'' \<and> GetRecord (calm_env ''6'' 0) ''ta'' ''m1'' db' = Inl ErrNotFound" by auto
  with run show ?thesis by (intro exI [of _ r] exI [of _ db']) simp
qed

section \<open>Working records of a session\<close>

lemma latest_event_newest:
  assumes "latest_event ev m evs = Some i"
  shows "\<exists>e\<in>set evs. me_event_id e = i \<and> me_memory_id e = m
    \<and> (\<forall>x\<in>set evs. me_memory_id x = m \<longrightarrow> me_version x < me_version e
          \<or> me_version x = me_version e \<and> me_created_at x \<le> me_created_at e)"
proof -
  let ?key = "\<lambda>e. (Desc (me_version e), Desc (me_created_at e))"
  let ?l = "order_by ev me_event_id ?key (filter (\<lambda>e. me_memory_id e = m) evs)"
  from assms obtain e rest where l: "?l = e # rest" "me_event_id e = i" by (auto simp: latest_event_def split: list.splits)
  have "set ?l = {x \<in> set evs. me_memory_id x = m}" by simp
  then have s: "{x \<in> set evs. me_memory_id x = m} = insert e (set rest)" unfolding l(1) by simp
  have "sorted_wrt (\<lambda>r s. ?key r \<le> ?key s) ?l" by (rule order_by_sorted)
  then have "\<forall>x\<in>set rest. me_version x < me_version e \<or> me_version x = me_version e \<and> me_created_at x \<le> me_created_at e"
    unfolding l(1) by auto
  with s l(2) show ?thesis by (intro bexI [of _ e]) auto
qed

text \<open>The working records of a session: exactly the tenant's, user's, project's and session's visible
  records of the working kind, newest first, each with the identifier of the newest event of the highest
  version appended for it (empty when it has none). Records stored without a project or session
  are never listed, not even for the empty one.\<close>

theorem list_session_working:
  assumes "\<forall>c. fault ev c = None"
  shows "\<exists>rows. ListSessionWorking K ev t u p s db = Inr (map (working_view ev db) rows)
    \<and> mset rows = mset (filter (in_session K t u p s) (records db))
    \<and> sorted_wrt (\<lambda>r r'. mr_created_at r' \<le> mr_created_at r) rows
    \<and> (\<forall>r\<in>set rows. mr_project_id r \<noteq> None \<and> mr_session_id r \<noteq> None \<and> \<not> mr_deleted r \<and> \<not> mr_disabled r
        \<and> (\<forall>i. latest_event ev (mr_memory_id r) (events db) = Some i \<longrightarrow>
            (\<exists>e\<in>set (events db). me_event_id e = i \<and> me_memory_id e = mr_memory_id r
              \<and> (\<forall>x\<in>set (events db). me_memory_id x = mr_memory_id r \<longrightarrow> me_version x < me_version e
                    \<or> me_version x = me_version e \<and> me_created_at x \<le> me_created_at e))))"
proof -
  let ?rows = "order_by ev mr_memory_id (\<lambda>r. Desc (mr_created_at r)) (filter (in_session K t u p s) (records db))"
  have "sorted_wrt (\<lambda>r r'. mr_created_at r' \<le> mr_created_at r) ?rows"
    using order_by_sorted [of "\<lambda>r. Desc (mr_created_at r)"] by simp
  moreover have "ListSessionWorking K ev t u p s db = Inr (map (working_view ev db) ?rows)"
    using assms by (simp add: ListSessionWorking_def exec_calm fetch_rows_calm)
  moreover have "\<forall>r\<in>set ?rows. mr_project_id r \<noteq> None \<and> mr_session_id r \<noteq> None \<and> \<not> mr_deleted r \<and> \<not> mr_disabled r"
    by (simp add: in_session_def)
  moreover have "mset ?rows = mset (filter (in_session K t u p s) (records db))" by simp
  ultimately show ?thesis using latest_event_newest [of ev _ "events db"] by (intro exI [of _ ?rows] conjI) blast+
qed

lemma list_session_working_witness:
  "ListSessionWorking doc_sdk (calm_env ''1'' 5) ''ta'' ''user_a'' ''p1'' ''s1''
     (empty_db\<lparr>records := [sample_row, sample_row\<lparr>mr_project_id := Some ''p1''\<rparr>]\<rparr>)
   = Inr [\<lparr>sw_Record = record_of_row (sample_row\<lparr>mr_project_id := Some ''p1''\<rparr>), sw_LatestEventID = []\<rparr>]"
proof -
  let ?db = "empty_db\<lparr>records := [sample_row, sample_row\<lparr>mr_project_id := Some ''p1''\<rparr>]\<rparr> :: doc db"
  have f: "filter (in_session doc_sdk ''ta'' ''user_a'' ''p1'' ''s1'') [sample_row, sample_row\<lparr>mr_project_id := Some ''p1''\<rparr>]
      = [sample_row\<lparr>mr_project_id := Some ''p1''\<rparr>]"
    by (simp add: in_session_def doc_sdk_def sample_row_def row_of_record_def stamp_record_def sample_write_def
        sample_record_def nullableString_def)
  from list_session_working [of "calm_env ''1'' 5" doc_sdk "''ta''" "''user_a''" "''p1''" "''s1''" ?db]
  show ?thesis by (auto simp: f working_view_def latest_event_def derefString_def simp del: filter.simps)
qed

end
