(* ===== verification/Publishers.thy ===== *)
theory Publishers
  imports WriteRecord Samples
begin

text \<open>
  The \<open>Publisher\<close> interface of \<^verbatim>\<open>relay.go\<close> and its implementations: \<open>MemoryPublisher\<close>
  (\<^verbatim>\<open>relay.go\<close>), \<open>FanoutPublisher\<close> (\<^verbatim>\<open>fanout_publisher.go\<close>) and \<open>LeaseAwarePublisher\<close>
  (\<^verbatim>\<open>lease_aware_publisher.go\<close>). A publisher is a function on a state \<open>'p\<close>, the downstream world
  with the publisher's own fields; what it promises the relay is the locale \<open>publisher\<close>.
\<close>

section \<open>The implementations\<close>

type_synonym 'p pub = "OutboxMessage \<Rightarrow> 'p \<Rightarrow> err option \<times> 'p"

record MemoryPublisher =
  mp_Events :: "OutboxMessage list"
  mp_Fail :: bool

definition MemoryPublisher_Publish :: "MemoryPublisher pub" where
  "MemoryPublisher_Publish evt p =
     (if mp_Fail p then (Some ErrRelayPublishFailed, p)
      else (None, p\<lparr>mp_Events := mp_Events p @ [evt]\<rparr>))"

text \<open>\<open>PublishHook\<close> is an argument; the test code behind it acts on a state of its own.\<close>

record 'w LeaseAwarePublisher =
  la_Events :: "OutboxMessage list"
  la_World :: 'w

definition LeaseAwarePublisher_Publish :: "'w pub option \<Rightarrow> 'w LeaseAwarePublisher pub" where
  "LeaseAwarePublisher_Publish hook evt p =
     (case hook of
        None \<Rightarrow> (None, p\<lparr>la_Events := la_Events p @ [evt]\<rparr>)
      | Some h \<Rightarrow>
         (case h evt (la_World p) of
            (Some e, w) \<Rightarrow> (Some e, p\<lparr>la_World := w\<rparr>)
          | (None, w) \<Rightarrow> (None, p\<lparr>la_World := w, la_Events := la_Events p @ [evt]\<rparr>)))"

text \<open>A nil child is \<open>None\<close>; \<open>NewFanoutPublisher\<close> drops them.\<close>

fun NewFanoutPublisher :: "'p pub option list \<Rightarrow> 'p pub list" where
  "NewFanoutPublisher [] = []"
| "NewFanoutPublisher (Some child # children) = child # NewFanoutPublisher children"
| "NewFanoutPublisher (None # children) = NewFanoutPublisher children"

text \<open>The loop over the children; each error is kept, none stops the loop.\<close>

fun fanout_children :: "'p pub list \<Rightarrow> OutboxMessage \<Rightarrow> 'p \<Rightarrow> err list \<times> 'p" where
  "fanout_children [] evt s = ([], s)"
| "fanout_children (child # children) evt s =
     (case child evt s of (r, s1) \<Rightarrow>
      case fanout_children children evt s1 of (errs, s2) \<Rightarrow>
        ((case r of Some e \<Rightarrow> e # errs | None \<Rightarrow> errs), s2))"

definition FanoutPublisher_Publish :: "'p pub list option \<Rightarrow> 'p pub" where
  "FanoutPublisher_Publish p evt s =
     (case p of
        None \<Rightarrow> (None, s)
      | Some children \<Rightarrow>
         (case fanout_children children evt s of (errs, s') \<Rightarrow> (errors_Join (map Some errs), s')))"

section \<open>The contract\<close>

text \<open>What a publisher promises: a message it accepted is delivered, and deliveries are not undone.\<close>

locale publisher =
  fixes publish :: "'p pub" and delivered :: "'p \<Rightarrow> OutboxMessage set"
  assumes accepted: "publish m s = (None, s') \<Longrightarrow> m \<in> delivered s'"
    and keeps: "publish m s = (r, s') \<Longrightarrow> delivered s \<subseteq> delivered s'"
begin

text \<open>Publishing a batch, whatever is done with the answers.\<close>

fun publish_all :: "OutboxMessage list \<Rightarrow> 'p \<Rightarrow> err option list \<times> 'p" where
  "publish_all [] s = ([], s)"
| "publish_all (m # ms) s = (case publish m s of (r, s1) \<Rightarrow> case publish_all ms s1 of (rs, s2) \<Rightarrow> (r # rs, s2))"

lemma publish_all_keeps: "delivered s \<subseteq> delivered (snd (publish_all ms s))"
proof (induction ms arbitrary: s)
  case (Cons m ms)
  obtain r s1 where p: "publish m s = (r, s1)" by fastforce
  with keeps [OF p] Cons [of s1] show ?case by (auto split: prod.split)
qed simp

lemma publish_all_delivers:
  "i < length ms \<Longrightarrow> fst (publish_all ms s) ! i = None \<Longrightarrow> ms ! i \<in> delivered (snd (publish_all ms s))"
proof (induction ms arbitrary: s i)
  case (Cons m ms)
  obtain r s1 where p: "publish m s = (r, s1)" by fastforce
  obtain rs s2 where q: "publish_all ms s1 = (rs, s2)" by fastforce
  show ?case
  proof (cases i)
    case 0
    with Cons.prems p q have "m \<in> delivered s1" by (intro accepted) simp
    with publish_all_keeps [of s1 ms] p q 0 show ?thesis by auto
  next
    case (Suc j)
    with Cons.IH [of j s1] Cons.prems p q show ?thesis by simp
  qed
qed simp

end

interpretation memory_pub: publisher MemoryPublisher_Publish "\<lambda>p. set (mp_Events p)"
  by unfold_locales (auto simp: MemoryPublisher_Publish_def split: if_splits)

interpretation lease_aware_pub: publisher "LeaseAwarePublisher_Publish hook" "\<lambda>p. set (la_Events p)" for hook
  by unfold_locales (auto simp: LeaseAwarePublisher_Publish_def split: option.splits prod.splits)

text \<open>Children that share one world: each keeps the promise for its own deliveries and undoes no
  other's. A fanout over them is again a publisher, of the messages every child has delivered.\<close>

locale publisher_family =
  fixes children :: "'p pub list" and delivered_by :: "nat \<Rightarrow> 'p \<Rightarrow> OutboxMessage set"
  assumes child_accepted: "i < length children \<Longrightarrow> (children ! i) m s = (None, s') \<Longrightarrow> m \<in> delivered_by i s'"
    and child_keeps: "i < length children \<Longrightarrow> (children ! i) m s = (r, s') \<Longrightarrow> delivered_by j s \<subseteq> delivered_by j s'"
begin

definition delivered_all :: "'p \<Rightarrow> OutboxMessage set" where
  "delivered_all s = {m. \<forall>i<length children. m \<in> delivered_by i s}"

lemma fanout_keeps_by:
  assumes "set cs \<subseteq> set children"
  shows "delivered_by j s \<subseteq> delivered_by j (snd (fanout_children cs m s))"
  using assms
proof (induction cs arbitrary: s)
  case (Cons c cs)
  obtain r s1 where p: "c m s = (r, s1)" by fastforce
  from Cons.prems obtain i where "i < length children" "children ! i = c" by (auto simp: in_set_conv_nth)
  with child_keeps [of i m s r s1 j] p Cons.IH [of s1] Cons.prems show ?case by (auto split: prod.split)
qed simp

lemma fanout_accepts_by:
  assumes "fst (fanout_children (drop k children) m s) = []" and "k \<le> i" and "i < length children"
  shows "m \<in> delivered_by i (snd (fanout_children (drop k children) m s))"
  using assms
proof (induction "length children - k" arbitrary: k s)
  case 0
  then show ?case by simp
next
  case (Suc n)
  then have k: "k < length children" by simp
  note d = Cons_nth_drop_Suc [OF k, symmetric]
  obtain r s1 where p: "(children ! k) m s = (r, s1)" by fastforce
  obtain es s2 where q: "fanout_children (drop (Suc k) children) m s1 = (es, s2)" by fastforce
  from Suc.prems(1) p q have nil: "r = None" "es = []" by (auto simp: d split: option.splits)
  show ?case
  proof (cases "i = k")
    case True
    with child_accepted [OF k] p nil have "m \<in> delivered_by i s1" by simp
    with fanout_keeps_by [OF set_drop_subset, of i s1 "Suc k" m] p q show ?thesis by (auto simp: d)
  next
    case False
    with Suc.hyps(1) [of "Suc k" s1] Suc.hyps(2) Suc.prems(2,3) p q nil show ?thesis by (simp add: d)
  qed
qed

end

sublocale publisher_family \<subseteq> fanout: publisher "FanoutPublisher_Publish (Some children)" delivered_all
proof unfold_locales
  fix m s s'
  assume "FanoutPublisher_Publish (Some children) m s = (None, s')"
  then obtain errs where f: "fanout_children children m s = (errs, s')" "errors_Join (map Some errs) = None"
    by (auto simp: FanoutPublisher_Publish_def split: prod.splits)
  then have "errs = []" by (cases errs) (auto simp: errors_Join_None)
  with f(1) fanout_accepts_by [of 0 m s] show "m \<in> delivered_all s'" by (simp add: delivered_all_def)
next
  fix m s r s'
  assume "FanoutPublisher_Publish (Some children) m s = (r, s')"
  then have "snd (fanout_children children m s) = s'"
    by (auto simp: FanoutPublisher_Publish_def split: prod.splits)
  with fanout_keeps_by [of children _ s m] show "delivered_all s \<subseteq> delivered_all s'" by (auto simp: delivered_all_def)
qed

text \<open>Two in-memory publishers side by side.\<close>

definition on_fst :: "'a pub \<Rightarrow> ('a \<times> 'b) pub" where
  "on_fst p m s = (case p m (fst s) of (r, a) \<Rightarrow> (r, (a, snd s)))"

definition on_snd :: "'b pub \<Rightarrow> ('a \<times> 'b) pub" where
  "on_snd p m s = (case p m (snd s) of (r, b) \<Rightarrow> (r, (fst s, b)))"

interpretation memory_pair: publisher_family
  "NewFanoutPublisher [Some (on_fst MemoryPublisher_Publish), None, Some (on_snd MemoryPublisher_Publish)]"
  "\<lambda>i s. set (mp_Events (if i = 0 then fst s else snd s))"
  by unfold_locales
    (auto simp: on_fst_def on_snd_def MemoryPublisher_Publish_def less_Suc_eq split: if_splits)

section \<open>The fanout\<close>

text \<open>The errors and states of the children called one after the other, whatever each returned.\<close>

fun call_children :: "'p pub list \<Rightarrow> OutboxMessage \<Rightarrow> 'p \<Rightarrow> err option list \<times> 'p" where
  "call_children [] m s = ([], s)"
| "call_children (c # cs) m s =
     (case c m s of (r, s1) \<Rightarrow> case call_children cs m s1 of (rs, s2) \<Rightarrow> (r # rs, s2))"

lemma fanout_calls:
  "fanout_children cs m s = (non_nil (fst (call_children cs m s)), snd (call_children cs m s))"
  by (induction cs arbitrary: s) (auto split: prod.split option.split)

lemma length_call_children [simp]: "length (fst (call_children cs m s)) = length cs"
proof (induction cs arbitrary: s)
  case (Cons c cs)
  from Cons [of "snd (c m s)"] show ?case by (simp add: case_prod_unfold)
qed simp

lemma NewFanoutPublisher_map: "map Some (NewFanoutPublisher cs) = filter (\<lambda>c. c \<noteq> None) cs"
  by (induction cs rule: NewFanoutPublisher.induct) auto

lemma non_nil_map_Some [simp]: "non_nil (map Some es) = es"
  by (induction es) auto

lemma errors_Join_non_nil: "errors_Join (map Some (non_nil es)) = errors_Join es"
  by (simp add: errors_Join_def)

text \<open>C35: The fanout calls every child that is not nil, in order and exactly once, whatever the others
  return; it succeeds exactly when all of them did, and its joined error matches a sentinel
  exactly when one of theirs does.\<close>

theorem fanout_reaches_all:
  assumes "FanoutPublisher_Publish (Some (NewFanoutPublisher cs)) m s = (r, s')"
  shows "\<exists>rs. call_children (NewFanoutPublisher cs) m s = (rs, s') \<and> length rs = length (filter (\<lambda>c. c \<noteq> None) cs)
    \<and> (r = None \<longleftrightarrow> (\<forall>x\<in>set rs. x = None))
    \<and> (\<forall>e. r = Some e \<longrightarrow> (\<forall>t. (\<forall>xs. t \<noteq> Joined xs) \<longrightarrow>
         (errors_is e t \<longleftrightarrow> (\<exists>x. Some x \<in> set rs \<and> errors_is x t))))"
proof -
  let ?cs = "NewFanoutPublisher cs"
  obtain rs s1 where c: "call_children ?cs m s = (rs, s1)" by fastforce
  with assms have rs: "call_children ?cs m s = (rs, s')" "r = errors_Join rs"
    by (simp_all add: FanoutPublisher_Publish_def fanout_calls errors_Join_non_nil)
  have "length rs = length (map Some ?cs)" using length_call_children [of ?cs m s] rs(1) by simp
  then have "length rs = length (filter (\<lambda>c. c \<noteq> None) cs)" by (simp add: NewFanoutPublisher_map)
  moreover have "r = None \<longleftrightarrow> (\<forall>x\<in>set rs. x = None)" by (simp add: rs(2) errors_Join_None)
  moreover have "errors_is e t \<longleftrightarrow> (\<exists>x. Some x \<in> set rs \<and> errors_is x t)"
    if "r = Some e" and "\<forall>xs. t \<noteq> Joined xs" for e t
    using errors_Join_is [of rs e t] that rs(2) by auto
  ultimately show ?thesis using rs(1) by blast
qed

lemma fanout_reaches_all_witness:
  "\<exists>e s'. FanoutPublisher_Publish (Some (NewFanoutPublisher
        [Some (on_fst MemoryPublisher_Publish), None, Some (on_snd MemoryPublisher_Publish)])) (sample_message ''a'')
      (\<lparr>mp_Events = [], mp_Fail = True\<rparr>, \<lparr>mp_Events = [], mp_Fail = False\<rparr>) = (Some e, s')
    \<and> errors_is e ErrRelayPublishFailed \<and> mp_Events (snd s') = [sample_message ''a'']"
proof -
  let ?cs = "[Some (on_fst MemoryPublisher_Publish), None, Some (on_snd MemoryPublisher_Publish)]"
  let ?s = "(\<lparr>mp_Events = [], mp_Fail = True\<rparr>, \<lparr>mp_Events = [], mp_Fail = False\<rparr>)"
  obtain e s' where run: "FanoutPublisher_Publish (Some (NewFanoutPublisher ?cs)) (sample_message ''a'') ?s = (Some e, s')"
    and s': "mp_Events (snd s') = [sample_message ''a'']"
    by (simp add: FanoutPublisher_Publish_def on_fst_def on_snd_def MemoryPublisher_Publish_def errors_Join_def)
  from fanout_reaches_all [OF run] have "errors_is e ErrRelayPublishFailed"
    by (auto simp: on_fst_def on_snd_def MemoryPublisher_Publish_def)
  with run s' show ?thesis by (intro exI [of _ e] exI [of _ s']) simp
qed

end
