(* ===== verification/Relay.thy ===== *)
theory Relay
  imports Publishers WorkerId
begin

text \<open>
  \<^verbatim>\<open>postgres/relay.go\<close>: configuration, \<open>ClaimBatch\<close>, \<open>Ack\<close>, \<open>RunOnce\<close> and \<open>Release\<close>.
  The store of a relay is the database the operations are given; other workers appear as the
  predicate of the rows they have locked and as what they do to the database between the steps of
  a \<open>RunOnce\<close>.
\<close>

section \<open>Construction\<close>

record RelayConfig =
  BatchSize :: int
  LeaseTTL :: int
  MaxAttempts :: int
  WorkerIDFunc :: "(unit \<Rightarrow> string) option"

record ClaimedMessage =
  cm_OutboxID :: string
  cm_Payload :: OutboxMessage
  cm_AttemptCount :: int

record 'p Relay =
  rl_publisher :: "'p pub"
  rl_cfg :: RelayConfig
  rl_workerID :: string

record RunStats =
  Published :: nat
  Failed :: nat
  LeaseLost :: nat

text \<open>The default worker identity reads the host name and random bytes: two arguments.\<close>

definition defaultRelayConfig :: "err + string \<Rightarrow> 8 word list \<Rightarrow> RelayConfig" where
  "defaultRelayConfig host buf =
     \<lparr>BatchSize = 100, LeaseTTL = 180 * 1000000000, MaxAttempts = 5,
      WorkerIDFunc = Some (\<lambda>_. NewRandomWorkerID host buf)\<rparr>"

text \<open>A nil store or publisher is \<open>None\<close>.\<close>

definition NewRelay ::
  "err + string \<Rightarrow> 8 word list \<Rightarrow> 'st Store option \<Rightarrow> 'p pub option \<Rightarrow> RelayConfig \<Rightarrow> err + 'p Relay" where
  "NewRelay host buf store pub cfg =
    (case store of
       None \<Rightarrow> Inl (Plain ''memory/postgres: relay store is required'')
     | Some _ \<Rightarrow>
       (case pub of
          None \<Rightarrow> Inl (Annot ErrRelayPublishFailed ''publisher is required'')
        | Some p \<Rightarrow>
          (let def = defaultRelayConfig host buf;
               cfg1 = (if BatchSize cfg \<le> 0 then cfg\<lparr>BatchSize := BatchSize def\<rparr> else cfg);
               cfg2 = (if LeaseTTL cfg1 \<le> 0 then cfg1\<lparr>LeaseTTL := LeaseTTL def\<rparr> else cfg1);
               cfg3 = (if MaxAttempts cfg2 \<le> 0 then cfg2\<lparr>MaxAttempts := MaxAttempts def\<rparr> else cfg2);
               f = (case WorkerIDFunc cfg3 of None \<Rightarrow> (\<lambda>_. NewRandomWorkerID host buf) | Some g \<Rightarrow> g) in
           Inr \<lparr>rl_publisher = p, rl_cfg = cfg3\<lparr>WorkerIDFunc := Some f\<rparr>, rl_workerID = f ()\<rparr>)))"

section \<open>Claiming\<close>

definition claimable :: "gotime \<Rightarrow> 'j outbox_row \<Rightarrow> bool" where
  "claimable t r \<longleftrightarrow> oe_status r = outboxStatusPending
     \<or> (oe_status r = outboxStatusProcessing
        \<and> (case oe_lease_expires_at r of None \<Rightarrow> False | Some l \<Rightarrow> l < t))"

text \<open>\<open>ORDER BY created_at FOR UPDATE SKIP LOCKED LIMIT n\<close>.\<close>

definition select_claimable :: "env \<Rightarrow> (string \<Rightarrow> bool) \<Rightarrow> int \<Rightarrow> 'j outbox_row list \<Rightarrow> pg_error + 'j outbox_row list" where
  "select_claimable ev locked n rows =
    (if n < 0 then Inl InvalidLimit
     else Inr (take (nat n) (filter (\<lambda>r. \<not> locked (oe_outbox_id r)) (order_by ev oe_outbox_id oe_created_at (filter (claimable (db_now ev)) rows)))))"

text \<open>The loop over the claimed rows, and its body.\<close>

definition claim_row :: "'j sdk \<Rightarrow> 'j outbox_row \<Rightarrow> err + ClaimedMessage" where
  "claim_row K r =
     bindE (mapErr (Wrap ''memory/postgres: relay decode payload: '') (decodeJSON (unmarshal_outbox K) (oe_payload r)))
       (\<lambda>payload. Inr \<lparr>cm_OutboxID = oe_outbox_id r, cm_Payload = payload, cm_AttemptCount = oe_attempt_count r\<rparr>)"

definition decode_claims :: "'j sdk \<Rightarrow> env \<Rightarrow> 'j outbox_row list \<Rightarrow> err + ClaimedMessage list" where
  "decode_claims K ev rows =
     fetch_rows ev ''memory/postgres: relay scan claimable: '' ''memory/postgres: relay rows: '' (claim_row K) 0 rows"

text \<open>\<open>Duration.Milliseconds\<close> truncates toward zero.\<close>

definition Milliseconds :: "int \<Rightarrow> int" where
  "Milliseconds d = (if d < 0 then - ((- d) div 1000000) else d div 1000000)"

definition claimed_row :: "string \<Rightarrow> gotime \<Rightarrow> int \<Rightarrow> 'j outbox_row \<Rightarrow> 'j outbox_row" where
  "claimed_row worker t ms r = r\<lparr>oe_status := outboxStatusProcessing, oe_claimed_by := Some worker,
     oe_claimed_at := Some t, oe_lease_expires_at := Some (t + ms * 1000000),
     oe_attempt_count := oe_attempt_count r + 1\<rparr>"

definition update_claimed ::
  "string \<Rightarrow> gotime \<Rightarrow> int \<Rightarrow> string list \<Rightarrow> 'j outbox_row list \<Rightarrow> pg_error + 'j outbox_row list" where
  "update_claimed worker t ms ids rows =
    (let hit = (\<lambda>r. oe_outbox_id r \<in> set ids) in
     if \<exists>r\<in>set rows. hit r \<and> i32_max \<le> oe_attempt_count r then Inl NumericOutOfRange
     else Inr (update_where hit (claimed_row worker t ms) rows))"

definition claimTx ::
  "'j sdk \<Rightarrow> 'p Relay \<Rightarrow> env \<Rightarrow> (string \<Rightarrow> bool) \<Rightarrow> 'j db \<Rightarrow> err + (string \<times> ClaimedMessage list \<times> 'j db)" where
  "claimTx K rl ev locked db =
     bindE (exec ev CClaimQuery ''memory/postgres: relay query claimable: ''
              (select_claimable ev locked (BatchSize (rl_cfg rl)) (outbox db))) (\<lambda>rows.
     bindE (decode_claims K ev rows) (\<lambda>pending.
       if length pending = 0 then Inr (''memory/postgres: commit empty claim tx: '', [], db)
       else
         bindE (exec ev CClaimUpdate ''memory/postgres: relay claim update: ''
                  (update_claimed (rl_workerID rl) (db_now ev) (Milliseconds (LeaseTTL (rl_cfg rl)))
                     (map cm_OutboxID pending) (outbox db))) (\<lambda>obs.
         Inr (''memory/postgres: commit claim tx: '',
              map (\<lambda>p. p\<lparr>cm_AttemptCount := cm_AttemptCount p + 1\<rparr>) pending, db\<lparr>outbox := obs\<rparr>))))"

definition ClaimBatch ::
  "'j sdk \<Rightarrow> 'p Relay \<Rightarrow> env \<Rightarrow> (string \<Rightarrow> bool) \<Rightarrow> 'j db \<Rightarrow> (err + ClaimedMessage list) \<times> 'j db" where
  "ClaimBatch K rl ev locked db = run_tx ev ''memory/postgres: begin claim tx: '' (claimTx K rl ev locked) db"

section \<open>Acknowledging\<close>

definition owned :: "string \<Rightarrow> string \<Rightarrow> gotime \<Rightarrow> 'j outbox_row \<Rightarrow> bool" where
  "owned outboxID worker t r \<longleftrightarrow> oe_outbox_id r = outboxID \<and> oe_claimed_by r = Some worker
     \<and> (case oe_lease_expires_at r of None \<Rightarrow> False | Some l \<Rightarrow> t < l)"

definition unleased :: "'j outbox_row \<Rightarrow> 'j outbox_row" where
  "unleased r = r\<lparr>oe_claimed_by := None, oe_claimed_at := None, oe_lease_expires_at := None\<rparr>"

definition acked_sent :: "gotime \<Rightarrow> 'j outbox_row \<Rightarrow> 'j outbox_row" where
  "acked_sent t r = (unleased r)\<lparr>oe_status := outboxStatusSent, oe_sent_at := Some (pg_time t), oe_last_error := None\<rparr>"

definition acked_error :: "string \<Rightarrow> string \<Rightarrow> 'j outbox_row \<Rightarrow> 'j outbox_row" where
  "acked_error status msg r = (unleased r)\<lparr>oe_status := status, oe_last_error := Some msg\<rparr>"

text \<open>One of the three \<open>UPDATE\<close>s under the ownership predicate, and the check of its count.\<close>

definition ack_update ::
  "env \<Rightarrow> string \<Rightarrow> ('j outbox_row \<Rightarrow> bool) \<Rightarrow> ('j outbox_row \<Rightarrow> 'j outbox_row) \<Rightarrow> 'j db \<Rightarrow> (err + unit) \<times> 'j db" where
  "ack_update ev label ownership setter db =
    (case auto_stmt ev CAck label
            (Inr (count_where ownership (outbox db), db\<lparr>outbox := update_where ownership setter (outbox db)\<rparr>)) db of
       (Inl e, db') \<Rightarrow> (Inl e, db')
     | (Inr n, db') \<Rightarrow> (if n = 0 then Inl ErrLeaseLost else Inr (), db'))"

text \<open>\<open>err_text\<close> stands for \<open>Error()\<close>.\<close>

definition Ack ::
  "(err \<Rightarrow> string) \<Rightarrow> 'p Relay \<Rightarrow> env \<Rightarrow> string \<Rightarrow> bool \<Rightarrow> int \<Rightarrow> err option \<Rightarrow> 'j db \<Rightarrow> (err + unit) \<times> 'j db" where
  "Ack err_text rl ev outboxID ok attemptCount publishErr db =
    (let ownership = owned outboxID (rl_workerID rl) (db_now ev) in
     if ok then ack_update ev ''memory/postgres: ack success: '' ownership (acked_sent (now ev)) db
     else
       (let errMsg = (case publishErr of Some e \<Rightarrow> err_text e | None \<Rightarrow> []) in
        if attemptCount \<ge> MaxAttempts (rl_cfg rl)
        then ack_update ev ''memory/postgres: ack failed-final: '' ownership (acked_error outboxStatusFailed errMsg) db
        else ack_update ev ''memory/postgres: ack retry: '' ownership (acked_error outboxStatusPending errMsg) db))"

definition released :: "'j outbox_row \<Rightarrow> 'j outbox_row" where
  "released r = (unleased r)\<lparr>oe_status := outboxStatusPending\<rparr>"

definition Release :: "'p Relay \<Rightarrow> env \<Rightarrow> 'j db \<Rightarrow> (err + unit) \<times> 'j db" where
  "Release rl ev db =
     auto_stmt ev CRelease ''memory/postgres: release relay leases: ''
       (Inr ((), db\<lparr>outbox := update_where
          (\<lambda>r. oe_claimed_by r = Some (rl_workerID rl) \<and> oe_status r = outboxStatusProcessing) released (outbox db)\<rparr>)) db"

section \<open>One round\<close>

text \<open>
  The surroundings of a round: the environment of each database call (index 0 is the claim, \<open>i\<close> the
  acknowledgement of the \<open>i\<close>-th message), the rows others have locked at the claim, \<open>Error()\<close>, and what
  the others do between the calls of the round: to the database and to the downstream, which other workers
  publish to as well (index 0 before the claim, \<open>2 * i\<close> before the \<open>i\<close>-th publish, \<open>2 * i + 1\<close> between it and
  the acknowledgement). \<open>'p\<close> is the state of everything outside the database and this worker.
\<close>

record ('p, 'j) surroundings =
  su_env :: "nat \<Rightarrow> env"
  su_others :: "nat \<Rightarrow> 'p \<times> 'j db \<Rightarrow> 'p \<times> 'j db"
  su_locked :: "string \<Rightarrow> bool"
  su_err_text :: "err \<Rightarrow> string"

fun run_messages ::
  "'p Relay \<Rightarrow> ('p, 'j) surroundings \<Rightarrow> nat \<Rightarrow> ClaimedMessage list \<Rightarrow> RunStats \<Rightarrow> err list \<Rightarrow> 'p \<Rightarrow> 'j db
     \<Rightarrow> RunStats \<times> err list \<times> 'p \<times> 'j db" where
  "run_messages rl su i [] stats ackErrs p db = (stats, ackErrs, p, db)"
| "run_messages rl su i (msg # msgs) stats ackErrs p db =
    (case su_others su (2 * i) (p, db) of (p0, db0) \<Rightarrow>
     case rl_publisher rl (cm_Payload msg) p0 of (publishErr, p1) \<Rightarrow>
     case su_others su (2 * i + 1) (p1, db0) of (p2, db2) \<Rightarrow>
     case Ack (su_err_text su) rl (su_env su i) (cm_OutboxID msg) (publishErr = None) (cm_AttemptCount msg)
            publishErr db2 of
       (Inl ackErr, db1) \<Rightarrow>
         run_messages rl su (Suc i) msgs
           (if errors_is ackErr ErrLeaseLost then stats\<lparr>LeaseLost := LeaseLost stats + 1\<rparr> else stats)
           (ackErrs @ [ackErr]) p2 db1
     | (Inr _, db1) \<Rightarrow>
         run_messages rl su (Suc i) msgs
           (if publishErr \<noteq> None then stats\<lparr>Failed := Failed stats + 1\<rparr>
            else stats\<lparr>Published := Published stats + 1\<rparr>) ackErrs p2 db1)"

definition RunOnce ::
  "'j sdk \<Rightarrow> 'p Relay \<Rightarrow> ('p, 'j) surroundings \<Rightarrow> 'p \<Rightarrow> 'j db \<Rightarrow> RunStats \<times> err option \<times> 'p \<times> 'j db" where
  "RunOnce K rl su p db =
    (case su_others su 0 (p, db) of (p0, db0) \<Rightarrow>
     case ClaimBatch K rl (su_env su 0) (su_locked su) db0 of
       (Inl e, db1) \<Rightarrow> (\<lparr>Published = 0, Failed = 0, LeaseLost = 0\<rparr>, Some e, p0, db1)
     | (Inr claimed, db1) \<Rightarrow>
        (case run_messages rl su 1 claimed \<lparr>Published = 0, Failed = 0, LeaseLost = 0\<rparr> [] p0 db1 of
           (stats, ackErrs, p2, db2) \<Rightarrow>
             (stats, if length ackErrs = 0 then None else errors_Join (map Some ackErrs), p2, db2)))"

end
