(* ===== verification/RelayProps.thy ===== *)
theory RelayProps
  imports Relay Samples "HOL-Library.Multiset"
begin

text \<open>
  Properties of the relay's operations: what a claim takes, that an acknowledgement is fenced by its
  lease, what a round reports and delivers, and what the relay does with messages that never get
  through.
\<close>

section \<open>Lemmas\<close>

lemma claim_row_Inr:
  "claim_row K r = Inr m \<longleftrightarrow> (\<exists>p. unmarshal_outbox K (oe_payload r) = Some p
     \<and> m = \<lparr>cm_OutboxID = oe_outbox_id r, cm_Payload = p, cm_AttemptCount = oe_attempt_count r\<rparr>)"
  by (auto simp: claim_row_def bindE_eq_Inr decodeJSON_def split: option.splits)

lemma claim_row_Inl:
  "claim_row K r = Inl e \<longleftrightarrow> unmarshal_outbox K (oe_payload r) = None
     \<and> e = Wrap ''memory/postgres: relay decode payload: '' JsonErr"
  by (auto simp: claim_row_def bindE_eq_Inl mapErr_eq_Inl decodeJSON_def split: option.splits)

lemma decode_claims_Inr:
  assumes "decode_claims K ev rs = Inr ms"
  shows "map cm_OutboxID ms = map oe_outbox_id rs
     \<and> map cm_AttemptCount ms = map oe_attempt_count rs
     \<and> map (\<lambda>m. Some (cm_Payload m)) ms = map (\<lambda>r. unmarshal_outbox K (oe_payload r)) rs"
proof -
  have "list_all2 (\<lambda>r m. claim_row K r = Inr m) rs ms"
    using assms unfolding decode_claims_def by (rule fetch_rows_Inr)
  then show ?thesis by induction (auto simp: claim_row_Inr)
qed

lemma decode_claims_ok:
  "\<forall>r\<in>set rs. unmarshal_outbox K (oe_payload r) \<noteq> None \<Longrightarrow> \<forall>c. fault ev c = None \<Longrightarrow> \<exists>ms. decode_claims K ev rs = Inr ms"
  unfolding decode_claims_def by (intro fetch_rows_calm(1)) (auto simp: claim_row_Inr)

lemma decode_claims_bad:
  "\<exists>r\<in>set rs. unmarshal_outbox K (oe_payload r) = None \<Longrightarrow> \<forall>c. fault ev c = None \<Longrightarrow>
     decode_claims K ev rs = Inl (Wrap ''memory/postgres: relay decode payload: '' JsonErr)"
  unfolding decode_claims_def by (intro fetch_rows_calm(3)) (auto simp: claim_row_Inl)

text \<open>For evaluating concrete claims.\<close>

lemmas claim_defs = decode_claims_def claim_row_def order_by_def exec_calm

definition to_claim :: "env \<Rightarrow> (string \<Rightarrow> bool) \<Rightarrow> 'p Relay \<Rightarrow> 'j db \<Rightarrow> 'j outbox_row list" where
  "to_claim ev locked rl db = take (nat (BatchSize (rl_cfg rl)))
     (filter (\<lambda>r. \<not> locked (oe_outbox_id r)) (order_by ev oe_outbox_id oe_created_at (filter (claimable (db_now ev)) (outbox db))))"

lemma to_claim_sub: "set (to_claim ev locked rl db) \<subseteq> {r \<in> set (outbox db). claimable (db_now ev) r \<and> \<not> locked (oe_outbox_id r)}"
  by (auto simp: to_claim_def dest: in_set_takeD)

text \<open>A claim that commits, in one equation.\<close>

lemma claimTx_Inr:
  assumes "claimTx K rl ev locked db = Inr (l, ms, db')"
  shows "0 \<le> BatchSize (rl_cfg rl)
    \<and> map cm_OutboxID ms = map oe_outbox_id (to_claim ev locked rl db)
    \<and> map cm_AttemptCount ms = map (\<lambda>r. oe_attempt_count r + 1) (to_claim ev locked rl db)
    \<and> map (\<lambda>m. Some (cm_Payload m)) ms = map (\<lambda>r. unmarshal_outbox K (oe_payload r)) (to_claim ev locked rl db)
    \<and> db' = db\<lparr>outbox := update_where (\<lambda>r. oe_outbox_id r \<in> oe_outbox_id ` set (to_claim ev locked rl db))
         (claimed_row (rl_workerID rl) (db_now ev) (Milliseconds (LeaseTTL (rl_cfg rl)))) (outbox db)\<rparr>"
proof -
  let ?rows = "to_claim ev locked rl db"
  from assms obtain pending where
    p: "0 \<le> BatchSize (rl_cfg rl)" "decode_claims K ev ?rows = Inr pending"
    and rest: "(if length pending = 0 then Inr (''memory/postgres: commit empty claim tx: '', [], db)
       else
         bindE (exec ev CClaimUpdate ''memory/postgres: relay claim update: ''
                  (update_claimed (rl_workerID rl) (db_now ev) (Milliseconds (LeaseTTL (rl_cfg rl)))
                     (map cm_OutboxID pending) (outbox db))) (\<lambda>obs.
         Inr (''memory/postgres: commit claim tx: '',
              map (\<lambda>p. p\<lparr>cm_AttemptCount := cm_AttemptCount p + 1\<rparr>) pending, db\<lparr>outbox := obs\<rparr>))) = Inr (l, ms, db')"
    by (auto simp: claimTx_def bindE_eq_Inr select_claimable_def to_claim_def split: if_splits)
  note d = decode_claims_Inr [OF p(2)]
  show ?thesis
  proof (cases "pending = []")
    case True
    then have none: "?rows = []" using d by (metis map_is_Nil_conv)
    then show ?thesis using p(1) rest True by (auto simp: update_where_def)
  next
    case False
    with rest obtain obs where u: "update_claimed (rl_workerID rl) (db_now ev) (Milliseconds (LeaseTTL (rl_cfg rl)))
        (map cm_OutboxID pending) (outbox db) = Inr obs" "db' = db\<lparr>outbox := obs\<rparr>"
      "ms = map (\<lambda>p. p\<lparr>cm_AttemptCount := cm_AttemptCount p + 1\<rparr>) pending"
      by (auto simp: bindE_eq_Inr)
    have ids: "cm_OutboxID ` set pending = oe_outbox_id ` set ?rows" using d by (metis list.set_map)
    have "map cm_AttemptCount ms = map (\<lambda>n. n + 1) (map cm_AttemptCount pending)" by (simp add: u(3))
    moreover have "map cm_OutboxID ms = map cm_OutboxID pending" "map (\<lambda>m. Some (cm_Payload m)) ms = map (\<lambda>m. Some (cm_Payload m)) pending"
      by (simp_all add: u(3))
    ultimately show ?thesis
      using p(1) u(1,2) d by (simp add: update_claimed_def Let_def ids comp_def split: if_splits)
  qed
qed

lemma ClaimBatch_Inr:
  "ClaimBatch K rl ev locked db = (Inr ms, db') \<longleftrightarrow>
     fault ev CBegin = None \<and> commit ev = Committed \<and> (\<exists>l. claimTx K rl ev locked db = Inr (l, ms, db'))"
  by (auto simp: ClaimBatch_def run_tx_Inr)

section \<open>Claims\<close>

text \<open>C26: What a claim takes. The oldest of the rows that are pending, or processing under an expired
  lease, and not locked by another claim: as many as the batch admits, in order of age. Each
  becomes processing under this worker's name with a lease of the configured length from the
  database's clock and one more attempt; the messages returned are theirs, with the new attempt
  count; every other row is left alone.\<close>

theorem claim_takes_oldest:
  assumes "distinct (map oe_outbox_id (outbox db))" and "ClaimBatch K rl ev locked db = (Inr ms, db')"
  shows "\<exists>taken left. mset (taken @ left) = mset (filter (\<lambda>r. claimable (db_now ev) r \<and> \<not> locked (oe_outbox_id r)) (outbox db))
    \<and> length taken = min (nat (BatchSize (rl_cfg rl))) (length (taken @ left))
    \<and> sorted_wrt (\<lambda>r s. oe_created_at r \<le> oe_created_at s) taken
    \<and> (\<forall>r\<in>set taken. \<forall>s\<in>set left. oe_created_at r \<le> oe_created_at s)
    \<and> map cm_OutboxID ms = map oe_outbox_id taken
    \<and> map cm_AttemptCount ms = map (\<lambda>r. oe_attempt_count r + 1) taken
    \<and> map (\<lambda>m. Some (cm_Payload m)) ms = map (\<lambda>r. unmarshal_outbox K (oe_payload r)) taken
    \<and> db' = db\<lparr>outbox := map (\<lambda>r. if r \<in> set taken
           then r\<lparr>oe_status := outboxStatusProcessing, oe_claimed_by := Some (rl_workerID rl), oe_claimed_at := Some (db_now ev),
                  oe_lease_expires_at := Some (db_now ev + Milliseconds (LeaseTTL (rl_cfg rl)) * 1000000),
                  oe_attempt_count := oe_attempt_count r + 1\<rparr>
           else r) (outbox db)\<rparr>"
proof -
  from assms(2) obtain l where tx: "claimTx K rl ev locked db = Inr (l, ms, db')" by (auto simp: ClaimBatch_Inr)
  define n where "n = nat (BatchSize (rl_cfg rl))"
  define whole where "whole = filter (\<lambda>r. \<not> locked (oe_outbox_id r))
      (order_by ev oe_outbox_id oe_created_at (filter (claimable (db_now ev)) (outbox db)))"
  define taken where "taken = take n whole"
  define left where "left = drop n whole"
  have tc: "to_claim ev locked rl db = taken" by (simp add: to_claim_def taken_def whole_def n_def)
  have c: "map cm_OutboxID ms = map oe_outbox_id taken" "map cm_AttemptCount ms = map (\<lambda>r. oe_attempt_count r + 1) taken"
    "map (\<lambda>m. Some (cm_Payload m)) ms = map (\<lambda>r. unmarshal_outbox K (oe_payload r)) taken"
    and upd: "db' = db\<lparr>outbox := update_where (\<lambda>r. oe_outbox_id r \<in> oe_outbox_id ` set taken)
         (claimed_row (rl_workerID rl) (db_now ev) (Milliseconds (LeaseTTL (rl_cfg rl)))) (outbox db)\<rparr>"
    using claimTx_Inr [OF tx, unfolded tc] by blast+
  note cut = order_by_cut [where n = n and p = "\<lambda>r. \<not> locked (oe_outbox_id r)" and ev = ev and ident = oe_outbox_id
      and key = oe_created_at and rows = "filter (claimable (db_now ev)) (outbox db)", folded whole_def, folded taken_def left_def]
  have ms: "mset (taken @ left) = mset (filter (\<lambda>r. claimable (db_now ev) r \<and> \<not> locked (oe_outbox_id r)) (outbox db))"
    using cut(1) by (simp add: filter_filter_mset conj_commute)
  have len: "length taken = min n (length (taken @ left))"
    using cut(2) arg_cong [OF cut(1), of size] by (simp only: size_mset)
  note order = cut(3,4)
  have sub: "set taken \<subseteq> set (outbox db)" using to_claim_sub [of ev locked rl db] unfolding tc by blast
  have hit: "oe_outbox_id r \<in> oe_outbox_id ` set taken \<longleftrightarrow> r \<in> set taken" if "r \<in> set (outbox db)" for r
  proof
    assume "oe_outbox_id r \<in> oe_outbox_id ` set taken"
    then obtain x where x: "x \<in> set taken" "oe_outbox_id r = oe_outbox_id x" by blast
    with sub that distinct_key_inj [OF assms(1), of r x] show "r \<in> set taken" by auto
  qed blast
  have rows: "db' = db\<lparr>outbox := map (\<lambda>r. if r \<in> set taken
           then r\<lparr>oe_status := outboxStatusProcessing, oe_claimed_by := Some (rl_workerID rl), oe_claimed_at := Some (db_now ev),
                  oe_lease_expires_at := Some (db_now ev + Milliseconds (LeaseTTL (rl_cfg rl)) * 1000000),
                  oe_attempt_count := oe_attempt_count r + 1\<rparr> else r) (outbox db)\<rparr>"
    using hit unfolding upd by (simp add: update_where_def claimed_row_def)
  show ?thesis
    by (rule exI [of _ taken], rule exI [of _ left]) (intro conjI ms order c rows len [unfolded n_def])
qed

section \<open>Claims that fail\<close>

text \<open>How the commit will end changes nothing before it, and how the commit is labelled.\<close>

lemma claimTx_commit: "claimTx K rl (ev\<lparr>commit := out\<rparr>) locked db = claimTx K rl ev locked db"
  by (simp add: claimTx_def decode_claims_def select_claimable_def order_by_def cong: if_cong)

lemma claimTx_label:
  "claimTx K rl ev locked db = Inr (l, ms, d) \<Longrightarrow>
     \<exists>l'. l = ''memory/postgres: '' @ l' \<and> l' \<in> {''commit claim tx: '', ''commit empty claim tx: ''}"
  by (auto simp: claimTx_def bindE_eq_Inr split: if_splits)

text \<open>The calls of a claim and what makes each of them fail, by the label it reports under.\<close>

inductive claim_cause :: "'j sdk \<Rightarrow> 'p Relay \<Rightarrow> env \<Rightarrow> (string \<Rightarrow> bool) \<Rightarrow> 'j db \<Rightarrow> string \<Rightarrow> bool"
  for K :: "'j sdk" and rl :: "'p Relay" and ev :: env and locked :: "string \<Rightarrow> bool" and db :: "'j db" where
  begin_failed: "fault ev CBegin \<noteq> None \<Longrightarrow> claim_cause K rl ev locked db ''begin claim tx: ''"
| query_failed: "fault ev CClaimQuery \<noteq> None \<or> BatchSize (rl_cfg rl) < 0
    \<Longrightarrow> claim_cause K rl ev locked db ''relay query claimable: ''"
| row_unscanned: "fault ev (CScan i) \<noteq> None \<Longrightarrow> claim_cause K rl ev locked db ''relay scan claimable: ''"
| rows_broken: "fault ev (CNext i) \<noteq> None \<Longrightarrow> claim_cause K rl ev locked db ''relay rows: ''"
| undecodable: "r \<in> set (to_claim ev locked rl db) \<Longrightarrow> unmarshal_outbox K (oe_payload r) = None
    \<Longrightarrow> claim_cause K rl ev locked db ''relay decode payload: ''"
| update_failed: "fault ev CClaimUpdate \<noteq> None \<or> (\<exists>r\<in>set (outbox db). i32_max \<le> oe_attempt_count r)
    \<Longrightarrow> claim_cause K rl ev locked db ''relay claim update: ''"
| commit_failed: "commit ev \<noteq> Committed \<Longrightarrow> l \<in> {''commit claim tx: '', ''commit empty claim tx: ''}
    \<Longrightarrow> claim_cause K rl ev locked db l"

lemma exec_Inl:
  "exec ev c l r = Inl e \<longleftrightarrow> (\<exists>p. e = Wrap l (Pg p) \<and> (case fault ev c of Some t \<Rightarrow> p = DriverFailure t | None \<Rightarrow> r = Inl p))"
  by (auto simp: exec_def driver_def mapErr_eq_Inl split: option.splits)

lemma claimTx_Inl:
  assumes "claimTx K rl ev locked db = Inl e"
  shows "\<exists>l x. e = Wrap (''memory/postgres: '' @ l) x \<and> claim_cause K rl ev locked db l"
proof (cases "exec ev CClaimQuery ''memory/postgres: relay query claimable: ''
              (select_claimable ev locked (BatchSize (rl_cfg rl)) (outbox db))")
  case (Inl e')
  with assms have "e' = e" by (simp add: claimTx_def)
  with Inl obtain p where e: "e = Wrap ''memory/postgres: relay query claimable: '' (Pg p)"
    and c: "fault ev CClaimQuery \<noteq> None \<or> BatchSize (rl_cfg rl) < 0"
    by (auto simp: exec_Inl select_claimable_def split: option.splits if_splits)
  show ?thesis
    by (rule exI [of _ "''relay query claimable: ''"], rule exI [of _ "Pg p"], rule conjI [OF _ query_failed [OF c]]) (simp add: e)
next
  case rows: (Inr rows)
  then have sel: "rows = to_claim ev locked rl db"
    by (auto simp: exec_def driver_def select_claimable_def to_claim_def split: option.splits if_splits)
  show ?thesis
  proof (cases "decode_claims K ev rows")
    case bad: (Inl e')
    with assms rows have e: "e' = e" by (simp add: claimTx_def)
    from fetch_rows_Inl [OF bad [unfolded decode_claims_def e]] show ?thesis
    proof (elim disjE exE bexE conjE)
      fix j t assume "fault ev (CNext j) = Some t" and e: "e = Wrap ''memory/postgres: relay rows: '' (Pg (DriverFailure t))"
      then have c: "claim_cause K rl ev locked db ''relay rows: ''" by (intro rows_broken [of ev j]) simp
      show ?thesis
        by (rule exI [of _ "''relay rows: ''"], rule exI [of _ "Pg (DriverFailure t)"], rule conjI [OF _ c]) (simp add: e)
    next
      fix j t assume "fault ev (CScan j) = Some t" and e: "e = Wrap ''memory/postgres: relay scan claimable: '' (Pg (DriverFailure t))"
      then have c: "claim_cause K rl ev locked db ''relay scan claimable: ''" by (intro row_unscanned [of ev j]) simp
      show ?thesis
        by (rule exI [of _ "''relay scan claimable: ''"], rule exI [of _ "Pg (DriverFailure t)"], rule conjI [OF _ c]) (simp add: e)
    next
      fix r assume r: "r \<in> set rows" and "claim_row K r = Inl e"
      then have u: "unmarshal_outbox K (oe_payload r) = None" and "\<exists>x. e = Wrap ''memory/postgres: relay decode payload: '' x"
        by (simp_all add: claim_row_Inl)
      then obtain x where e: "e = Wrap ''memory/postgres: relay decode payload: '' x" by blast
      have c: "claim_cause K rl ev locked db ''relay decode payload: ''" by (rule undecodable [OF r [unfolded sel] u])
      show ?thesis
        by (rule exI [of _ "''relay decode payload: ''"], rule exI [of _ x], rule conjI [OF _ c]) (simp add: e)
    qed
  next
    case (Inr pend)
    with assms rows have "exec ev CClaimUpdate ''memory/postgres: relay claim update: ''
                  (update_claimed (rl_workerID rl) (db_now ev) (Milliseconds (LeaseTTL (rl_cfg rl)))
                     (map cm_OutboxID pend) (outbox db)) = Inl e"
      by (auto simp: claimTx_def bindE_eq_Inl split: if_splits)
    then obtain p where e: "e = Wrap ''memory/postgres: relay claim update: '' (Pg p)"
      and c: "fault ev CClaimUpdate \<noteq> None \<or> (\<exists>r\<in>set (outbox db). i32_max \<le> oe_attempt_count r)"
      by (auto simp: exec_Inl update_claimed_def Let_def split: option.splits if_splits)
    show ?thesis
      by (rule exI [of _ "''relay claim update: ''"], rule exI [of _ "Pg p"], rule conjI [OF _ update_failed [OF c]]) (simp add: e)
  qed
qed

text \<open>C27: A claim that fails. The error names the call that failed and that call did have a cause: the begin,
  the query (a fault, or a negative batch size), a row that did not scan, a broken result, a payload of a
  row to be taken that does not decode, the update (a fault, or an attempt count at the column's end), the
  commit. Nothing is claimed then, unless it was only the answer to the commit that was lost: in
  that case the rows are leased as by a claim that succeeded, though no message was returned.\<close>

theorem claim_fails_clean:
  assumes "ClaimBatch K rl ev locked db = (Inl e, db')"
  shows "(\<exists>l x. e = Wrap (''memory/postgres: '' @ l) x \<and> claim_cause K rl ev locked db l)
    \<and> (db' = db \<or> (\<exists>t. commit ev = CommitUnknown t) \<and> (\<exists>ms. ClaimBatch K rl (ev\<lparr>commit := Committed\<rparr>) locked db = (Inr ms, db')))"
proof (cases "fault ev CBegin")
  case (Some t)
  with assms have e: "e = Wrap ''memory/postgres: begin claim tx: '' (Pg (DriverFailure t))" and "db' = db"
    by (simp_all add: ClaimBatch_def run_tx_def exec_def driver_def)
  have c: "claim_cause K rl ev locked db ''begin claim tx: ''" using Some by (intro begin_failed) simp
  have "\<exists>l x. e = Wrap (''memory/postgres: '' @ l) x \<and> claim_cause K rl ev locked db l"
    by (rule exI [of _ "''begin claim tx: ''"], rule exI [of _ "Pg (DriverFailure t)"], rule conjI [OF _ c]) (simp add: e)
  with \<open>db' = db\<close> show ?thesis by simp
next
  case begun: None
  have same: "claimTx K rl (ev\<lparr>commit := Committed\<rparr>) locked db = claimTx K rl ev locked db"
    by (rule claimTx_commit)
  show ?thesis
  proof (cases "claimTx K rl ev locked db")
    case (Inl e')
    with assms begun have e: "e' = e" "db' = db" by (simp_all add: ClaimBatch_def run_tx_def)
    from claimTx_Inl [OF Inl] show ?thesis unfolding e by simp
  next
    case (Inr x)
    obtain l ms d where x: "x = (l, ms, d)" by (cases x)
    from claimTx_label [OF Inr [unfolded x]] obtain l' where l: "l = ''memory/postgres: '' @ l'"
      "l' \<in> {''commit claim tx: '', ''commit empty claim tx: ''}" by blast
    have ok: "ClaimBatch K rl (ev\<lparr>commit := Committed\<rparr>) locked db = (Inr ms, d)"
      using begun Inr x same by (simp add: ClaimBatch_def run_tx_def)
    have run: "run_tx ev ''memory/postgres: begin claim tx: '' (claimTx K rl ev locked) db = (Inl e, db')"
      using assms by (simp add: ClaimBatch_def)
    have failed: "commit ev \<noteq> Committed \<and> (\<exists>y. e = Wrap l y) \<and> (db' = db \<or> (\<exists>t. commit ev = CommitUnknown t) \<and> db' = d)"
      using run begun Inr x by (cases "commit ev") (auto simp: run_tx_def)
    then obtain y where e: "e = Wrap l y" by blast
    have c: "claim_cause K rl ev locked db l'" using failed l(2) by (intro commit_failed) simp_all
    have "\<exists>l x. e = Wrap (''memory/postgres: '' @ l) x \<and> claim_cause K rl ev locked db l"
      by (rule exI [of _ l'], rule exI [of _ y], rule conjI [OF _ c]) (simp add: e l(1))
    with failed ok show ?thesis by metis
  qed
qed

definition sample_relay :: "MemoryPublisher Relay" where
  "sample_relay = \<lparr>rl_publisher = MemoryPublisher_Publish,
     rl_cfg = \<lparr>BatchSize = 1, LeaseTTL = 180 * 1000000000, MaxAttempts = 5, WorkerIDFunc = Some (\<lambda>_. ''w1'')\<rparr>,
     rl_workerID = ''w1''\<rparr>"

definition sample_outbox_row :: "string \<Rightarrow> gotime \<Rightarrow> doc outbox_row" where
  "sample_outbox_row i t = new_outbox_row (calm_env i t) i i ''ta'' i ''memory_created'' (DocOutbox (sample_message i))"

lemma sample_outbox_row_simps [simp]:
  "oe_outbox_id (sample_outbox_row i t) = i" "oe_status (sample_outbox_row i t) = outboxStatusPending"
  "oe_attempt_count (sample_outbox_row i t) = 0" "oe_created_at (sample_outbox_row i t) = pg_time t"
  "oe_payload (sample_outbox_row i t) = DocOutbox (sample_message i)"
  by (simp_all add: sample_outbox_row_def new_outbox_row_def)

definition two_rows :: "doc db" where
  "two_rows = empty_db\<lparr>outbox := [sample_outbox_row ''b'' 9000, sample_outbox_row ''a'' 5000]\<rparr>"

lemma two_rows_simps [simp]: "outbox two_rows = [sample_outbox_row ''b'' 9000, sample_outbox_row ''a'' 5000]"
  by (simp add: two_rows_def)

lemma doc_unmarshal [simp]: "unmarshal_outbox doc_sdk (DocOutbox m) = Some m"
  by (simp add: doc_sdk_def)

lemma two_rows_claim:
  "\<exists>db'. ClaimBatch doc_sdk sample_relay (calm_env ''1'' 20000) (\<lambda>_. False) two_rows
     = (Inr [\<lparr>cm_OutboxID = ''a'', cm_Payload = sample_message ''a'', cm_AttemptCount = 1\<rparr>], db')"
  by (simp add: ClaimBatch_def claimTx_def select_claimable_def claimable_def sample_relay_def pg_time_def exec_calm
      run_tx_def update_claimed_def i32_max_def decodeJSON_def claim_defs)

lemma claim_takes_oldest_witness:
  "\<exists>ms db'. ClaimBatch doc_sdk sample_relay (calm_env ''1'' 20000) (\<lambda>_. False) two_rows = (Inr ms, db') \<and> length ms \<le> 1"
proof -
  obtain ms db' where run: "ClaimBatch doc_sdk sample_relay (calm_env ''1'' 20000) (\<lambda>_. False) two_rows = (Inr ms, db')"
    using two_rows_claim by blast
  have d: "distinct (map oe_outbox_id (outbox two_rows))" by simp
  from claim_takes_oldest [OF d run] obtain taken left :: "doc outbox_row list" where
    t: "length taken = min (nat (BatchSize (rl_cfg sample_relay))) (length (taken @ left))"
      "map cm_OutboxID ms = map oe_outbox_id taken" by blast
  from t(1) have "length taken \<le> 1" by (simp add: sample_relay_def)
  moreover have "length ms = length taken" using arg_cong [OF t(2), of length] by simp
  ultimately have "length ms \<le> 1" by simp
  with run show ?thesis by (intro exI [of _ ms] exI [of _ db']) simp
qed

lemma claim_fails_clean_witness:
  "\<exists>l x db'. ClaimBatch doc_sdk sample_relay ((calm_env ''1'' 20000)\<lparr>commit := CommitUnknown ''eof''\<rparr>) (\<lambda>_. False) two_rows
       = (Inl (Wrap (''memory/postgres: '' @ l) x), db')
     \<and> claim_cause doc_sdk sample_relay ((calm_env ''1'' 20000)\<lparr>commit := CommitUnknown ''eof''\<rparr>) (\<lambda>_. False) two_rows l"
proof -
  let ?ev = "(calm_env ''1'' 20000)\<lparr>commit := CommitUnknown ''eof''\<rparr>"
  obtain ms db' where "ClaimBatch doc_sdk sample_relay (calm_env ''1'' 20000) (\<lambda>_. False) two_rows = (Inr ms, db')"
    using two_rows_claim by blast
  then obtain l where "claimTx doc_sdk sample_relay ?ev (\<lambda>_. False) two_rows = Inr (l, ms, db')"
    unfolding claimTx_commit by (auto simp: ClaimBatch_Inr)
  then have run: "ClaimBatch doc_sdk sample_relay ?ev (\<lambda>_. False) two_rows = (Inl (Wrap l (Pg (DriverFailure ''eof''))), db')"
    by (simp add: ClaimBatch_def run_tx_def)
  from claim_fails_clean [OF run] obtain l' x where c: "Wrap l (Pg (DriverFailure ''eof'')) = Wrap (''memory/postgres: '' @ l') x"
    "claim_cause doc_sdk sample_relay ?ev (\<lambda>_. False) two_rows l'" by blast
  show ?thesis
    by (rule exI [of _ l'], rule exI [of _ x], rule exI [of _ db'], rule conjI [OF _ c(2)]) (simp only: run c(1))
qed

section \<open>Acknowledgements\<close>

definition ack_setter ::
  "(err \<Rightarrow> string) \<Rightarrow> 'p Relay \<Rightarrow> env \<Rightarrow> bool \<Rightarrow> int \<Rightarrow> err option \<Rightarrow> 'j outbox_row \<Rightarrow> 'j outbox_row" where
  "ack_setter et rl ev ok n pe =
     (if ok then acked_sent (now ev)
      else acked_error (if MaxAttempts (rl_cfg rl) \<le> n then outboxStatusFailed else outboxStatusPending)
             (case pe of Some e \<Rightarrow> et e | None \<Rightarrow> []))"

lemma Ack_form:
  obtains label where "Ack et rl ev i ok n pe db =
    ack_update ev label (owned i (rl_workerID rl) (db_now ev)) (ack_setter et rl ev ok n pe) db"
proof (cases ok; cases "MaxAttempts (rl_cfg rl) \<le> n")
qed (rule that; simp add: Ack_def Let_def ack_setter_def)+

lemma Ack_snd:
  "snd (Ack et rl ev i ok n pe db) = db \<or> snd (Ack et rl ev i ok n pe db) =
     db\<lparr>outbox := update_where (owned i (rl_workerID rl) (db_now ev)) (ack_setter et rl ev ok n pe) (outbox db)\<rparr>"
proof (rule Ack_form [of et rl ev i ok n pe db])
  fix label
  assume a: "Ack et rl ev i ok n pe db =
    ack_update ev label (owned i (rl_workerID rl) (db_now ev)) (ack_setter et rl ev ok n pe) db"
  show ?thesis
    unfolding a ack_update_def
    by (auto simp: auto_stmt_def driver_def split: option.split commit_outcome.split)
qed

lemma Ack_Inr:
  assumes "Ack et rl ev i ok n pe db = (Inr u, db')"
  shows "db' = db\<lparr>outbox := update_where (owned i (rl_workerID rl) (db_now ev)) (ack_setter et rl ev ok n pe) (outbox db)\<rparr>
    \<and> (\<exists>r\<in>set (outbox db). owned i (rl_workerID rl) (db_now ev) r)"
proof (rule Ack_form [of et rl ev i ok n pe db])
  fix label
  assume a: "Ack et rl ev i ok n pe db =
    ack_update ev label (owned i (rl_workerID rl) (db_now ev)) (ack_setter et rl ev ok n pe) db"
  obtain x d where s: "auto_stmt ev CAck label (Inr (count_where (owned i (rl_workerID rl) (db_now ev)) (outbox db),
      db\<lparr>outbox := update_where (owned i (rl_workerID rl) (db_now ev)) (ack_setter et rl ev ok n pe) (outbox db)\<rparr>)) db = (x, d)"
    by fastforce
  from assms[unfolded a ack_update_def s] s show ?thesis
    by (auto simp: auto_stmt_Inr count_where_0 split: sum.splits if_splits)
qed

lemma Ack_calm:
  assumes "fault ev CAck = None" and "commit ev = Committed"
  shows "Ack et rl ev i ok n pe db =
    (if \<exists>r\<in>set (outbox db). owned i (rl_workerID rl) (db_now ev) r
     then (Inr (), db\<lparr>outbox := update_where (owned i (rl_workerID rl) (db_now ev)) (ack_setter et rl ev ok n pe) (outbox db)\<rparr>)
     else (Inl ErrLeaseLost, db))"
proof (rule Ack_form [of et rl ev i ok n pe db])
  fix label
  assume a: "Ack et rl ev i ok n pe db =
    ack_update ev label (owned i (rl_workerID rl) (db_now ev)) (ack_setter et rl ev ok n pe) db"
  show ?thesis
  proof (cases "\<exists>r\<in>set (outbox db). owned i (rl_workerID rl) (db_now ev) r")
    case True
    then have "count_where (owned i (rl_workerID rl) (db_now ev)) (outbox db) \<noteq> 0" by (simp add: count_where_0)
    with True show ?thesis unfolding a ack_update_def auto_stmt_calm [OF assms] by simp
  next
    case False
    then have c: "count_where (owned i (rl_workerID rl) (db_now ev)) (outbox db) = 0" by (simp add: count_where_0)
    from update_where_uncounted [OF c] False show ?thesis
      unfolding a ack_update_def auto_stmt_calm [OF assms] by (simp add: c)
  qed
qed

text \<open>C12: Fencing. An acknowledgement takes effect exactly when the row is still claimed by this worker under
  a lease that has not run out on the database's clock: then the row, and it alone, becomes sent,
  pending again, or failed once the attempts given reach the limit, and loses its lease;
  otherwise the answer is \<open>ErrLeaseLost\<close> and nothing changes.\<close>

theorem ack_fenced:
  fixes db :: "'j db"
  assumes "distinct (map oe_outbox_id (outbox db))" and "fault ev CAck = None" and "commit ev = Committed"
  shows "if \<exists>r\<in>set (outbox db). oe_outbox_id r = i \<and> oe_claimed_by r = Some (rl_workerID rl)
           \<and> (\<exists>l. oe_lease_expires_at r = Some l \<and> db_now ev < l)
    then \<exists>as r bs r'. outbox db = as @ r # bs \<and> oe_outbox_id r = i
      \<and> Ack et rl ev i ok n pe db = (Inr (), db\<lparr>outbox := as @ r' # bs\<rparr>)
      \<and> r' = r\<lparr>oe_status := (if ok then outboxStatusSent else if MaxAttempts (rl_cfg rl) \<le> n then outboxStatusFailed
                   else outboxStatusPending),
             oe_sent_at := (if ok then Some (pg_time (now ev)) else oe_sent_at r),
             oe_last_error := (if ok then None else Some (case pe of Some e \<Rightarrow> et e | None \<Rightarrow> [])),
             oe_claimed_by := None, oe_claimed_at := None, oe_lease_expires_at := None\<rparr>
    else Ack et rl ev i ok n pe db = (Inl ErrLeaseLost, db)"
proof -
  let ?own = "owned i (rl_workerID rl) (db_now ev) :: 'j outbox_row \<Rightarrow> bool"
  have own: "?own r \<longleftrightarrow> oe_outbox_id r = i \<and> oe_claimed_by r = Some (rl_workerID rl)
       \<and> (\<exists>l. oe_lease_expires_at r = Some l \<and> db_now ev < l)" for r :: "'j outbox_row"
    by (auto simp: owned_def split: option.split)
  show ?thesis
  proof (cases "\<exists>r\<in>set (outbox db). ?own r")
    case True
    have key: "oe_outbox_id r = i" if "?own r" for r :: "'j outbox_row" using that by (simp add: owned_def)
    obtain as r bs where r: "outbox db = as @ r # bs" "?own r"
      "update_where ?own (ack_setter et rl ev ok n pe) (outbox db) = as @ ack_setter et rl ev ok n pe r # bs"
      using update_where_unique [OF assms(1) key True, of "ack_setter et rl ev ok n pe"] by blast
    then have "Ack et rl ev i ok n pe db = (Inr (), db\<lparr>outbox := as @ ack_setter et rl ev ok n pe r # bs\<rparr>)"
      using True by (simp add: Ack_calm [OF assms(2,3)])
    moreover have "ack_setter et rl ev ok n pe r = r\<lparr>oe_status := (if ok then outboxStatusSent else if MaxAttempts (rl_cfg rl) \<le> n then outboxStatusFailed
                   else outboxStatusPending),
             oe_sent_at := (if ok then Some (pg_time (now ev)) else oe_sent_at r),
             oe_last_error := (if ok then None else Some (case pe of Some e \<Rightarrow> et e | None \<Rightarrow> [])),
             oe_claimed_by := None, oe_claimed_at := None, oe_lease_expires_at := None\<rparr>"
      by (simp add: ack_setter_def acked_sent_def acked_error_def unleased_def)
    ultimately have "\<exists>as r bs r'. outbox db = as @ r # bs \<and> oe_outbox_id r = i
      \<and> Ack et rl ev i ok n pe db = (Inr (), db\<lparr>outbox := as @ r' # bs\<rparr>)
      \<and> r' = r\<lparr>oe_status := (if ok then outboxStatusSent else if MaxAttempts (rl_cfg rl) \<le> n then outboxStatusFailed
                   else outboxStatusPending),
             oe_sent_at := (if ok then Some (pg_time (now ev)) else oe_sent_at r),
             oe_last_error := (if ok then None else Some (case pe of Some e \<Rightarrow> et e | None \<Rightarrow> [])),
             oe_claimed_by := None, oe_claimed_at := None, oe_lease_expires_at := None\<rparr>"
      using r(1) r(2)[unfolded own]
      by (intro exI [of _ as] exI [of _ r] exI [of _ bs] exI [of _ "ack_setter et rl ev ok n pe r"] conjI) auto
    with True show ?thesis unfolding own by (simp only: if_True)
  next
    case False
    with Ack_calm [OF assms(2,3), of et rl i ok n pe db] show ?thesis unfolding own by (simp only: if_False)
  qed
qed

lemma ack_fenced_witness:
  "let db = empty_db\<lparr>outbox := [claimed_row ''w1'' 5000 180000 (sample_outbox_row ''a'' 5000)]\<rparr>;
       res = Ack (\<lambda>_. ''boom'') sample_relay (calm_env ''2'' 9000) ''a'' True 1 None db in
   fst res = Inr () \<and> map oe_status (outbox (snd res)) = [outboxStatusSent]"
  using ack_fenced [of "empty_db\<lparr>outbox := [claimed_row ''w1'' 5000 180000 (sample_outbox_row ''a'' 5000)]\<rparr>"
      "calm_env ''2'' 9000" "''a''" sample_relay "\<lambda>_. ''boom''" True 1 None]
  by (simp add: claimed_row_def pg_time_def sample_relay_def Cons_eq_append_conv)

end
