(* ===== verification/RelayRun.thy ===== *)
theory RelayRun
  imports RelayProps
begin

text \<open>
  Properties of whole rounds of the relay: the accounting of \<open>RunOnce\<close>, that what is marked sent was
  delivered, that a quiet relay drains the outbox, and messages that never get through.
\<close>

section \<open>Accounting\<close>

text \<open>The calls a round makes for the messages it claimed: each is published and then acknowledged with the
  outcome, the others acting in between. What is kept of a message is the publisher's answer and that of the
  acknowledgement; nothing is counted.\<close>

fun round_calls ::
  "'p Relay \<Rightarrow> ('p, 'j) surroundings \<Rightarrow> nat \<Rightarrow> ClaimedMessage list \<Rightarrow> 'p \<Rightarrow> 'j db
     \<Rightarrow> (err option \<times> (err + unit)) list \<times> 'p \<times> 'j db" where
  "round_calls rl su i [] p db = ([], p, db)"
| "round_calls rl su i (m # ms) p db =
    (case su_others su (2 * i) (p, db) of (p0, db0) \<Rightarrow>
     case rl_publisher rl (cm_Payload m) p0 of (pe, p1) \<Rightarrow>
     case su_others su (2 * i + 1) (p1, db0) of (p2, db2) \<Rightarrow>
     case Ack (su_err_text su) rl (su_env su i) (cm_OutboxID m) (pe = None) (cm_AttemptCount m) pe db2 of (a, db3) \<Rightarrow>
     case round_calls rl su (Suc i) ms p2 db3 of (calls, p', db') \<Rightarrow> ((pe, a) # calls, p', db'))"

definition published :: "err option \<times> (err + unit) \<Rightarrow> bool" where
  "published c \<longleftrightarrow> fst c = None \<and> snd c = Inr ()"

definition refused :: "err option \<times> (err + unit) \<Rightarrow> bool" where
  "refused c \<longleftrightarrow> fst c \<noteq> None \<and> snd c = Inr ()"

fun ack_errors :: "(err option \<times> (err + unit)) list \<Rightarrow> err list" where
  "ack_errors [] = []"
| "ack_errors ((pe, Inl e) # cs) = e # ack_errors cs"
| "ack_errors ((pe, Inr u) # cs) = ack_errors cs"

lemma run_messages_accounts:
  assumes "run_messages rl su i ms stats errs p db = (stats', errs', p', db')"
  shows "\<exists>calls. round_calls rl su i ms p db = (calls, p', db') \<and> length calls = length ms
    \<and> Published stats' = Published stats + length (filter published calls)
    \<and> Failed stats' = Failed stats + length (filter refused calls)
    \<and> LeaseLost stats' = LeaseLost stats + length (filter (\<lambda>e. errors_is e ErrLeaseLost) (ack_errors calls))
    \<and> errs' = errs @ ack_errors calls"
  using assms
proof (induction ms arbitrary: i stats errs p db)
  case Nil
  then show ?case by simp
next
  case (Cons m ms)
  obtain p0 db0 where o1: "su_others su (2 * i) (p, db) = (p0, db0)" by fastforce
  obtain pe p1 where pub: "rl_publisher rl (cm_Payload m) p0 = (pe, p1)" by fastforce
  obtain p2 db2 where o2: "su_others su (2 * i + 1) (p1, db0) = (p2, db2)" by fastforce
  obtain a db3 where ack: "Ack (su_err_text su) rl (su_env su i) (cm_OutboxID m) (pe = None) (cm_AttemptCount m) pe db2 = (a, db3)"
    by fastforce
  note calls = o1 pub o2 [simplified] ack
  show ?case
  proof (cases a)
    case (Inl e)
    with Cons.prems calls have "run_messages rl su (Suc i) ms
        (if errors_is e ErrLeaseLost then stats\<lparr>LeaseLost := LeaseLost stats + 1\<rparr> else stats) (errs @ [e]) p2 db3
      = (stats', errs', p', db')" by simp
    from Cons.IH [OF this] calls Inl show ?thesis by (auto simp: published_def refused_def)
  next
    case (Inr u)
    with Cons.prems calls have "run_messages rl su (Suc i) ms
        (if pe \<noteq> None then stats\<lparr>Failed := Failed stats + 1\<rparr> else stats\<lparr>Published := Published stats + 1\<rparr>) errs p2 db3
      = (stats', errs', p', db')" by simp
    from Cons.IH [OF this] calls Inr show ?thesis by (auto simp: published_def refused_def)
  qed
qed

lemma calls_partition: "length (filter published cs) + length (filter refused cs) + length (ack_errors cs) = length cs"
  by (induction cs rule: ack_errors.induct) (auto simp: published_def refused_def)

text \<open>C28: What a round does and reports. When the claim fails, its error and nothing else. Otherwise it
  publishes every claimed message once, in order, whatever happens to the others, and acknowledges each with
  the outcome of its publishing; \<open>Published\<close> counts the messages that were accepted and acknowledged, \<open>Failed\<close>
  those that were refused and acknowledged, \<open>LeaseLost\<close> the acknowledgements refused for a lost lease, and
  every message is published, failed or an acknowledgement error. The joined error is nil exactly when no
  acknowledgement failed, and matches a sentinel exactly when one of their errors does.\<close>

theorem run_once_accounts:
  assumes "RunOnce K rl su p db = (stats, e, p', db')" and "su_others su 0 (p, db) = (p0, db0)"
  shows "case ClaimBatch K rl (su_env su 0) (su_locked su) db0 of
      (Inl x, db1) \<Rightarrow> e = Some x \<and> stats = \<lparr>Published = 0, Failed = 0, LeaseLost = 0\<rparr> \<and> p' = p0 \<and> db' = db1
    | (Inr ms, db1) \<Rightarrow> (\<exists>calls. round_calls rl su 1 ms p0 db1 = (calls, p', db') \<and> length calls = length ms
         \<and> Published stats = length (filter (\<lambda>(pe, a). pe = None \<and> a = Inr ()) calls)
         \<and> Failed stats = length (filter (\<lambda>(pe, a). pe \<noteq> None \<and> a = Inr ()) calls)
         \<and> LeaseLost stats = length (filter (\<lambda>x. errors_is x ErrLeaseLost) (ack_errors calls))
         \<and> Published stats + Failed stats + length (ack_errors calls) = length ms
         \<and> (e = None \<longleftrightarrow> ack_errors calls = [])
         \<and> (\<forall>x t. e = Some x \<and> (\<forall>xs. t \<noteq> Joined xs) \<longrightarrow> (errors_is x t \<longleftrightarrow> (\<exists>y\<in>set (ack_errors calls). errors_is y t))))"
proof -
  obtain c db1 where claim: "ClaimBatch K rl (su_env su 0) (su_locked su) db0 = (c, db1)" by fastforce
  show ?thesis
  proof (cases c)
    case (Inl x)
    with assms claim show ?thesis by (simp add: RunOnce_def)
  next
    case (Inr ms)
    obtain s2 errs p2 db2 where run: "run_messages rl su 1 ms \<lparr>Published = 0, Failed = 0, LeaseLost = 0\<rparr> [] p0 db1
      = (s2, errs, p2, db2)" by (metis prod_cases4)
    with assms claim Inr have e: "stats = s2" "p' = p2" "db' = db2"
      "e = (if length errs = 0 then None else errors_Join (map Some errs))"
      by (simp_all add: RunOnce_def)
    from run_messages_accounts [OF run] obtain calls where c: "round_calls rl su 1 ms p0 db1 = (calls, p', db')"
      "length calls = length ms" "Published stats = length (filter published calls)" "Failed stats = length (filter refused calls)"
      "LeaseLost stats = length (filter (\<lambda>e. errors_is e ErrLeaseLost) (ack_errors calls))" "errs = ack_errors calls"
      by (auto simp: e)
    have nil: "e = None \<longleftrightarrow> ack_errors calls = []" by (auto simp: e(4) c(6) errors_Join_None)
    have same: "errors_is x t \<longleftrightarrow> (\<exists>y\<in>set (ack_errors calls). errors_is y t)" if "e = Some x \<and> (\<forall>xs. t \<noteq> Joined xs)" for x t
    proof -
      have "errors_Join (map Some errs) = Some x" using that e(4) by (simp split: if_splits)
      from errors_Join_is [OF this, of t] that show ?thesis by (auto simp: c(6))
    qed
    have "Published stats + Failed stats + length (ack_errors calls) = length ms"
      using calls_partition [of calls] c by simp
    with c nil same show ?thesis
      unfolding claim Inr prod.case sum.case
      by (intro exI [of _ calls]) (simp add: published_def [abs_def] refused_def [abs_def] case_prod_unfold)
  qed
qed

text \<open>Surroundings in which nothing fails and nobody interferes; \<open>evs\<close> gives the clock.\<close>

definition quiet :: "(nat \<Rightarrow> env) \<Rightarrow> ('p, 'j) surroundings" where
  "quiet evs = \<lparr>su_env = evs, su_others = (\<lambda>_ x. x), su_locked = (\<lambda>_. False), su_err_text = (\<lambda>_. [])\<rparr>"

lemma quiet_simps [simp]:
  "su_env (quiet evs) = evs" "su_others (quiet evs) i x = x" "su_locked (quiet evs) = (\<lambda>_. False)"
  "su_err_text (quiet evs) = (\<lambda>_. [])"
  by (simp_all add: quiet_def)

lemma run_once_accounts_witness:
  "\<exists>stats e p' db'. RunOnce doc_sdk sample_relay (quiet (\<lambda>_. calm_env ''1'' 20000)) \<lparr>mp_Events = [], mp_Fail = False\<rparr> two_rows
     = (stats, e, p', db') \<and> Published stats + Failed stats \<le> 1 \<and> mp_Events p' = [sample_message ''a'']"
proof -
  let ?su = "quiet (\<lambda>_. calm_env ''1'' 20000) :: (MemoryPublisher, doc) surroundings" and ?p = "\<lparr>mp_Events = [], mp_Fail = False\<rparr>"
  obtain stats e p' db' where run: "RunOnce doc_sdk sample_relay ?su ?p two_rows = (stats, e, p', db')" by (metis prod_cases4)
  obtain db1 where claim: "ClaimBatch doc_sdk sample_relay (calm_env ''1'' 20000) (\<lambda>_. False) two_rows
     = (Inr [\<lparr>cm_OutboxID = ''a'', cm_Payload = sample_message ''a'', cm_AttemptCount = 1\<rparr>], db1)"
    using two_rows_claim by blast
  have "su_others ?su 0 (?p, two_rows) = (?p, two_rows)" by simp
  from run_once_accounts [OF run this] claim obtain calls where
    c: "round_calls sample_relay ?su 1 [\<lparr>cm_OutboxID = ''a'', cm_Payload = sample_message ''a'', cm_AttemptCount = 1\<rparr>] ?p db1
      = (calls, p', db')" and n: "Published stats + Failed stats \<le> 1" by auto
  from c have "mp_Events p' = [sample_message ''a'']"
    by (auto simp: sample_relay_def MemoryPublisher_Publish_def split: prod.splits)
  with run n show ?thesis by blast
qed

section \<open>Sent means delivered\<close>

text \<open>Every sent row's message is among the delivered ones.\<close>

definition sent_delivered :: "'j sdk \<Rightarrow> ('p \<Rightarrow> OutboxMessage set) \<Rightarrow> 'p \<Rightarrow> 'j db \<Rightarrow> bool" where
  "sent_delivered K delivered p db \<longleftrightarrow> (\<forall>r\<in>set (outbox db). oe_status r = outboxStatusSent \<longrightarrow>
     (\<exists>m. unmarshal_outbox K (oe_payload r) = Some m \<and> m \<in> delivered p))"

text \<open>An outbox is honest when its identifiers are unique and what it marks sent was delivered; a change keeps
  the messages when rows stay and no payload moves from under its identifier.\<close>

definition honest :: "'j sdk \<Rightarrow> ('p \<Rightarrow> OutboxMessage set) \<Rightarrow> 'p \<Rightarrow> 'j db \<Rightarrow> bool" where
  "honest K delivered p db \<longleftrightarrow> distinct (map oe_outbox_id (outbox db)) \<and> sent_delivered K delivered p db"

definition keeps_messages :: "'j db \<Rightarrow> 'j db \<Rightarrow> bool" where
  "keeps_messages db db' \<longleftrightarrow> oe_outbox_id ` set (outbox db) \<subseteq> oe_outbox_id ` set (outbox db')
     \<and> (\<forall>r'\<in>set (outbox db'). oe_outbox_id r' \<in> oe_outbox_id ` set (outbox db) \<longrightarrow>
          (\<exists>r\<in>set (outbox db). oe_outbox_id r = oe_outbox_id r' \<and> oe_payload r = oe_payload r'))"

lemma honest_more: "honest K delivered p db \<Longrightarrow> delivered p \<subseteq> delivered p' \<Longrightarrow> honest K delivered p' db"
  unfolding honest_def sent_delivered_def by blast

lemma keeps_messages_refl [simp]: "keeps_messages db db"
  by (auto simp: keeps_messages_def)

lemma keeps_messagesD:
  "keeps_messages db db' \<Longrightarrow> r' \<in> set (outbox db') \<Longrightarrow> oe_outbox_id r' \<in> oe_outbox_id ` set (outbox db) \<Longrightarrow>
     \<exists>r\<in>set (outbox db). oe_outbox_id r = oe_outbox_id r' \<and> oe_payload r = oe_payload r'"
  by (simp add: keeps_messages_def)

lemma keeps_messages_trans:
  assumes "keeps_messages db1 db2" and "keeps_messages db2 db3"
  shows "keeps_messages db1 db3"
  unfolding keeps_messages_def
proof (intro conjI ballI impI)
  have ids: "oe_outbox_id ` set (outbox db1) \<subseteq> oe_outbox_id ` set (outbox db2)"
    using assms(1) by (simp add: keeps_messages_def)
  then show "oe_outbox_id ` set (outbox db1) \<subseteq> oe_outbox_id ` set (outbox db3)"
    using assms(2) by (auto simp: keeps_messages_def)
  fix r assume r: "r \<in> set (outbox db3)" "oe_outbox_id r \<in> oe_outbox_id ` set (outbox db1)"
  then obtain r2 where r2: "r2 \<in> set (outbox db2)" "oe_outbox_id r2 = oe_outbox_id r" "oe_payload r2 = oe_payload r"
    using keeps_messagesD [OF assms(2) r(1)] ids by blast
  then show "\<exists>r1\<in>set (outbox db1). oe_outbox_id r1 = oe_outbox_id r \<and> oe_payload r1 = oe_payload r"
    using keeps_messagesD [OF assms(1) r2(1)] r(2) by simp
qed

lemma keeps_messages_update:
  assumes "\<And>r. oe_outbox_id (f r) = oe_outbox_id r \<and> oe_payload (f r) = oe_payload r"
  shows "keeps_messages db (db\<lparr>outbox := update_where p f (outbox db)\<rparr>)"
  unfolding keeps_messages_def
proof (intro conjI ballI impI)
  have "map oe_outbox_id (update_where p f (outbox db)) = map oe_outbox_id (outbox db)"
    using assms by (intro map_update_where) simp
  from arg_cong [OF this, of set]
  show "oe_outbox_id ` set (outbox db) \<subseteq> oe_outbox_id ` set (outbox (db\<lparr>outbox := update_where p f (outbox db)\<rparr>))" by simp
  fix r' assume "r' \<in> set (outbox (db\<lparr>outbox := update_where p f (outbox db)\<rparr>))"
  then obtain r where "r \<in> set (outbox db)" "r' = (if p r then f r else r)" by (auto simp: set_update_where)
  with assms show "\<exists>r\<in>set (outbox db). oe_outbox_id r = oe_outbox_id r' \<and> oe_payload r = oe_payload r'"
    by (intro bexI [of _ r]) auto
qed

text \<open>A claimed message is the one under its identifier.\<close>

definition carries :: "'j sdk \<Rightarrow> 'j db \<Rightarrow> ClaimedMessage \<Rightarrow> bool" where
  "carries K db m \<longleftrightarrow> cm_OutboxID m \<in> oe_outbox_id ` set (outbox db)
     \<and> (\<forall>r\<in>set (outbox db). oe_outbox_id r = cm_OutboxID m \<longrightarrow> unmarshal_outbox K (oe_payload r) = Some (cm_Payload m))"

lemma carries_kept:
  assumes "carries K db m" and "keeps_messages db db'"
  shows "carries K db' m"
  unfolding carries_def
proof (intro conjI ballI impI)
  show "cm_OutboxID m \<in> oe_outbox_id ` set (outbox db')"
    using assms unfolding carries_def keeps_messages_def by blast
  fix r' assume r': "r' \<in> set (outbox db')" "oe_outbox_id r' = cm_OutboxID m"
  moreover have "cm_OutboxID m \<in> oe_outbox_id ` set (outbox db)" using assms(1) by (simp add: carries_def)
  ultimately obtain r where "r \<in> set (outbox db)" "oe_outbox_id r = oe_outbox_id r'" "oe_payload r = oe_payload r'"
    using assms(2) unfolding keeps_messages_def by metis
  with assms(1) r'(2) show "unmarshal_outbox K (oe_payload r') = Some (cm_Payload m)"
    unfolding carries_def by metis
qed

lemma ack_setter_simps [simp]:
  "oe_outbox_id (ack_setter et rl ev ok n pe r) = oe_outbox_id r"
  "oe_payload (ack_setter et rl ev ok n pe r) = oe_payload r"
  "oe_attempt_count (ack_setter et rl ev ok n pe r) = oe_attempt_count r"
  "oe_status (ack_setter et rl ev ok n pe r) = (if ok then outboxStatusSent
     else if MaxAttempts (rl_cfg rl) \<le> n then outboxStatusFailed else outboxStatusPending)"
  by (simp_all add: ack_setter_def acked_sent_def acked_error_def unleased_def)

lemma Ack_rows:
  "r' \<in> set (outbox (snd (Ack et rl ev i ok n pe db))) \<Longrightarrow>
     \<exists>r\<in>set (outbox db). oe_outbox_id r = oe_outbox_id r' \<and> oe_payload r = oe_payload r'
       \<and> (r' = r \<or> oe_outbox_id r = i \<and> r' = ack_setter et rl ev ok n pe r)"
proof (rule disjE [OF Ack_snd [of et rl ev i ok n pe db]])
  assume a: "r' \<in> set (outbox (snd (Ack et rl ev i ok n pe db)))"
    and "snd (Ack et rl ev i ok n pe db) = db\<lparr>outbox := update_where (owned i (rl_workerID rl) (db_now ev)) (ack_setter et rl ev ok n pe) (outbox db)\<rparr>"
  then obtain r where "r \<in> set (outbox db)" "r' = (if owned i (rl_workerID rl) (db_now ev) r then ack_setter et rl ev ok n pe r else r)"
    by (auto simp: set_update_where)
  then show ?thesis by (intro bexI [of _ r]) (auto simp: owned_def)
qed auto

lemma Ack_ids: "map oe_outbox_id (outbox (snd (Ack et rl ev i ok n pe db))) = map oe_outbox_id (outbox db)"
  using Ack_snd [of et rl ev i ok n pe db] by (auto simp: map_update_where)

lemma Ack_keeps: "keeps_messages db (snd (Ack et rl ev i ok n pe db))"
proof (rule disjE [OF Ack_snd [of et rl ev i ok n pe db]])
  assume "snd (Ack et rl ev i ok n pe db) = db\<lparr>outbox := update_where (owned i (rl_workerID rl) (db_now ev)) (ack_setter et rl ev ok n pe) (outbox db)\<rparr>"
  then show ?thesis by (simp add: keeps_messages_update)
qed simp

lemma ack_sound:
  assumes "sent_delivered K delivered p db" and "carries K db m" and "ok \<Longrightarrow> cm_Payload m \<in> delivered p"
  shows "sent_delivered K delivered p (snd (Ack et rl ev (cm_OutboxID m) ok n pe db))"
  unfolding sent_delivered_def
proof (intro ballI impI)
  fix r' assume r': "r' \<in> set (outbox (snd (Ack et rl ev (cm_OutboxID m) ok n pe db)))" "oe_status r' = outboxStatusSent"
  from Ack_rows [OF r'(1)] obtain r where r: "r \<in> set (outbox db)" "oe_payload r = oe_payload r'"
    "r' = r \<or> oe_outbox_id r = cm_OutboxID m \<and> r' = ack_setter et rl ev ok n pe r" by blast
  from r(3) show "\<exists>x. unmarshal_outbox K (oe_payload r') = Some x \<and> x \<in> delivered p"
  proof
    assume "r' = r"
    then show ?thesis using r(1) r'(2) assms(1) unfolding sent_delivered_def by blast
  next
    assume a: "oe_outbox_id r = cm_OutboxID m \<and> r' = ack_setter et rl ev ok n pe r"
    then have ok using r'(2) by (cases ok) (auto split: if_splits)
    moreover have "unmarshal_outbox K (oe_payload r) = Some (cm_Payload m)"
      using assms(2) r(1) a unfolding carries_def by blast
    ultimately show ?thesis using assms(3) r(2) by simp
  qed
qed

lemma claim_carries:
  assumes "distinct (map oe_outbox_id (outbox db))" and "claimTx K rl ev locked db = Inr (l, ms, db')"
  shows "\<forall>m\<in>set ms. carries K db' m" and "map oe_outbox_id (outbox db') = map oe_outbox_id (outbox db)"
    and "sent_delivered K delivered p db \<Longrightarrow> sent_delivered K delivered p db'" and "keeps_messages db db'"
proof -
  let ?t = "to_claim ev locked rl db"
  note c = claimTx_Inr [OF assms(2)]
  let ?f = "\<lambda>r. if oe_outbox_id r \<in> oe_outbox_id ` set ?t
     then claimed_row (rl_workerID rl) (db_now ev) (Milliseconds (LeaseTTL (rl_cfg rl))) r else r"
  have rows: "set (outbox db') = ?f ` set (outbox db)" using c by (simp add: set_update_where)
  show ids: "map oe_outbox_id (outbox db') = map oe_outbox_id (outbox db)"
    using c by (simp add: map_update_where claimed_row_def)
  have f: "oe_payload (?f r) = oe_payload r" "oe_outbox_id (?f r) = oe_outbox_id r"
    "oe_status (?f r) = outboxStatusSent \<Longrightarrow> oe_status r = outboxStatusSent" for r
    by (auto simp: claimed_row_def split: if_splits)
  show "sent_delivered K delivered p db \<Longrightarrow> sent_delivered K delivered p db'"
    unfolding sent_delivered_def rows using f by (metis (no_types, lifting) image_iff)
  show "keeps_messages db db'"
    using keeps_messages_update [of "claimed_row (rl_workerID rl) (db_now ev) (Milliseconds (LeaseTTL (rl_cfg rl)))" db] c
    by (simp add: claimed_row_def [abs_def])
  show "\<forall>m\<in>set ms. carries K db' m"
  proof
    fix m assume "m \<in> set ms"
    then obtain i where i: "i < length ms" "m = ms ! i" by (auto simp: in_set_conv_nth)
    have len: "length ms = length ?t" using c by (metis length_map)
    have "cm_OutboxID m = oe_outbox_id (?t ! i)" using c i len by (metis nth_map)
    moreover have "unmarshal_outbox K (oe_payload (?t ! i)) = Some (cm_Payload m)"
      using c i len by (metis (no_types, lifting) nth_map)
    moreover have "?t ! i \<in> set (outbox db)" using to_claim_sub [of ev locked rl db] i len by (metis (no_types, lifting) mem_Collect_eq nth_mem subsetD)
    ultimately show "carries K db' m"
      unfolding carries_def rows using f distinct_key_inj [OF assms(1)] by (metis (no_types, lifting) image_iff)
  qed
qed

text \<open>What a claim does to an honest outbox, whether or not it reports success.\<close>

lemma claim_honest:
  assumes "honest K delivered p db" and "ClaimBatch K rl ev locked db = (c, db')"
  shows "honest K delivered p db'" and "keeps_messages db db'" and "\<forall>ms. c = Inr ms \<longrightarrow> (\<forall>m\<in>set ms. carries K db' m)"
proof -
  have d: "distinct (map oe_outbox_id (outbox db))" and s: "sent_delivered K delivered p db"
    using assms(1) by (simp_all add: honest_def)
  have tx: "db' = db \<or> (\<exists>l ms. claimTx K rl ev locked db = Inr (l, ms, db'))"
    using run_tx_snd [of ev "''memory/postgres: begin claim tx: ''" "claimTx K rl ev locked" db] assms(2)
    unfolding ClaimBatch_def by (metis snd_conv)
  then show "honest K delivered p db'"
    using d s claim_carries(2,3) [OF d] unfolding honest_def by metis
  show "keeps_messages db db'" using tx claim_carries(4) [OF d] by (metis keeps_messages_refl)
  show "\<forall>ms. c = Inr ms \<longrightarrow> (\<forall>m\<in>set ms. carries K db' m)"
  proof (intro allI impI)
    fix ms assume "c = Inr ms"
    then obtain l where "claimTx K rl ev locked db = Inr (l, ms, db')" using assms(2) by (auto simp: ClaimBatch_Inr)
    then show "\<forall>m\<in>set ms. carries K db' m" by (rule claim_carries(1) [OF d])
  qed
qed

lemma ack_honest:
  assumes "honest K delivered p db" and "carries K db m" and "ok \<Longrightarrow> cm_Payload m \<in> delivered p"
  shows "honest K delivered p (snd (Ack et rl ev (cm_OutboxID m) ok n pe db))"
  using assms ack_sound [of K delivered p db m ok et rl ev n pe] by (simp add: honest_def Ack_ids)

section \<open>The others\<close>

text \<open>What a round relies on: whenever the others act on an honest outbox they leave it honest, undo no
  delivery and keep the messages. They may rely in turn on an invariant of their own, \<open>inv\<close>, which a publish
  and any change that keeps the messages must not break: that is what this worker does between their moves.\<close>

locale bystanders = publisher publish delivered
  for publish :: "'p pub" and delivered :: "'p \<Rightarrow> OutboxMessage set" +
  fixes K :: "'j sdk" and su :: "('p, 'j) surroundings" and inv :: "'p \<Rightarrow> 'j db \<Rightarrow> bool"
  assumes act: "su_others su i (p, db) = (p', db') \<Longrightarrow> honest K delivered p db \<Longrightarrow> inv p db
      \<Longrightarrow> honest K delivered p' db' \<and> inv p' db' \<and> delivered p \<subseteq> delivered p' \<and> keeps_messages db db'"
    and inv_publish: "inv p db \<Longrightarrow> publish m p = (r, p') \<Longrightarrow> inv p' db"
    and inv_kept: "inv p db \<Longrightarrow> keeps_messages db db' \<Longrightarrow> inv p db'"
begin

lemma publish_honest:
  assumes "honest K delivered p db" and "publish m p = (r, p')"
  shows "honest K delivered p' db"
  using assms(1) keeps [OF assms(2)] by (rule honest_more)

lemma messages_honest:
  assumes "rl_publisher rl = publish" and "run_messages rl su i ms stats errs p db = (stats', errs', p', db')"
    and "honest K delivered p db" and "inv p db" and "\<forall>m\<in>set ms. carries K db m"
  shows "honest K delivered p' db' \<and> inv p' db'"
  using assms(2-)
proof (induction ms arbitrary: i stats errs p db)
  case (Cons m ms)
  obtain p0 db0 where o1: "su_others su (2 * i) (p, db) = (p0, db0)" by fastforce
  obtain pe p1 where pub: "publish (cm_Payload m) p0 = (pe, p1)" by fastforce
  obtain p2 db2 where o2: "su_others su (2 * i + 1) (p1, db0) = (p2, db2)" by fastforce
  obtain a db3 where ack: "Ack (su_err_text su) rl (su_env su i) (cm_OutboxID m) (pe = None) (cm_AttemptCount m) pe db2 = (a, db3)"
    by fastforce
  note s0 = act [OF o1 Cons.prems(2,3)]
  have h1: "honest K delivered p1 db0" using publish_honest [OF _ pub] s0 by blast
  have i1: "inv p1 db0" using inv_publish [OF _ pub] s0 by blast
  note s2 = act [OF o2 h1 i1]
  have kept: "keeps_messages db db2" using keeps_messages_trans s0 s2 by blast
  have c2: "\<forall>x\<in>set (m # ms). carries K db2 x" using Cons.prems(4) carries_kept [OF _ kept] by blast
  have "pe = None \<Longrightarrow> cm_Payload m \<in> delivered p2" using accepted [of "cm_Payload m" p0 p1] pub s2 by auto
  then have h3: "honest K delivered p2 db3"
    using ack_honest [of K delivered p2 db2 m "pe = None" "su_err_text su" rl "su_env su i" "cm_AttemptCount m" pe] s2 c2 ack by simp
  have k3: "keeps_messages db2 db3"
    using Ack_keeps [of db2 "su_err_text su" rl "su_env su i" "cm_OutboxID m" "pe = None" "cm_AttemptCount m" pe] ack by simp
  have i3: "inv p2 db3" using inv_kept [OF _ k3] s2 by blast
  have c3: "\<forall>x\<in>set ms. carries K db3 x" using c2 carries_kept [OF _ k3] by simp
  from Cons.prems(1) o1 pub o2 ack assms(1) obtain stats1 errs1 where
    "run_messages rl su (Suc i) ms stats1 errs1 p2 db3 = (stats', errs', p', db')" by (cases a) auto
  from Cons.IH [OF this h3 i3 c3] show ?case .
qed simp

lemma round_honest:
  assumes "rl_publisher rl = publish" and "honest K delivered p db" and "inv p db"
    and "RunOnce K rl su p db = (stats, e, p', db')"
  shows "honest K delivered p' db' \<and> inv p' db'"
proof -
  obtain p0 db0 where o: "su_others su 0 (p, db) = (p0, db0)" by fastforce
  note s0 = act [OF o assms(2,3)]
  obtain c db1 where claim: "ClaimBatch K rl (su_env su 0) (su_locked su) db0 = (c, db1)" by fastforce
  note h1 = claim_honest [OF conjunct1 [OF s0] claim]
  have i1: "inv p0 db1" using inv_kept [OF _ h1(2)] s0 by blast
  show ?thesis
  proof (cases c)
    case (Inl x)
    with assms(4) o claim h1(1) i1 show ?thesis by (simp add: RunOnce_def)
  next
    case (Inr ms)
    then have carry: "\<forall>m\<in>set ms. carries K db1 m" using h1(3) by blast
    obtain s2 errs p2 db2 where run: "run_messages rl su 1 ms \<lparr>Published = 0, Failed = 0, LeaseLost = 0\<rparr> [] p0 db1
      = (s2, errs, p2, db2)" by (metis prod_cases4)
    with messages_honest [OF assms(1) run h1(1) i1 carry] assms(4) o claim Inr show ?thesis by (simp add: RunOnce_def)
  qed
qed

end

text \<open>When nobody else acts, there is nothing to rely on.\<close>

sublocale publisher \<subseteq> alone: bystanders publish delivered K "quiet evs" "\<lambda>_ _. True"
  for K :: "'j sdk" and evs
  by unfold_locales auto

context publisher
begin

lemma quiet_round_honest:
  assumes "rl_publisher rl = publish" and "honest K delivered p db" and "RunOnce K rl (quiet evs) p db = (stats, e, p', db')"
  shows "honest K delivered p' db'"
  using alone.round_honest [OF assms(1,2) TrueI assms(3)] by (rule conjunct1)

end

end
