(* ===== verification/History.thy ===== *)
theory History
  imports StoreOps DedupeProps RelayRun
begin

text \<open>
  The store over time: one step per transaction or single statement that takes effect, made by any
  operation of any client or worker. The transactions that load before they update appear with
  whatever record they had loaded, so that every interleaving of loads and commits is a sequence
  of steps. Each step's effect on the rows of a table is one of a few moves (\<open>row_step\<close>,
  \<open>outbox_step\<close>), over which the invariants are proved.
\<close>

section \<open>Steps\<close>

text \<open>A save of an idempotency entry names the tenant and key it writes.\<close>

datatype actor = StoreOp | Saver "string \<times> string" | Operator | Worker string

text \<open>What a client can have loaded for a record: its identity and tags are the row's; everything else
  may be out of date.\<close>

definition loaded_as :: "string \<Rightarrow> string \<Rightarrow> MemoryRecord \<Rightarrow> bool" where
  "loaded_as t m cur \<longleftrightarrow> TenantID cur = t \<and> MemoryID cur = m \<and> Tags cur \<noteq> None"

text \<open>What a step keeps of a relay: its configuration and identity, not its publisher.\<close>

definition relay_side :: "'p Relay \<Rightarrow> unit Relay" where
  "relay_side rl = \<lparr>rl_publisher = (\<lambda>_ s. (None, s)), rl_cfg = rl_cfg rl, rl_workerID = rl_workerID rl\<rparr>"

lemma relay_side_simps [simp]: "rl_cfg (relay_side rl) = rl_cfg rl" "rl_workerID (relay_side rl) = rl_workerID rl"
  by (simp_all add: relay_side_def)

inductive commit_step :: "'j sdk \<Rightarrow> env \<Rightarrow> actor \<Rightarrow> 'j db \<Rightarrow> 'j db \<Rightarrow> bool" for K :: "'j sdk" where
  wrote: "write_fresh K ev inp db = Inr (l, r, db') \<Longrightarrow> fits_i64 (HitCount (wi_Record inp)) \<Longrightarrow> commit_step K ev StoreOp db db'"
| mutate: "mutate_loaded K ev (mutation_of q) cur db = Inr (rec, db')
    \<Longrightarrow> loaded_as (mu_tenantID (mutation_of q)) (mu_memoryID (mutation_of q)) cur \<Longrightarrow> commit_step K ev StoreOp db db'"
| promote: "promote_loaded K ev inp cur db = Inr (l, r, db')
    \<Longrightarrow> loaded_as (pr_TenantID inp) (pr_MemoryID inp) cur \<Longrightarrow> commit_step K ev StoreOp db db'"
| claim_key: "claim_dedupe d (dedupes db) = Inr (w, dds) \<Longrightarrow> commit_step K ev StoreOp db (db\<lparr>dedupes := dds\<rparr>)"
| collapse: "mutate_loaded K ev (loser_mutation inp) cur db = Inr (rec, db1)
    \<Longrightarrow> loaded_as (rd_TenantID inp) (MemoryID (rd_Candidate inp)) cur
    \<Longrightarrow> emit K ev collapse_site None (collapse_event K inp winner) db1 = Inr db' \<Longrightarrow> fits_i64 (Version winner)
    \<Longrightarrow> commit_step K ev StoreOp db db'"
| mark: "update_access accessed t ids (records db) = Inr recs \<Longrightarrow> commit_step K ev StoreOp db (db\<lparr>records := recs\<rparr>)"
| append: "insert_memory_event (event_row_of ev eid key x raw) (events db) = Inr evs
    \<Longrightarrow> se_EventType x \<in> set allowedEventTypes \<Longrightarrow> marshal_event K x = Some raw \<Longrightarrow> fits_i64 (se_Version x)
    \<Longrightarrow> commit_step K ev StoreOp db (db\<lparr>events := evs\<rparr>)"
| save: "marshal_entry K e = Some raw \<Longrightarrow> commit_step K ev (Saver (ie_TenantID e, ie_IdempotencyKey e)) db
     (db\<lparr>idems := upsert_idempotency (saved_row e raw) (idems db)\<rparr>)"
| enqueue: "insert_outbox_event (new_outbox_row ev oid (om_MemoryID m) (om_TenantID m) (om_EventID m) (om_EventType m) raw)
      (outbox db) = Inr obs
    \<Longrightarrow> om_EventType m \<in> set allowedEventTypes \<Longrightarrow> marshal_outbox K m = Some raw
    \<Longrightarrow> commit_step K ev StoreOp db (db\<lparr>outbox := obs\<rparr>)"
| requeue: "commit_step K ev Operator db (db\<lparr>outbox :=
     update_where (\<lambda>r. oe_outbox_id r = i \<and> oe_status r = outboxStatusFailed) requeued (outbox db)\<rparr>)"
| claim: "claimTx K (rl :: unit Relay) ev locked db = Inr (l, ms, db') \<Longrightarrow> commit_step K ev (Worker (rl_workerID rl)) db db'"
| ack: "commit_step K ev (Worker (rl_workerID (rl :: unit Relay))) db (db\<lparr>outbox :=
     update_where (owned i (rl_workerID rl) (db_now ev)) (ack_setter et rl ev ok n pe) (outbox db)\<rparr>)"
| release: "commit_step K ev (Worker worker) db (db\<lparr>outbox :=
     update_where (\<lambda>r. oe_claimed_by r = Some worker \<and> oe_status r = outboxStatusProcessing) released (outbox db)\<rparr>)"

text \<open>The databases that can arise, from the empty tables of a fresh schema.\<close>

inductive reachable :: "'j sdk \<Rightarrow> 'j db \<Rightarrow> bool" for K :: "'j sdk" where
  fresh: "reachable K empty_db"
| step: "reachable K db \<Longrightarrow> commit_step K ev a db db' \<Longrightarrow> reachable K db'"

inductive later :: "'j sdk \<Rightarrow> 'j db \<Rightarrow> 'j db \<Rightarrow> bool" for K :: "'j sdk" and db :: "'j db" where
  now: "later K db db"
| then_step: "later K db db1 \<Longrightarrow> commit_step K ev a db1 db2 \<Longrightarrow> later K db db2"

section \<open>Every operation is one step or none\<close>

lemma loaded_row:
  assumes "\<forall>w\<in>set (records db). row_ok w" and "select_memory_record t m (records db) = Inr w"
  shows "loaded_as t m (record_of_row w)"
  using select_memory_record_Inr [OF assms(2)] assms(1) by (auto simp: loaded_as_def row_ok_def)

lemma run_tx_step:
  assumes "\<And>m r db'. body db = Inr (m, r, db') \<Longrightarrow> db' = db \<or> commit_step K ev a db db'"
  shows "snd (run_tx ev l body db) = db \<or> commit_step K ev a db (snd (run_tx ev l body db))"
  using run_tx_snd [of ev l body db] assms by metis

lemma WriteRecord_step:
  assumes "fits_i64 (HitCount (wi_Record inp))"
  shows "snd (WriteRecord K ev inp db) = db \<or> commit_step K ev StoreOp db (snd (WriteRecord K ev inp db))"
proof -
  have "db' = db \<or> commit_step K ev StoreOp db db'" if "writeTx K ev inp db = Inr (m, r, db')" for m r db'
    using that assms by (auto simp: writeTx_def bindE_eq_Inr intro: commit_step.wrote split: option.splits)
  from run_tx_step [of "writeTx K ev inp" db K ev StoreOp, OF this] show ?thesis by (auto simp: WriteRecord_def)
qed

lemma mutation_step:
  assumes "\<forall>w\<in>set (records db). row_ok w"
  shows "snd (run_mutation K ev q db) = db \<or> commit_step K ev StoreOp db (snd (run_mutation K ev q db))"
proof -
  have "db' = db \<or> commit_step K ev StoreOp db db'"
    if "bindE (mutateRecordTx K ev (mutation_of q) db) (\<lambda>(rec, d'). Inr (''memory/postgres: commit mutation tx: '', rec, d'))
        = Inr (m, r, db')" for m r db'
    using that loaded_row [OF assms] by (auto simp: bindE_eq_Inr mutateRecordTx_Inr intro: commit_step.mutate)
  from run_tx_step [of "\<lambda>d. bindE (mutateRecordTx K ev (mutation_of q) d)
       (\<lambda>(rec, d'). Inr (''memory/postgres: commit mutation tx: '', rec, d'))" db K ev StoreOp, OF this]
  have "snd (mutateRecord K ev (mutation_of q) db) = db \<or> commit_step K ev StoreOp db (snd (mutateRecord K ev (mutation_of q) db))"
    by (auto simp: mutateRecord_def mutation_of_event)
  moreover have "snd (mutate_result x) = snd x" for x :: "(err + MemoryRecord) \<times> 'a db"
    by (simp add: mutate_result_def case_prod_unfold)
  ultimately show ?thesis by (simp add: run_mutation_core)
qed

lemma Promote_step:
  assumes "\<forall>w\<in>set (records db). row_ok w"
  shows "snd (Promote K ev inp db) = db \<or> commit_step K ev StoreOp db (snd (Promote K ev inp db))"
proof -
  have "db' = db \<or> commit_step K ev StoreOp db db'" if "promoteTx K ev inp db = Inr (m, r, db')" for m r db'
    using that loaded_row [OF assms] by (auto simp: promoteTx_Inr intro: commit_step.promote)
  from run_tx_step [of "promoteTx K ev inp" db K ev StoreOp, OF this] show ?thesis by (auto simp: Promote_def)
qed

lemma loaded_versions:
  assumes "mutation app" and "mu_apply inp = app" and "mutate_loaded K ev inp cur db = Inr (rec, db')"
    and "\<forall>w\<in>set (records db). fits_i64 (mr_version w)"
  shows "\<forall>w\<in>set (records db'). fits_i64 (mr_version w)"
proof -
  from assms(3) obtain recs where m: "Version cur = mu_expectedVersion inp" "rec = mutated_to ev inp cur"
    "update_mutated rec (mu_tenantID inp) (mu_memoryID inp) (mu_expectedVersion inp) (records db) = Inr (1, recs)"
    "records db' = recs" by (rule mutate_loaded_Inr)
  have "Version rec = i64_inc (mu_expectedVersion inp)"
    using m(1) mutation.identity_after [OF assms(1,2)] by (simp add: m(2))
  then show ?thesis
    using mutated.upd_rows [OF m(3)] assms(4) m(4) by (auto simp: set_update_where mutated.setter_version guarded_def)
qed

lemma ResolveDedupe_step:
  assumes "\<forall>w\<in>set (records db). row_ok w" and "\<forall>w\<in>set (records db). fits_i64 (mr_version w)"
  shows "snd (ResolveDedupe K ev inp db) = db \<or> commit_step K ev StoreOp db (snd (ResolveDedupe K ev inp db))"
proof -
  have "db' = db \<or> commit_step K ev StoreOp db db'" if tx: "dedupeTx K ev inp db = Inr (m, r, db')" for m r db'
  proof (cases "(rd_TenantID inp, rd_DedupeKey inp) \<in> set (map dedupe_key (dedupes db))")
    case True
    with tx obtain w where "dedupe_collide K ev inp w db = Inr (m, r, db')" by (auto simp: dedupeTx_Inr)
    then obtain cur rec db1 winner where c: "mutate_loaded K ev (loser_mutation inp) cur db = Inr (rec, db1)"
      "loaded_as (rd_TenantID inp) (MemoryID (rd_Candidate inp)) cur"
      "emit K ev collapse_site None (collapse_event K inp winner) db1 = Inr db'"
      and win: "\<exists>x\<in>set (records db1). winner = record_of_row x"
      using loaded_row [OF assms(1)] select_memory_record_Inr by (fastforce simp: dedupe_collide_Inr mutateRecordTx_Inr load_Inr)
    have "\<forall>w\<in>set (records db1). fits_i64 (mr_version w)"
      by (rule loaded_versions [OF delete.mutation_axioms _ c(1) assms(2)]) (simp add: loser_mutation_def)
    with win have "fits_i64 (Version winner)" by auto
    with c show ?thesis by (intro disjI2 commit_step.collapse)
  next
    case False
    let ?d = "\<lparr>dd_tenant_id = rd_TenantID inp, dd_dedupe_key = rd_DedupeKey inp,
                dd_winner_memory_id = MemoryID (rd_Candidate inp), dd_created_at = db_now ev\<rparr>"
    from False have "claim_dedupe ?d (dedupes db) = Inr (MemoryID (rd_Candidate inp), dedupes db @ [?d])"
      by (simp add: claim_dedupe_def dedupe_key_def)
    from commit_step.claim_key [OF this, of K ev] False tx show ?thesis by (auto simp: dedupeTx_Inr)
  qed
  from run_tx_step [of "dedupeTx K ev inp" db K ev StoreOp, OF this] show ?thesis by (auto simp: ResolveDedupe_def)
qed

lemma MarkAccess_step: "snd (MarkAccess ev inp db) = db \<or> commit_step K ev StoreOp db (snd (MarkAccess ev inp db))"
proof (cases "ma_MemoryIDs inp = []")
  case False
  let ?u = "update_access (ma_AccessedAt inp) (ma_TenantID inp) (unique_ids [] (ma_MemoryIDs inp)) (records db)"
  have "MarkAccess ev inp db = auto_stmt ev CMark ''memory/postgres: mark access: ''
      (bindE ?u (\<lambda>recs. Inr ((), db\<lparr>records := recs\<rparr>))) db" using False by (simp add: MarkAccess_def)
  with auto_stmt_snd [of ev CMark "''memory/postgres: mark access: ''" "bindE ?u (\<lambda>recs. Inr ((), db\<lparr>records := recs\<rparr>))" db]
    commit_step.mark [of "ma_AccessedAt inp" "ma_TenantID inp" "unique_ids [] (ma_MemoryIDs inp)" db _ K ev]
  show ?thesis by (cases ?u) auto
qed (simp add: MarkAccess_def)

lemma AppendEvent_step:
  assumes "fits_i64 (se_Version e)"
  shows "snd (AppendEvent K ev e db) = db \<or> commit_step K ev StoreOp db (snd (AppendEvent K ev e db))"
  using AppendEvent_snd [of K ev e db] assms by (auto intro: commit_step.append)

lemma EnqueueOutbox_step: "snd (EnqueueOutbox K ev m db) = db \<or> commit_step K ev StoreOp db (snd (EnqueueOutbox K ev m db))"
  using EnqueueOutbox_snd [of K ev m db] by (auto intro: commit_step.enqueue)

lemma SaveIdempotency_step:
  "snd (SaveIdempotency K ev e db) = db
    \<or> commit_step K ev (Saver (ie_TenantID e, ie_IdempotencyKey e)) db (snd (SaveIdempotency K ev e db))"
  using SaveIdempotency_snd [of K ev e db] by (auto intro: commit_step.save)

lemma RequeueFailed_step: "snd (RequeueFailed ev i db) = db \<or> commit_step K ev Operator db (snd (RequeueFailed ev i db))"
  using RequeueFailed_snd [of ev i db] by (auto intro: commit_step.requeue)

lemma ClaimBatch_step:
  "snd (ClaimBatch K rl ev locked db) = db \<or> commit_step K ev (Worker (rl_workerID rl)) db (snd (ClaimBatch K rl ev locked db))"
proof -
  have "claimTx K rl = claimTx K (relay_side rl)" by (intro ext) (simp add: claimTx_def cong: if_cong)
  then have "commit_step K ev (Worker (rl_workerID rl)) db db'" if "claimTx K rl ev locked db = Inr (l, ms, db')" for l ms db'
    using that commit_step.claim [of K "relay_side rl" ev locked db l ms db'] by simp
  then show ?thesis unfolding ClaimBatch_def by (intro run_tx_step) blast
qed

lemma Ack_step:
  fixes db :: "'j db"
  shows "snd (Ack et rl ev i ok n pe db) = db \<or> commit_step K ev (Worker (rl_workerID rl)) db (snd (Ack et rl ev i ok n pe db))"
proof -
  have "(ack_setter et rl ev ok n pe :: 'j outbox_row \<Rightarrow> _) = ack_setter et (relay_side rl) ev ok n pe" by (intro ext) (simp add: ack_setter_def)
  with commit_step.ack [of K ev "relay_side rl" db i et ok n pe] Ack_snd [of et rl ev i ok n pe db] show ?thesis by auto
qed

lemma Release_step:
  "snd (Release rl ev db) = db \<or> commit_step K ev (Worker (rl_workerID rl)) db (snd (Release rl ev db))"
  unfolding Release_def
  by (rule disjE [OF auto_stmt_snd [of ev CRelease "''memory/postgres: release relay leases: ''"]])
    (auto intro: commit_step.release)

section \<open>What a step does to the rows\<close>

text \<open>A version of a record is announced when it has an event and the event an outbox row.\<close>

definition announced :: "'j db \<Rightarrow> string \<Rightarrow> int \<Rightarrow> bool" where
  "announced db m v \<longleftrightarrow> (\<exists>e\<in>set (events db). me_memory_id e = m \<and> me_version e = v
     \<and> (\<exists>ob\<in>set (outbox db). oe_event_id ob = me_event_id e))"

text \<open>A record's row moves in two ways: its access columns change, or its version advances by one and
  is announced.\<close>

definition same_but_access :: "record_row \<Rightarrow> record_row \<Rightarrow> bool" where
  "same_but_access r r' \<longleftrightarrow> r'\<lparr>mr_hit_count := mr_hit_count r, mr_last_access_at := mr_last_access_at r\<rparr> = r"

definition row_step :: "'j db \<Rightarrow> record_row \<Rightarrow> record_row \<Rightarrow> bool" where
  "row_step db' r r' \<longleftrightarrow> mr_memory_id r' = mr_memory_id r \<and> mr_tenant_id r' = mr_tenant_id r \<and> (row_ok r \<longrightarrow> row_ok r')
     \<and> (same_but_access r r' \<or> mr_version r' = i64_inc (mr_version r) \<and> announced db' (mr_memory_id r) (mr_version r'))"

lemma same_but_access_refl [simp]: "same_but_access r r"
  by (simp add: same_but_access_def)

lemma same_but_access_version: "same_but_access r r' \<Longrightarrow> mr_version r' = mr_version r"
  by (metis same_but_access_def record_row.select_convs(16) record_row.update_convs(20) record_row.update_convs(21) record_row.surjective)

lemma row_step_refl [simp]: "row_step db r r"
  by (simp add: row_step_def)

text \<open>The moves of an outbox row: none, or a claim, an acknowledgement or a release by a worker, or the
  operator's requeue.\<close>

inductive outbox_step :: "env \<Rightarrow> actor \<Rightarrow> 'j outbox_row \<Rightarrow> 'j outbox_row \<Rightarrow> bool" where
  stays: "outbox_step ev a r r"
| claims: "claimable (db_now ev) r \<Longrightarrow> outbox_step ev (Worker w) r (claimed_row w (db_now ev) ms r)"
| acks: "owned (oe_outbox_id r) w (db_now ev) r \<Longrightarrow> rl_workerID (rl :: unit Relay) = w
    \<Longrightarrow> outbox_step ev (Worker w) r (ack_setter et rl ev ok n pe r)"
| releases: "oe_claimed_by r = Some w \<Longrightarrow> oe_status r = outboxStatusProcessing \<Longrightarrow> outbox_step ev (Worker w) r (released r)"
| requeues: "oe_status r = outboxStatusFailed \<Longrightarrow> outbox_step ev Operator r (requeued r)"

lemma outbox_step_keeps:
  assumes "outbox_step ev a r r'"
  shows "oe_outbox_id r' = oe_outbox_id r \<and> oe_event_id r' = oe_event_id r \<and> oe_payload r' = oe_payload r
    \<and> oe_event_type r' = oe_event_type r \<and> oe_aggregate_id r' = oe_aggregate_id r \<and> oe_created_at r' = oe_created_at r"
  using assms by cases (auto simp: claimed_row_def ack_setter_def acked_sent_def acked_error_def unleased_def
      released_def requeued_def)

definition new_outbox :: "'j outbox_row \<Rightarrow> bool" where
  "new_outbox r \<longleftrightarrow> oe_status r = outboxStatusPending \<and> oe_attempt_count r = 0 \<and> oe_claimed_by r = None
     \<and> oe_claimed_at r = None \<and> oe_lease_expires_at r = None \<and> oe_sent_at r = None \<and> oe_event_type r \<in> set allowedEventTypes"

definition outbox_moves :: "env \<Rightarrow> actor \<Rightarrow> 'j db \<Rightarrow> 'j db \<Rightarrow> bool" where
  "outbox_moves ev a db db' \<longleftrightarrow> (\<exists>old new. outbox db' = old @ new \<and> list_all2 (outbox_step ev a) (outbox db) old
     \<and> (\<forall>r\<in>set new. new_outbox r) \<and> (distinct (map oe_outbox_id (outbox db)) \<longrightarrow> distinct (map oe_outbox_id (outbox db'))))"

definition event_moves :: "'j db \<Rightarrow> 'j db \<Rightarrow> bool" where
  "event_moves db db' \<longleftrightarrow> (\<exists>new. events db' = events db @ new \<and> (\<forall>e\<in>set new. me_event_type e \<in> set allowedEventTypes)
     \<and> (distinct (map me_event_id (events db)) \<longrightarrow> distinct (map me_event_id (events db')))
     \<and> (distinct (map (\<lambda>e. (me_memory_id e, me_version e, me_event_type e)) (events db))
         \<longrightarrow> distinct (map (\<lambda>e. (me_memory_id e, me_version e, me_event_type e)) (events db'))))"

definition record_moves :: "'j db \<Rightarrow> 'j db \<Rightarrow> bool" where
  "record_moves db db' \<longleftrightarrow> (\<exists>old new. records db' = old @ new \<and> list_all2 (row_step db') (records db) old
     \<and> (\<forall>r\<in>set new. row_ok r \<and> mr_version r = 1 \<and> announced db' (mr_memory_id r) 1)
     \<and> (distinct (map mr_memory_id (records db)) \<longrightarrow> distinct (map mr_memory_id (records db'))))"

lemma list_all2_update_where:
  assumes "\<And>r. R r r" and "\<And>r. p r \<Longrightarrow> R r (f r)"
  shows "list_all2 R rows (update_where p f rows)"
  using assms by (simp add: update_where_def list_all2_conv_all_nth)

lemma outbox_moves_refl [simp]: "outbox db' = outbox db \<Longrightarrow> outbox_moves ev a db db'"
  unfolding outbox_moves_def
  by (intro exI [of _ "outbox db"] exI [of _ "[]"]) (auto intro: list.rel_refl outbox_step.stays)

lemma outbox_moves_update:
  assumes "outbox db' = update_where p f (outbox db)" and "\<And>r. p r \<Longrightarrow> outbox_step ev a r (f r)"
  shows "outbox_moves ev a db db'"
proof -
  have "list_all2 (outbox_step ev a) (outbox db) (outbox db')"
    unfolding assms(1) by (rule list_all2_update_where) (auto intro: outbox_step.stays assms(2))
  moreover have "map oe_outbox_id (outbox db') = map oe_outbox_id (outbox db)"
    unfolding assms(1) using outbox_step_keeps [OF assms(2)] by (intro map_update_where) blast
  ultimately show ?thesis
    unfolding outbox_moves_def by (intro exI [of _ "outbox db'"] exI [of _ "[]"]) simp
qed

lemma outbox_moves_set:
  "(\<And>r. p r \<Longrightarrow> outbox_step ev a r (f r)) \<Longrightarrow> outbox_moves ev a db (db\<lparr>outbox := update_where p f (outbox db)\<rparr>)"
  by (rule outbox_moves_update [of _ p f]) simp_all

lemma event_moves_refl [simp]: "events db' = events db \<Longrightarrow> event_moves db db'"
  by (simp add: event_moves_def)

lemma record_moves_refl [simp]: "records db' = records db \<Longrightarrow> record_moves db db'"
  unfolding record_moves_def by (intro exI [of _ "records db"] exI [of _ "[]"]) (auto intro: list.rel_refl)

text \<open>An emission is an event move and an outbox move, and announces its version.\<close>

lemma emit_moves:
  assumes "emit K ev es key x db = Inr db'" and "se_EventType x \<in> set allowedEventTypes"
  shows "event_moves db db'" and "outbox_moves ev a db db'" and "announced db' (se_MemoryID x) (se_Version x)"
proof -
  note em = emit_Inr [OF assms(1)]
  from em have "emitted K ev es key x db db'" by blast
  then obtain e ob where e: "events db' = events db @ [e]" "outbox db' = outbox db @ [ob]"
    "me_event_id e = uuid ev (es_event_uuid es)" "me_event_type e = se_EventType x" "me_memory_id e = se_MemoryID x"
    "me_version e = se_Version x" "oe_outbox_id ob = uuid ev (es_outbox_uuid es)" "oe_event_id ob = me_event_id e"
    "oe_event_type ob = se_EventType x" "oe_status ob = outboxStatusPending" "oe_attempt_count ob = 0"
    "oe_claimed_by ob = None" "oe_lease_expires_at ob = None" "oe_claimed_at ob = None" "oe_sent_at ob = None"
    by (rule emittedE) simp
  from e em assms(2) show "event_moves db db'" by (auto simp: event_moves_def)
  have "list_all2 (outbox_step ev a) (outbox db) (outbox db)" by (auto intro: list.rel_refl outbox_step.stays)
  with e em assms(2) show "outbox_moves ev a db db'"
    unfolding outbox_moves_def by (intro exI [of _ "outbox db"] exI [of _ "[ob]"]) (auto simp: new_outbox_def)
  from e show "announced db' (se_MemoryID x) (se_Version x)" by (auto simp: announced_def)
qed

text \<open>A guarded update moves the one row it hits, once its version is announced.\<close>

lemma guarded_moves:
  assumes "records db' = update_where (guarded t m v) f (records db)" and "announced db' m (i64_inc v)"
    and "\<And>r. mr_memory_id (f r) = mr_memory_id r \<and> mr_tenant_id (f r) = mr_tenant_id r \<and> mr_version (f r) = i64_inc v
           \<and> (row_ok r \<longrightarrow> row_ok (f r))"
  shows "record_moves db db'"
proof -
  have "list_all2 (row_step db') (records db) (records db')"
    unfolding assms(1) using assms(2,3) by (intro list_all2_update_where) (auto simp: row_step_def guarded_def)
  moreover have "map mr_memory_id (records db') = map mr_memory_id (records db)"
    unfolding assms(1) using assms(3) by (intro map_update_where) blast
  ultimately show ?thesis
    unfolding record_moves_def by (intro exI [of _ "records db'"] exI [of _ "[]"]) simp
qed

context mutation
begin

lemma loaded_moves:
  assumes inp: "mu_apply inp = app" and ty: "mu_eventType inp \<in> set allowedEventTypes"
    and run: "mutate_loaded K ev inp cur db = Inr (rec, db')" and cur: "loaded_as (mu_tenantID inp) (mu_memoryID inp) cur"
  shows "record_moves db db' \<and> event_moves db db' \<and> outbox_moves ev a db db' \<and> idems db' = idems db \<and> dedupes db' = dedupes db"
proof -
  from run obtain recs where m: "Version cur = mu_expectedVersion inp" "rec = mutated_to ev inp cur"
    "update_mutated rec (mu_tenantID inp) (mu_memoryID inp) (mu_expectedVersion inp) (records db) = Inr (1, recs)"
    "emit K ev mutate_site None (event_of (mu_eventType inp) rec) (db\<lparr>records := recs\<rparr>) = Inr db'" "records db' = recs"
    by (rule mutate_loaded_Inr)
  have rec: "MemoryID rec = mu_memoryID inp" "Version rec = i64_inc (mu_expectedVersion inp)"
    using cur m(1) by (simp_all add: m(2) identity_after [OF inp] loaded_as_def)
  have tags: "Tags rec \<noteq> None" using cur keeps_tags [of cur "now ev"] by (simp add: m(2) mutated_to_def inp loaded_as_def)
  note em = emit_moves [OF m(4)]
  have "announced db' (mu_memoryID inp) (i64_inc (mu_expectedVersion inp))" using em(3) ty rec by simp
  then have "record_moves db db'"
    using mutated.upd_rows [OF m(3)] rec tags m(5)
    by (intro guarded_moves [where f = "set_mutated rec"]) (auto simp: set_mutated_def row_ok_def)
  moreover have "event_moves db db'" "outbox_moves ev a db db'"
    using em(1,2) ty by (simp_all add: event_moves_def outbox_moves_def)
  ultimately show ?thesis using emit_frame [OF m(4)] by simp
qed

end

lemma promote_moves:
  assumes run: "promote_loaded K ev inp cur db = Inr (l, r, db')" and cur: "loaded_as (pr_TenantID inp) (pr_MemoryID inp) cur"
  shows "record_moves db db' \<and> event_moves db db' \<and> outbox_moves ev a db db'
    \<and> (distinct (map idem_key (idems db)) \<longrightarrow> distinct (map idem_key (idems db'))) \<and> dedupes db' = dedupes db"
proof -
  let ?rec = "promoted_record K ev inp cur"
  from run obtain recs db1 where s: "Version cur = pr_ExpectedVersion inp"
      "update_promoted ?rec (pr_TenantID inp) (pr_MemoryID inp) (pr_ExpectedVersion inp) (records db) = Inr (1, recs)"
      "emit K ev promote_site None (event_of eventTypeMemoryPromoted ?rec) (db\<lparr>records := recs\<rparr>) = Inr db1"
      "promote_save K ev inp ?rec db1 = Inr db'" "records db' = recs" by (rule promote_loaded_Inr)
  note save = promote_save_Inr [OF s(4)]
  have ty: "se_EventType (event_of eventTypeMemoryPromoted ?rec) \<in> set allowedEventTypes" by (simp add: allowedEventTypes_def)
  note em = emit_moves [OF s(3) ty]
  have an: "announced db' (pr_MemoryID inp) (i64_inc (pr_ExpectedVersion inp))"
    using em(3) save cur s(1) by (simp add: announced_def loaded_as_def)
  have "record_moves db db'"
    using promoted.upd_rows [OF s(2)] s(1,5)
    by (intro guarded_moves [where f = "set_promoted ?rec", OF _ an]) (auto simp: set_promoted_def row_ok_def)
  moreover have "event_moves db db'" "outbox_moves ev a db db'"
    using em(1,2) save by (simp_all add: event_moves_def outbox_moves_def)
  moreover have "idems db1 = idems db" "dedupes db1 = dedupes db" using emit_frame [OF s(3)] by simp_all
  ultimately show ?thesis using save by (auto simp: idem_key_def split: if_splits)
qed

lemma write_moves:
  assumes "write_fresh K ev inp db = Inr (l, r, db')"
  shows "record_moves db db' \<and> event_moves db db' \<and> outbox_moves ev a db db'
    \<and> (distinct (map idem_key (idems db)) \<longrightarrow> distinct (map idem_key (idems db'))) \<and> dedupes db' = dedupes db"
  using assms
proof (cases rule: write_fresh_Inr)
  case (1 recs db1 raw)
  let ?rec = "stamp_record ev inp"
  have ty: "se_EventType (created_event inp ?rec) \<in> set allowedEventTypes" by (simp add: allowedEventTypes_def)
  note em = emit_moves [OF 1(2) ty] and fr = emit_frame [OF 1(2)]
  note ins = rec_tab.ins_appends [OF 1(1)] rec_tab.ins_fresh [OF 1(1)]
  have "announced db' (MemoryID ?rec) 1" using em(3) by (simp add: announced_def 1(5))
  moreover have "records db' = records db @ [row_of_record ?rec]" using fr ins by (simp add: 1(5))
  moreover have "list_all2 (row_step db') (records db) (records db)" by (auto intro: list.rel_refl)
  ultimately have "record_moves db db'"
    unfolding record_moves_def using ins(2)
    by (intro exI [of _ "records db"] exI [of _ "[row_of_record ?rec]"]) auto
  moreover have "event_moves db db'" "outbox_moves ev a db db'"
    using em(1,2) by (simp_all add: event_moves_def outbox_moves_def 1(5))
  ultimately show ?thesis using fr 1(4) by (auto simp: 1(5) idem_key_def write_idem_row_def)
qed

lemma mark_moves:
  assumes "update_access accessed t ids (records db) = Inr recs"
  shows "record_moves db (db\<lparr>records := recs\<rparr>)"
proof -
  let ?f = "\<lambda>r. r\<lparr>mr_last_access_at := Some (pg_time accessed), mr_hit_count := mr_hit_count r + 1\<rparr>"
  let ?hit = "\<lambda>r. mr_tenant_id r = t \<and> mr_memory_id r \<in> set ids"
  have recs: "recs = update_where ?hit ?f (records db)"
    using assms by (auto simp: update_access_def Let_def split: if_splits)
  have "list_all2 (row_step (db\<lparr>records := recs\<rparr>)) (records db) recs"
    unfolding recs by (rule list_all2_update_where) (simp_all add: row_step_def same_but_access_def row_ok_def)
  moreover have "map mr_memory_id recs = map mr_memory_id (records db)"
    unfolding recs by (rule map_update_where) simp
  ultimately show ?thesis
    unfolding record_moves_def by (intro exI [of _ recs] exI [of _ "[]"]) simp
qed

text \<open>Two moves in a row within one step.\<close>

lemma list_all2_outbox_trans_new:
  assumes "outbox_moves ev a db db1" and "emit K ev es key x db1 = Inr db'" and "se_EventType x \<in> set allowedEventTypes"
  shows "outbox_moves ev a db db'"
proof -
  from assms(1) obtain old new where m: "outbox db1 = old @ new" "list_all2 (outbox_step ev a) (outbox db) old"
    "\<forall>r\<in>set new. new_outbox r" "distinct (map oe_outbox_id (outbox db)) \<longrightarrow> distinct (map oe_outbox_id (outbox db1))"
    by (auto simp: outbox_moves_def)
  from emit_Inr [OF assms(2)] have em: "emitted K ev es key x db1 db'" "uuid ev (es_outbox_uuid es) \<notin> set (map oe_outbox_id (outbox db1))"
    by blast+
  from em(1) obtain ob where "outbox db' = outbox db1 @ [ob]" "new_outbox ob" "oe_outbox_id ob = uuid ev (es_outbox_uuid es)"
    using assms(3) by (rule_tac emittedE [OF em(1)]) (simp add: new_outbox_def)
  with m em(2) show ?thesis
    unfolding outbox_moves_def by (intro exI [of _ old] exI [of _ "new @ [ob]"]) auto
qed

lemma event_moves_trans:
  assumes "event_moves db db1" and "event_moves db1 db2"
  shows "event_moves db db2"
proof -
  from assms obtain n1 n2 where "events db1 = events db @ n1" "events db2 = events db1 @ n2"
    "\<forall>e\<in>set n1. me_event_type e \<in> set allowedEventTypes" "\<forall>e\<in>set n2. me_event_type e \<in> set allowedEventTypes"
    unfolding event_moves_def by blast
  then have "events db2 = events db @ n1 @ n2 \<and> (\<forall>e\<in>set (n1 @ n2). me_event_type e \<in> set allowedEventTypes)" by auto
  with assms show ?thesis unfolding event_moves_def by blast
qed

lemma record_moves_frame:
  assumes "record_moves db db1" and "records db2 = records db1" and an: "\<And>m v. announced db1 m v \<Longrightarrow> announced db2 m v"
  shows "record_moves db db2"
proof -
  from assms(1) obtain old new where m: "records db1 = old @ new" "list_all2 (row_step db1) (records db) old"
      "\<forall>r\<in>set new. row_ok r \<and> mr_version r = 1 \<and> announced db1 (mr_memory_id r) 1"
      "distinct (map mr_memory_id (records db)) \<longrightarrow> distinct (map mr_memory_id (records db1))"
    unfolding record_moves_def by blast
  have "row_step db1 r r' \<Longrightarrow> row_step db2 r r'" for r r' using an by (auto simp: row_step_def)
  then have "list_all2 (row_step db2) (records db) old" by (rule list_all2_mono [OF m(2)])
  with m assms(2) an show ?thesis
    unfolding record_moves_def by (intro exI [of _ old] exI [of _ new]) auto
qed

lemma announced_emit:
  assumes "emit K ev es key x db = Inr db'" and "announced db m v"
  shows "announced db' m v"
proof -
  from emit_Inr [OF assms(1)] have "emitted K ev es key x db db'" by blast
  then obtain e ob where "events db' = events db @ [e]" "outbox db' = outbox db @ [ob]" by (rule emittedE)
  with assms(2) show ?thesis by (auto simp: announced_def)
qed

lemma collapse_moves:
  assumes run: "mutate_loaded K ev (loser_mutation inp) cur db = Inr (rec, db1)"
    and cur: "loaded_as (rd_TenantID inp) (MemoryID (rd_Candidate inp)) cur"
    and em: "emit K ev collapse_site None (collapse_event K inp winner) db1 = Inr db'"
  shows "record_moves db db' \<and> event_moves db db' \<and> outbox_moves ev a db db' \<and> idems db' = idems db \<and> dedupes db' = dedupes db"
proof -
  have l: "record_moves db db1 \<and> event_moves db db1 \<and> outbox_moves ev a db db1 \<and> idems db1 = idems db \<and> dedupes db1 = dedupes db"
    by (rule delete.loaded_moves [OF _ _ run]) (use cur in \<open>simp_all add: loser_mutation_def allowedEventTypes_def\<close>)
  have ty: "se_EventType (collapse_event K inp winner) \<in> set allowedEventTypes"
    by (simp add: collapse_event_def allowedEventTypes_def)
  have "record_moves db db'"
    by (rule record_moves_frame [OF conjunct1 [OF l]]) (use emit_frame [OF em] announced_emit [OF em] in auto)
  moreover have "event_moves db db'" using l emit_moves(1) [OF em ty] by (blast intro: event_moves_trans)
  moreover have "outbox_moves ev a db db'" using l em ty by (blast intro: list_all2_outbox_trans_new)
  ultimately show ?thesis using l emit_frame [OF em] by simp
qed

text \<open>The key tables only gain rows, and keep their keys unique; a dedupe key's winner never changes.\<close>

definition key_moves :: "'j db \<Rightarrow> 'j db \<Rightarrow> bool" where
  "key_moves db db' \<longleftrightarrow> (distinct (map idem_key (idems db)) \<longrightarrow> distinct (map idem_key (idems db')))
     \<and> (\<exists>new. dedupes db' = dedupes db @ new) \<and> (distinct (map dedupe_key (dedupes db)) \<longrightarrow> distinct (map dedupe_key (dedupes db')))"

lemma key_moves_same [simp]: "idems db' = idems db \<Longrightarrow> dedupes db' = dedupes db \<Longrightarrow> key_moves db db'"
  by (simp add: key_moves_def)

lemma claim_moves:
  assumes "claimTx K rl ev locked db = Inr (l, ms, db')" and dist: "distinct (map oe_outbox_id (outbox db))"
  shows "outbox_moves ev (Worker (rl_workerID rl)) db db'"
proof (rule outbox_moves_update)
  note c = claimTx_Inr [OF assms(1)]
  from c show "outbox db' = update_where (\<lambda>r. r \<in> set (outbox db) \<and> oe_outbox_id r \<in> oe_outbox_id ` set (to_claim ev locked rl db))
      (claimed_row (rl_workerID rl) (db_now ev) (Milliseconds (LeaseTTL (rl_cfg rl)))) (outbox db)"
    by (simp add: update_where_def)
  fix r assume "r \<in> set (outbox db) \<and> oe_outbox_id r \<in> oe_outbox_id ` set (to_claim ev locked rl db)"
  then obtain q where "q \<in> set (to_claim ev locked rl db)" "oe_outbox_id r = oe_outbox_id q" "r \<in> set (outbox db)" by blast
  then have "claimable (db_now ev) r" using to_claim_sub [of ev locked rl db] inj_onD [OF distinct_map [THEN iffD1, THEN conjunct2, OF dist]] by blast
  then show "outbox_step ev (Worker (rl_workerID rl)) r
      (claimed_row (rl_workerID rl) (db_now ev) (Milliseconds (LeaseTTL (rl_cfg rl))) r)" by (rule outbox_step.claims)
qed

theorem step_moves:
  assumes "commit_step K ev a db db'" and "distinct (map oe_outbox_id (outbox db))"
  shows "record_moves db db' \<and> event_moves db db' \<and> outbox_moves ev a db db' \<and> key_moves db db'"
  using assms(1)
proof cases
  case (wrote inp l r)
  from write_moves [OF wrote(2)] show ?thesis by (simp add: key_moves_def)
next
  case (mutate q cur rec)
  from mutation.loaded_moves [OF mutation_of_contract refl mutation_of_event mutate(2,3)] show ?thesis by simp
next
  case (promote inp cur l r)
  from promote_moves [OF promote(2,3)] show ?thesis by (simp add: key_moves_def)
next
  case (claim_key d w dds)
  then have "map_sum id snd (claim_dedupe d (dedupes db)) = Inr dds" by simp
  from dedupe_tab.ins_appends [OF this] dedupe_tab.ins_distinct [OF this] show ?thesis
    by (simp add: claim_key key_moves_def)
next
  case (collapse inp cur rec db1 winner)
  from collapse_moves [OF collapse(2,3,4)] show ?thesis by simp
next
  case (mark accessed t ids recs)
  then show ?thesis using mark_moves [OF mark(3)] by simp
next
  case (append eid key x raw evs)
  have "event_moves db db'"
    using event_tab.ins_appends [OF append(3)] event_tab.ins_distinct [OF append(3)] event_ver_tab.ins_distinct [OF append(3)] append
    by (simp add: event_moves_def event_row_of_def)
  then show ?thesis by (simp add: append)
next
  case (save e raw)
  then show ?thesis by (simp add: key_moves_def upsert_distinct)
next
  case (enqueue oid m raw obs)
  have "outbox_moves ev a db db'"
    using outbox_tab.ins_appends [OF enqueue(3)] outbox_tab.ins_distinct [OF enqueue(3)] enqueue
    unfolding outbox_moves_def
    by (intro exI [of _ "outbox db"]
        exI [of _ "[new_outbox_row ev oid (om_MemoryID m) (om_TenantID m) (om_EventID m) (om_EventType m) raw]"])
      (auto simp: new_outbox_def new_outbox_row_def intro: list.rel_refl outbox_step.stays)
  then show ?thesis by (simp add: enqueue)
next
  case (requeue i)
  have "outbox_moves ev a db db'"
    unfolding requeue by (rule outbox_moves_set) (rule outbox_step.requeues, simp)
  then show ?thesis by (simp add: requeue)
next
  case (claim rl locked l ms)
  have "db' = db\<lparr>outbox := outbox db'\<rparr>" using claimTx_Inr [OF claim(2)] by simp
  then have "records db' = records db \<and> events db' = events db \<and> idems db' = idems db \<and> dedupes db' = dedupes db"
    by (metis db.select_convs(1,2,3,5) db.surjective db.update_convs(4))
  then show ?thesis using claim_moves [OF claim(2) assms(2)] by (simp add: claim)
next
  case (ack rl i et ok n pe)
  have "outbox_moves ev a db db'"
    unfolding ack by (rule outbox_moves_set) (rule outbox_step.acks, simp_all add: owned_def)
  then show ?thesis by (simp add: ack)
next
  case (release worker)
  have "outbox_moves ev a db db'"
    unfolding release by (rule outbox_moves_set) (rule outbox_step.releases, simp_all)
  then show ?thesis by (simp add: release)
qed

end
