(* ===== verification/HistoryProps.thy ===== *)
theory HistoryProps
  imports History
begin

text \<open>
  Invariants of the store over time, for every database that can arise: the well-formedness of the
  tables, the announcement of every version, the fixed winners of the dedupe index, the finality of
  sent rows and the exclusion of other workers by a live lease; and that the version guard excludes
  lost updates.
\<close>

section \<open>The table invariant\<close>

text \<open>An outbox row's status, lease and sent time agree.\<close>

definition outbox_ok :: "'j outbox_row \<Rightarrow> bool" where
  "outbox_ok r \<longleftrightarrow>
     oe_status r \<in> {outboxStatusPending, outboxStatusProcessing, outboxStatusSent, outboxStatusFailed}
     \<and> (oe_claimed_by r \<noteq> None \<longleftrightarrow> oe_status r = outboxStatusProcessing)
     \<and> (oe_claimed_at r \<noteq> None \<longleftrightarrow> oe_status r = outboxStatusProcessing)
     \<and> (oe_lease_expires_at r \<noteq> None \<longleftrightarrow> oe_status r = outboxStatusProcessing)
     \<and> (oe_sent_at r \<noteq> None \<longleftrightarrow> oe_status r = outboxStatusSent)
     \<and> 0 \<le> oe_attempt_count r \<and> oe_event_type r \<in> set allowedEventTypes"

definition db_ok :: "'j db \<Rightarrow> bool" where
  "db_ok db \<longleftrightarrow> rows_wf (records db)
     \<and> distinct (map me_event_id (events db))
     \<and> distinct (map (\<lambda>e. (me_memory_id e, me_version e, me_event_type e)) (events db))
     \<and> (\<forall>e\<in>set (events db). me_event_type e \<in> set allowedEventTypes)
     \<and> distinct (map oe_outbox_id (outbox db)) \<and> (\<forall>r\<in>set (outbox db). outbox_ok r)
     \<and> distinct (map idem_key (idems db)) \<and> distinct (map dedupe_key (dedupes db))"

lemma db_ok_empty: "db_ok empty_db"
  by (simp add: db_ok_def rows_wf_def)

lemma new_outbox_ok: "new_outbox r \<Longrightarrow> outbox_ok r"
  by (simp add: new_outbox_def outbox_ok_def)

lemma outbox_step_ok:
  assumes "outbox_step ev a r r'" and "outbox_ok r"
  shows "outbox_ok r'"
  using assms(1)
proof cases
  case (claims w ms)
  then show ?thesis using assms(2) by (auto simp: outbox_ok_def claimed_row_def claimable_def)
next
  case (acks rl w et ok n pe)
  then have "oe_status r = outboxStatusProcessing" using assms(2) by (auto simp: owned_def outbox_ok_def)
  then show ?thesis using assms(2) acks
    by (auto simp: outbox_ok_def ack_setter_def acked_sent_def acked_error_def unleased_def)
next
  case (releases w)
  then show ?thesis using assms(2) by (auto simp: outbox_ok_def released_def unleased_def)
next
  case requeues
  then show ?thesis using assms(2) by (auto simp: outbox_ok_def requeued_def)
qed (use assms(2) in simp)

lemma moves_all:
  assumes "list_all2 R xs ys" and "\<And>x y. R x y \<Longrightarrow> P x \<Longrightarrow> P y" and "\<forall>x\<in>set xs. P x"
  shows "\<forall>y\<in>set ys. P y"
  using assms(1,3) by (induction rule: list_all2_induct) (auto intro: assms(2))

lemma moved_from: "list_all2 R xs ys \<Longrightarrow> x \<in> set xs \<Longrightarrow> \<exists>y\<in>set ys. R x y"
  by (induction rule: list_all2_induct) auto

lemma moved_to: "list_all2 R xs ys \<Longrightarrow> y \<in> set ys \<Longrightarrow> \<exists>x\<in>set xs. R x y"
  by (induction rule: list_all2_induct) auto

lemma step_ok:
  assumes "commit_step K ev a db db'" and ok: "db_ok db"
  shows "db_ok db'"
proof -
  have d: "distinct (map oe_outbox_id (outbox db))" using ok by (simp add: db_ok_def)
  note m = step_moves [OF assms(1) d]
  from m obtain ro rn where r: "records db' = ro @ rn" "list_all2 (row_step db') (records db) ro"
      "\<forall>r\<in>set rn. row_ok r" "distinct (map mr_memory_id (records db'))"
    using ok unfolding record_moves_def db_ok_def rows_wf_def by blast
  from m obtain oo on where o: "outbox db' = oo @ on" "list_all2 (outbox_step ev a) (outbox db) oo"
      "\<forall>r\<in>set on. new_outbox r" "distinct (map oe_outbox_id (outbox db'))"
    using d unfolding outbox_moves_def by blast
  from m obtain en where e: "events db' = events db @ en" "\<forall>e\<in>set en. me_event_type e \<in> set allowedEventTypes"
      "distinct (map me_event_id (events db'))"
      "distinct (map (\<lambda>e. (me_memory_id e, me_version e, me_event_type e)) (events db'))"
    using ok unfolding event_moves_def db_ok_def by blast
  have "\<forall>r\<in>set ro. row_ok r"
    by (rule moves_all [OF r(2)]) (use ok in \<open>auto simp: row_step_def db_ok_def rows_wf_def\<close>)
  then have "rows_wf (records db')" using r by (auto simp: rows_wf_def)
  moreover have "\<forall>r\<in>set oo. outbox_ok r"
    by (rule moves_all [OF o(2)]) (use ok outbox_step_ok in \<open>auto simp: db_ok_def\<close>)
  then have "\<forall>r\<in>set (outbox db'). outbox_ok r" using o by (auto simp: new_outbox_ok)
  moreover have "distinct (map idem_key (idems db'))" "distinct (map dedupe_key (dedupes db'))"
    using m ok by (simp_all add: key_moves_def db_ok_def)
  ultimately show ?thesis using e o(4) ok by (auto simp: db_ok_def)
qed

lemma reachable_db_ok: "reachable K db \<Longrightarrow> db_ok db"
  by (induction rule: reachable.induct) (auto intro: db_ok_empty step_ok)

text \<open>C19: The table invariant. In every database that can arise, whatever fails and however operations
  interleave: the identifiers and keys of each table are unique; every record row has tags and times the
  column type can hold; every event and outbox row has an allowed type; and an outbox row is leased
  (owner, claim time and expiry together) exactly while it is processing, has a sent time exactly when it
  is sent, and is otherwise pending or failed.\<close>

theorem reachable_ok: "reachable K db \<Longrightarrow> db_ok db"
  by (rule reachable_db_ok)

section \<open>Runs\<close>

lemma reach_either: "reachable K db \<Longrightarrow> db' = db \<or> commit_step K ev a db db' \<Longrightarrow> reachable K db'"
  by (auto intro: reachable.step)

lemma later_either: "db' = db \<or> commit_step K ev a db db' \<Longrightarrow> later K db db'"
  by (auto intro: later.intros)

lemma later_reachable: "later K db db' \<Longrightarrow> reachable K db \<Longrightarrow> reachable K db'"
  by (induction rule: later.induct) (auto intro: reachable.step)

lemma reachable_rows: "reachable K db \<Longrightarrow> \<forall>w\<in>set (records db). row_ok w"
  using reachable_db_ok [of K db] by (simp add: db_ok_def rows_wf_def)

lemma reachable_distinct: "reachable K db \<Longrightarrow> distinct (map mr_memory_id (records db)) \<and> distinct (map oe_outbox_id (outbox db))"
  using reachable_db_ok [of K db] by (simp add: db_ok_def rows_wf_def)

lemmas reachable_moves = step_moves [OF _ conjunct2 [OF reachable_distinct]]

lemma old_row:
  assumes "record_moves db db'" and "r' \<in> set (records db')"
  obtains (old) r where "r \<in> set (records db)" and "row_step db' r r'"
    | (new) "mr_version r' = 1" and "announced db' (mr_memory_id r') 1"
proof -
  from assms(1) obtain ro rn where m: "records db' = ro @ rn" "list_all2 (row_step db') (records db) ro"
    "\<forall>r\<in>set rn. mr_version r = 1 \<and> announced db' (mr_memory_id r) 1" unfolding record_moves_def by blast
  show thesis
  proof (cases "r' \<in> set ro")
    case True
    with m(2) obtain r where "r \<in> set (records db)" "row_step db' r r'" using moved_to by metis
    then show thesis by (rule old)
  qed (use m assms(2) new in auto)
qed

lemma versions_fit: "reachable K db \<Longrightarrow> r \<in> set (records db) \<Longrightarrow> fits_i64 (mr_version r)"
proof (induction arbitrary: r rule: reachable.induct)
  case (step db ev a db')
  from conjunct1 [OF reachable_moves [OF step.hyps(2,1)]] step.prems show ?case
  proof (cases rule: old_row)
    case (old r0)
    with step.IH [OF old(1)] same_but_access_version [of r0 r] show ?thesis by (auto simp: row_step_def)
  qed simp
qed simp

lemma reachable_versions: "reachable K db \<Longrightarrow> \<forall>w\<in>set (records db). fits_i64 (mr_version w)"
  using versions_fit by blast

lemma run_messages_reach:
  assumes "\<And>i p d. reachable K d \<Longrightarrow> reachable K (snd (su_others su i (p, d)))"
  shows "reachable K db \<Longrightarrow> reachable K (snd (snd (snd (run_messages rl su i ms stats es p db))))"
proof (induction ms arbitrary: i stats es p db)
  case (Cons m ms)
  obtain p0 db0 where o1: "su_others su (2 * i) (p, db) = (p0, db0)" by fastforce
  obtain pe p1 where pub: "rl_publisher rl (cm_Payload m) p0 = (pe, p1)" by fastforce
  obtain p2 db2 where o2: "su_others su (2 * i + 1) (p1, db0) = (p2, db2)" by fastforce
  let ?a = "Ack (su_err_text su) rl (su_env su i) (cm_OutboxID m) (pe = None) (cm_AttemptCount m) pe db2"
  have "reachable K db0" using assms [OF Cons.prems, of "2 * i" p] by (simp add: o1)
  then have "reachable K db2" using assms [of db0 "2 * i + 1" p1] by (simp add: o2 [simplified])
  then have "reachable K (snd ?a)" by (rule reach_either [OF _ Ack_step])
  then show ?case using Cons.IH by (auto simp: o1 pub o2 [simplified] split: prod.splits sum.splits)
qed simp

lemma RunOnce_reach:
  assumes "\<And>i p d. reachable K d \<Longrightarrow> reachable K (snd (su_others su i (p, d)))" and "reachable K db"
  shows "reachable K (snd (snd (snd (RunOnce K rl su p db))))"
proof -
  obtain p0 db0 where o: "su_others su 0 (p, db) = (p0, db0)" by fastforce
  have "reachable K db0" using assms(1) [OF assms(2), of 0 p] by (simp add: o)
  then have "reachable K (snd (ClaimBatch K rl (su_env su 0) (su_locked su) db0))"
    by (rule reach_either [OF _ ClaimBatch_step])
  then show ?thesis
    by (auto simp: RunOnce_def o case_prod_unfold split: sum.splits intro!: run_messages_reach [where su = su, OF assms(1)])
qed

text \<open>The operations are the steps. Whatever a call of the store does to a reachable database, under any
  fault, refusal or lost answer, the result is reachable again (the integers given being the \<open>int64\<close>s they are in Go); so is what a relay's claim,
  acknowledgement, release or whole round leaves, when the other parties keep to reachable databases in
  between.\<close>

theorem operations_reach:
  assumes "reachable K db" and "\<And>i p d. reachable K d \<Longrightarrow> reachable K (snd (su_others su i (p, d)))"
    and "fits_i64 (HitCount (wi_Record wi))" and "fits_i64 (se_Version e)"
  shows "reachable K (snd (WriteRecord K ev wi db)) \<and> reachable K (snd (run_mutation K ev q db))
    \<and> reachable K (snd (Promote K ev pr db)) \<and> reachable K (snd (ResolveDedupe K ev di db))
    \<and> reachable K (snd (MarkAccess ev mi db)) \<and> reachable K (snd (AppendEvent K ev e db))
    \<and> reachable K (snd (SaveIdempotency K ev ie db)) \<and> reachable K (snd (EnqueueOutbox K ev m db))
    \<and> reachable K (snd (RequeueFailed ev oid db)) \<and> reachable K (snd (ClaimBatch K rl ev locked db))
    \<and> reachable K (snd (Ack et rl ev oid ok n pe db)) \<and> reachable K (snd (Release rl ev db))
    \<and> reachable K (snd (snd (snd (RunOnce K rl su p db))))"
  using reach_either [OF assms(1) WriteRecord_step [OF assms(3)]] reach_either [OF assms(1) mutation_step [OF reachable_rows [OF assms(1)]]]
    reach_either [OF assms(1) Promote_step [OF reachable_rows [OF assms(1)]]]
    reach_either [OF assms(1) ResolveDedupe_step [OF reachable_rows [OF assms(1)] reachable_versions [OF assms(1)]]]
    reach_either [OF assms(1) MarkAccess_step] reach_either [OF assms(1) AppendEvent_step [OF assms(4)]]
    reach_either [OF assms(1) SaveIdempotency_step] reach_either [OF assms(1) EnqueueOutbox_step]
    reach_either [OF assms(1) RequeueFailed_step] reach_either [OF assms(1) ClaimBatch_step]
    reach_either [OF assms(1) Ack_step] reach_either [OF assms(1) Release_step] RunOnce_reach [OF assms(2,1)]
  by (intro conjI)

section \<open>Announcements\<close>

lemma announced_step:
  assumes "event_moves db db'" and "outbox_moves ev a db db'" and "announced db m v"
  shows "announced db' m v"
proof -
  from assms(3) obtain e ob where e: "e \<in> set (events db)" "me_memory_id e = m" "me_version e = v"
    "ob \<in> set (outbox db)" "oe_event_id ob = me_event_id e" by (auto simp: announced_def)
  from assms(2) obtain oo on where "outbox db' = oo @ on" "list_all2 (outbox_step ev a) (outbox db) oo"
    unfolding outbox_moves_def by blast
  with e(4) obtain ob' where "ob' \<in> set (outbox db')" "outbox_step ev a ob ob'" using moved_from [of _ _ oo ob] by auto
  moreover from this have "oe_event_id ob' = me_event_id e" using outbox_step_keeps e(5) by metis
  moreover have "e \<in> set (events db')" using assms(1) e(1) by (auto simp: event_moves_def)
  ultimately show ?thesis using e(2,3) by (auto simp: announced_def)
qed

lemma announced_all:
  "reachable K db \<Longrightarrow> r \<in> set (records db) \<Longrightarrow> 1 \<le> v \<Longrightarrow> v \<le> mr_version r \<Longrightarrow> announced db (mr_memory_id r) v"
proof (induction arbitrary: r v rule: reachable.induct)
  case (step db ev a db')
  note m = reachable_moves [OF step.hyps(2,1)]
  have keep: "announced db n u \<Longrightarrow> announced db' n u" for n u using announced_step m by blast
  from conjunct1 [OF m] step.prems(1) show ?case
  proof (cases rule: old_row)
    case (old r0)
    then have id: "mr_memory_id r0 = mr_memory_id r" by (simp add: row_step_def)
    show ?thesis
    proof (cases "v \<le> mr_version r0")
      case True
      with step.IH [OF old(1) step.prems(2)] keep id show ?thesis by simp
    next
      case False
      with old(2) step.prems have adv: "mr_version r = i64_inc (mr_version r0)" "announced db' (mr_memory_id r) (mr_version r)"
        using id same_but_access_version by (auto simp: row_step_def)
      with adv(1) False step.prems(2,3) have "v = mr_version r" by (auto simp: i64_inc_def i64_min_def split: if_splits)
      then show ?thesis using adv(2) by (simp only:)
    qed
  next
    case new
    with step.prems(2,3) show ?thesis by auto
  qed
qed simp

text \<open>C6: Every version is announced. In every reachable database, for every version from 1 up to a record's
  current one, there is an event of that version for the record, and an outbox row that points to it:
  no state of a record is ever visible whose message could be missing.\<close>

theorem every_version_announced:
  assumes "reachable K db" and "r \<in> set (records db)" and "1 \<le> v" and "v \<le> mr_version r"
  shows "\<exists>e\<in>set (events db). me_memory_id e = mr_memory_id r \<and> me_version e = v
    \<and> (\<exists>ob\<in>set (outbox db). oe_event_id ob = me_event_id e)"
  using announced_all [OF assms] by (simp add: announced_def)

section \<open>Lost updates\<close>

lemma same_but_access_trans:
  assumes "same_but_access r r1" and "same_but_access r1 r2"
  shows "same_but_access r r2"
proof -
  have "r2\<lparr>mr_hit_count := mr_hit_count r, mr_last_access_at := mr_last_access_at r\<rparr>
      = (r2\<lparr>mr_hit_count := mr_hit_count r1, mr_last_access_at := mr_last_access_at r1\<rparr>)
          \<lparr>mr_hit_count := mr_hit_count r, mr_last_access_at := mr_last_access_at r\<rparr>" by simp
  also have "\<dots> = r" using assms unfolding same_but_access_def by (simp only:)
  finally show ?thesis by (simp add: same_but_access_def)
qed

lemma events_grow: "commit_step K ev a db db' \<Longrightarrow> reachable K db \<Longrightarrow> length (events db) \<le> length (events db')"
  by (drule (1) reachable_moves) (auto simp: event_moves_def)

text \<open>As long as the event table has fewer rows than an \<open>int64\<close> counts, no version has wrapped around.\<close>

lemma version_le_events:
  assumes "reachable K db" and "r \<in> set (records db)"
  shows "mr_version r \<le> int (length (events db))"
proof -
  have "{1..mr_version r} \<subseteq> me_version ` set (events db)"
    using announced_all [OF assms] by (force simp: announced_def)
  then have "card {1..mr_version r} \<le> card (me_version ` set (events db))" by (intro card_mono) auto
  also have "\<dots> \<le> length (events db)" by (meson List.finite_set card_image_le card_length le_trans)
  finally show ?thesis by simp
qed

lemma version_pos:
  "reachable K db \<Longrightarrow> int (length (events db)) < i64_max \<Longrightarrow> r \<in> set (records db) \<Longrightarrow> 1 \<le> mr_version r"
proof (induction arbitrary: r rule: reachable.induct)
  case (step db ev a db')
  have few: "int (length (events db)) < i64_max" using events_grow [OF step.hyps(2,1)] step.prems(1) by simp
  from conjunct1 [OF reachable_moves [OF step.hyps(2,1)]] step.prems(2) show ?case
  proof (cases rule: old_row)
    case (old r0)
    then have "1 \<le> mr_version r0" "mr_version r0 < i64_max"
      using step.IH [OF few] version_le_events [OF step.hyps(1)] few by force+
    with old(2) same_but_access_version [of r0 r] show ?thesis by (auto simp: row_step_def i64_inc_below)
  qed simp
qed simp

lemma kept_row:
  assumes "record_moves db db'" and "r \<in> set (records db)"
  obtains r' where "r' \<in> set (records db')" and "row_step db' r r'"
proof -
  from assms(1) obtain ro rn where m: "records db' = ro @ rn" "list_all2 (row_step db') (records db) ro"
    unfolding record_moves_def by blast
  with assms(2) moved_from [of "row_step db'" "records db" ro r] that show thesis by auto
qed

text \<open>While no version wraps, a row only keeps its version by keeping everything but its access columns.\<close>

lemma row_follows:
  assumes "later K db db'" and "reachable K db" and "r \<in> set (records db)" and "int (length (events db')) < i64_max"
  shows "\<exists>r'\<in>set (records db'). mr_memory_id r' = mr_memory_id r \<and> mr_tenant_id r' = mr_tenant_id r
    \<and> (same_but_access r r' \<or> mr_version r < mr_version r')"
  using assms(1,4)
proof (induction rule: later.induct)
  case now
  then show ?case using assms(3) by (intro bexI [of _ r]) simp_all
next
  case (then_step db1 ev a db2)
  have reach: "reachable K db1" by (rule later_reachable [OF then_step.hyps(1) assms(2)])
  have few: "int (length (events db1)) < i64_max" using events_grow [OF then_step.hyps(2) reach] then_step.prems by simp
  from then_step.IH [OF few] obtain r1 where r1: "r1 \<in> set (records db1)" "mr_memory_id r1 = mr_memory_id r"
    "mr_tenant_id r1 = mr_tenant_id r" "same_but_access r r1 \<or> mr_version r < mr_version r1" by blast
  from kept_row [OF conjunct1 [OF reachable_moves [OF then_step.hyps(2) reach]] r1(1)]
  obtain r2 where r2: "r2 \<in> set (records db2)" "row_step db2 r1 r2" .
  have "mr_version r1 < i64_max" using version_le_events [OF reach r1(1)] few by simp
  then have "same_but_access r1 r2 \<or> mr_version r1 < mr_version r2" using r2(2) by (auto simp: row_step_def i64_inc_below)
  then have "same_but_access r r2 \<or> mr_version r < mr_version r2"
    using r1(4) same_but_access_trans [of r r1 r2] same_but_access_version [of r r1] same_but_access_version [of r1 r2] by auto
  then show ?case using r1(2,3) r2 by (intro bexI [of _ r2]) (auto simp: row_step_def)
qed

lemma access_blind:
  assumes "same_but_access w0 w"
  shows "set_mutated (mutated_to ev (mutation_of q) (record_of_row w0)) w = set_mutated (mutated_to ev (mutation_of q) (record_of_row w)) w"
proof -
  have w0: "w0 = w\<lparr>mr_hit_count := mr_hit_count w0, mr_last_access_at := mr_last_access_at w0\<rparr>"
    using assms by (simp add: same_but_access_def)
  show ?thesis by (subst w0, cases q) (simp_all add: mutated_to_def set_mutated_def record_of_row_def
      apply_patch_def apply_delete_def apply_pin_def apply_disable_def)
qed

text \<open>C7: No lost update. A client loads a record, any number of steps of anyone follow, and its mutation then
  commits: the row it leaves is the operation applied to the row as it was just before the commit, not
  to what the client had loaded, although the load takes no lock. (The event table is assumed to have
  fewer rows than an \<open>int64\<close> counts, so that no version has wrapped around.)\<close>

theorem no_lost_update:
  assumes reach: "reachable K db"
    and load: "loadRecordForUpdate ev0 c (mu_tenantID (mutation_of q)) (mu_memoryID (mutation_of q)) db = Inr cur"
    and steps: "later K db db1" and few: "int (length (events db1)) < i64_max"
    and run: "mutate_loaded K ev (mutation_of q) cur db1 = Inr (rec, db2)"
  shows "\<exists>w. select_memory_record (mu_tenantID (mutation_of q)) (mu_memoryID (mutation_of q)) (records db1) = Inr w
    \<and> select_memory_record (mu_tenantID (mutation_of q)) (mu_memoryID (mutation_of q)) (records db2)
        = Inr (set_mutated (mutated_to ev (mutation_of q) (record_of_row w)) w)"
proof -
  define t m v where "t = mu_tenantID (mutation_of q)" and "m = mu_memoryID (mutation_of q)"
    and "v = mu_expectedVersion (mutation_of q)"
  have reach1: "reachable K db1" by (rule later_reachable [OF steps reach])
  from load obtain w0 where w0: "select_memory_record t m (records db) = Inr w0" "cur = record_of_row w0"
    by (auto simp: load_Inr t_def m_def)
  note at0 = select_memory_record_Inr [OF w0(1)]
  from run obtain recs where r: "Version cur = v" "rec = mutated_to ev (mutation_of q) cur"
    "update_mutated rec t m v (records db1) = Inr (1, recs)" "records db2 = recs"
    unfolding t_def m_def v_def by (rule mutate_loaded_Inr)
  obtain w where w: "w \<in> set (records db1)" "guarded t m v w" "set_mutated rec w \<in> set recs"
    by (rule mutated.upd_hits [OF r(3)]) simp_all
  from row_follows [OF steps reach conjunct1 [OF at0] few] obtain w1 where w1: "w1 \<in> set (records db1)"
    "mr_memory_id w1 = m" "same_but_access w0 w1 \<or> mr_version w0 < mr_version w1" using at0 by auto
  have "w1 = w"
    using distinct_key_inj [OF conjunct1 [OF reachable_distinct [OF reach1]] w1(1) w(1)] w1(2) w(2) by (simp add: guarded_def)
  moreover have "mr_version w0 = v" using r(1) w0(2) by simp
  ultimately have same: "same_but_access w0 w" using w1(3) w(2) by (auto simp: guarded_def)
  have "select_memory_record t m (records db1) = Inr w"
    using w(1,2) conjunct1 [OF reachable_distinct [OF reach1]] by (simp add: select_memory_record_iff guarded_def)
  moreover have "distinct (map mr_memory_id recs)"
    using mutated.upd_ids [OF r(3)] reachable_distinct [OF reach1] by simp
  then have "select_memory_record t m recs = Inr (set_mutated rec w)"
    using w(2,3) by (simp add: select_memory_record_iff mutated.setter_id guarded_def)
  ultimately show ?thesis using access_blind [OF same] r(2,4) w0(2) by (simp add: t_def m_def)
qed

section \<open>The outbox and the dedupe index over time\<close>

lemma outbox_follows:
  assumes "commit_step K ev a db db'" and "reachable K db" and "r \<in> set (outbox db)"
  obtains r' where "r' \<in> set (outbox db')" and "outbox_step ev a r r'"
proof -
  from reachable_moves [OF assms(1,2)] obtain oo on where "outbox db' = oo @ on" "list_all2 (outbox_step ev a) (outbox db) oo"
    unfolding outbox_moves_def by blast
  with assms(3) moved_from [of "outbox_step ev a" "outbox db" oo r] that show thesis by auto
qed

lemma reachable_outbox: "reachable K db \<Longrightarrow> r \<in> set (outbox db) \<Longrightarrow> outbox_ok r"
  using reachable_db_ok [of K db] by (simp add: db_ok_def)

lemma sent_stays:
  assumes "outbox_step ev a r r'" and "outbox_ok r" and "oe_status r = outboxStatusSent"
  shows "r' = r"
  using assms(1) by cases (use assms(2,3) in \<open>auto simp: claimable_def owned_def outbox_ok_def\<close>)

text \<open>Sent is final. Once a row is sent, no sequence of steps of any operations and workers ever changes it
  or removes it: it is not claimed, acknowledged, released or requeued again.\<close>

theorem sent_is_final:
  assumes "later K db db'" and "reachable K db" and "r \<in> set (outbox db)" and "oe_status r = outboxStatusSent"
  shows "r \<in> set (outbox db')"
  using assms(1)
proof (induction rule: later.induct)
  case (then_step db1 ev a db2)
  have reach: "reachable K db1" by (rule later_reachable [OF then_step.hyps(1) assms(2)])
  obtain r' where "r' \<in> set (outbox db2)" "outbox_step ev a r r'" by (rule outbox_follows [OF then_step.hyps(2) reach then_step.IH])
  then show ?case using sent_stays reachable_outbox [OF reach then_step.IH] assms(4) by metis
qed (use assms(3) in simp)

text \<open>A run whose every step satisfies a condition on its environment and actor.\<close>

inductive later_where :: "'j sdk \<Rightarrow> (env \<Rightarrow> actor \<Rightarrow> bool) \<Rightarrow> 'j db \<Rightarrow> 'j db \<Rightarrow> bool"
  for K :: "'j sdk" and P :: "env \<Rightarrow> actor \<Rightarrow> bool" and db :: "'j db" where
  stay: "later_where K P db db"
| move: "later_where K P db db1 \<Longrightarrow> commit_step K ev a db1 db2 \<Longrightarrow> P ev a \<Longrightarrow> later_where K P db db2"

lemma later_where_later: "later_where K P db db' \<Longrightarrow> later K db db'"
  by (induction rule: later_where.induct) (auto intro: later.intros)

text \<open>The steps of others before an instant.\<close>

definition others_until :: "string \<Rightarrow> gotime \<Rightarrow> env \<Rightarrow> actor \<Rightarrow> bool" where
  "others_until w l ev a \<longleftrightarrow> db_now ev \<le> l \<and> a \<noteq> Worker w"

lemma leased_stays:
  assumes "outbox_step ev a r r'" and "outbox_ok r" and "oe_claimed_by r = Some w" and "oe_lease_expires_at r = Some l"
    and "others_until w l ev a"
  shows "r' = r"
  using assms(1) by cases (use assms(2-5) in \<open>auto simp: others_until_def claimable_def owned_def outbox_ok_def\<close>)

lemma lease_kept:
  assumes "later_where K (others_until w l) db db'" and "reachable K db" and "r \<in> set (outbox db)"
    and "oe_claimed_by r = Some w" and "oe_lease_expires_at r = Some l"
  shows "r \<in> set (outbox db')"
  using assms(1)
proof (induction rule: later_where.induct)
  case (move db1 ev a db2)
  have reach: "reachable K db1" by (rule later_reachable [OF later_where_later [OF move.hyps(1)] assms(2)])
  obtain r' where "r' \<in> set (outbox db2)" "outbox_step ev a r r'" by (rule outbox_follows [OF move.hyps(2) reach move.IH])
  then show ?case using leased_stays [OF _ reachable_outbox [OF reach move.IH] assms(4,5) move.hyps(3)] by metis
qed (rule assms(3))

text \<open>C14: A live lease excludes the others. From a reachable database in which a row is leased to a worker, no
  sequence of steps of other workers, of the operator and of store operations, each made before the lease
  runs out on the database's clock, changes the row.\<close>

theorem lease_excludes_others:
  assumes "reachable K db" and "r \<in> set (outbox db)" and "oe_claimed_by r = Some w" and "oe_lease_expires_at r = Some l"
    and "later_where K (\<lambda>ev a. db_now ev \<le> l \<and> a \<noteq> Worker w) db db'"
  shows "r \<in> set (outbox db')"
  using lease_kept [OF _ assms(1-4)] assms(5) by (simp add: others_until_def [abs_def])

lemma claimed_ids:
  assumes "ClaimBatch K rl ev locked db = (Inr ms, db')"
  shows "cm_OutboxID ` set ms = oe_outbox_id ` set (to_claim ev locked rl db)"
proof -
  from assms obtain l where "claimTx K rl ev locked db = Inr (l, ms, db')" by (auto simp: ClaimBatch_Inr)
  from claimTx_Inr [OF this] have "map cm_OutboxID ms = map oe_outbox_id (to_claim ev locked rl db)" by simp
  from arg_cong [OF this, of set] show ?thesis by simp
qed

text \<open>A claimed message, when the others have worked on, is still its claimer's.\<close>

lemma claimed_stays:
  assumes "reachable K db" and claim: "ClaimBatch K rl ev locked db = (Inr ms, db1)" and m: "m \<in> set ms"
    and "later_where K (others_until (rl_workerID rl) (db_now ev + Milliseconds (LeaseTTL (rl_cfg rl)) * 1000000)) db1 db2"
  shows "reachable K db2" and "\<exists>r\<in>set (outbox db2). oe_outbox_id r = cm_OutboxID m \<and> oe_claimed_by r = Some (rl_workerID rl)
    \<and> oe_status r = outboxStatusProcessing
    \<and> oe_lease_expires_at r = Some (db_now ev + Milliseconds (LeaseTTL (rl_cfg rl)) * 1000000)"
proof -
  let ?l = "db_now ev + Milliseconds (LeaseTTL (rl_cfg rl)) * 1000000"
  let ?f = "claimed_row (rl_workerID rl) (db_now ev) (Milliseconds (LeaseTTL (rl_cfg rl)))"
  have reach1: "reachable K db1"
    using reach_either [OF assms(1) ClaimBatch_step, of rl ev locked] claim by simp
  then show "reachable K db2" by (rule later_reachable [OF later_where_later [OF assms(4)]])
  from claim obtain l where "claimTx K rl ev locked db = Inr (l, ms, db1)" by (auto simp: ClaimBatch_Inr)
  note c = claimTx_Inr [OF this]
  from m claimed_ids [OF claim] have id: "cm_OutboxID m \<in> oe_outbox_id ` set (to_claim ev locked rl db)" by blast
  then obtain q where q: "q \<in> set (to_claim ev locked rl db)" "cm_OutboxID m = oe_outbox_id q" by blast
  then have "q \<in> set (outbox db)" using to_claim_sub [of ev locked rl db] by blast
  moreover have "outbox db1 = update_where (\<lambda>r. oe_outbox_id r \<in> oe_outbox_id ` set (to_claim ev locked rl db)) ?f (outbox db)"
    using c by simp
  moreover have "?f q = (if oe_outbox_id q \<in> oe_outbox_id ` set (to_claim ev locked rl db) then ?f q else q)" using q id by simp
  ultimately have row: "?f q \<in> set (outbox db1)" by (simp only: set_update_where) (rule image_eqI)
  have "?f q \<in> set (outbox db2)"
    by (rule lease_kept [OF assms(4) reach1 row]) (simp_all add: claimed_row_def)
  then show "\<exists>r\<in>set (outbox db2). oe_outbox_id r = cm_OutboxID m \<and> oe_claimed_by r = Some (rl_workerID rl)
    \<and> oe_status r = outboxStatusProcessing \<and> oe_lease_expires_at r = Some ?l"
    by (rule bexI [rotated]) (simp add: claimed_row_def q(2))
qed

text \<open>C15: An acknowledgement in time goes through. Whatever the others did between a claim and its
  acknowledgement, if the acknowledgement reaches the database before the lease ends and the call itself
  does not fail, it succeeds: \<open>ErrLeaseLost\<close> is only ever the answer to a late worker.\<close>

theorem ack_in_time_succeeds:
  assumes "reachable K db" and "ClaimBatch K rl ev locked db = (Inr ms, db1)" and "m \<in> set ms"
    and "later_where K (\<lambda>e a. db_now e \<le> db_now ev + Milliseconds (LeaseTTL (rl_cfg rl)) * 1000000
           \<and> a \<noteq> Worker (rl_workerID rl)) db1 db2"
    and "db_now evA < db_now ev + Milliseconds (LeaseTTL (rl_cfg rl)) * 1000000"
    and "fault evA CAck = None" and "commit evA = Committed"
  shows "\<exists>db3. Ack et rl evA (cm_OutboxID m) ok n pe db2 = (Inr (), db3)"
proof -
  note c = claimed_stays [OF assms(1-3), unfolded others_until_def [abs_def], OF assms(4)]
  from c(2) assms(5) have "\<exists>r\<in>set (outbox db2). owned (cm_OutboxID m) (rl_workerID rl) (db_now evA) r"
    by (auto simp: owned_def)
  then show ?thesis by (simp add: Ack_calm [OF assms(6,7)])
qed

text \<open>C16: Claims do not overlap. While the leases of a claim last, no claim of another worker returns one of its
  messages, whatever happened in between.\<close>

theorem claims_disjoint:
  assumes "reachable K db" and "ClaimBatch K rl ev locked db = (Inr ms, db1)"
    and "later_where K (\<lambda>e a. db_now e \<le> db_now ev + Milliseconds (LeaseTTL (rl_cfg rl)) * 1000000
           \<and> a \<noteq> Worker (rl_workerID rl)) db1 db2"
    and "ClaimBatch K rl2 ev2 locked2 db2 = (Inr ms2, db3)"
    and "db_now ev2 \<le> db_now ev + Milliseconds (LeaseTTL (rl_cfg rl)) * 1000000"
  shows "cm_OutboxID ` set ms \<inter> cm_OutboxID ` set ms2 = {}"
proof -
  have False if m: "m \<in> set ms" "m2 \<in> set ms2" "cm_OutboxID m = cm_OutboxID m2" for m m2
  proof -
    note c = claimed_stays [OF assms(1,2) m(1), unfolded others_until_def [abs_def], OF assms(3)]
    from c(2) obtain r where r: "r \<in> set (outbox db2)" "oe_outbox_id r = cm_OutboxID m" "\<not> claimable (db_now ev2) r"
      using assms(5) by (auto simp: claimable_def)
    from m(2) claimed_ids [OF assms(4)] have "cm_OutboxID m2 \<in> oe_outbox_id ` set (to_claim ev2 locked2 rl2 db2)" by blast
    then obtain q where id: "cm_OutboxID m2 = oe_outbox_id q" and "q \<in> set (to_claim ev2 locked2 rl2 db2)" by (rule imageE)
    from subsetD [OF to_claim_sub this(2)] have q: "q \<in> set (outbox db2)" "claimable (db_now ev2) q" by simp_all
    have "oe_outbox_id q = oe_outbox_id r" by (rule trans [OF id [symmetric] trans [OF m(3) [symmetric] r(2) [symmetric]]])
    then have "q = r" by (rule distinct_key_inj [OF conjunct2 [OF reachable_distinct [OF c(1)]] q(1) r(1)])
    with q(2) r(3) show False by simp
  qed
  then show ?thesis by blast
qed

text \<open>The winner of a dedupe key is fixed. Once a key has a winner, every later lookup of the key, after any
  steps of anyone, finds the same winner.\<close>

theorem dedupe_winner_fixed:
  assumes "later K db db'" and "reachable K db" and "select_dedupe t k (dedupes db) = Inr w"
  shows "select_dedupe t k (dedupes db') = Inr w"
  using assms(1)
proof (induction rule: later.induct)
  case (then_step db1 ev a db2)
  from reachable_moves [OF then_step.hyps(2) later_reachable [OF then_step.hyps(1) assms(2)]]
  obtain new where "dedupes db2 = dedupes db1 @ new" unfolding key_moves_def by blast
  then show ?case using then_step.IH by (auto simp: select_dedupe_def find_append split: option.splits)
qed (rule assms(3))

section \<open>A concrete history\<close>

text \<open>Beside the sample store (one record written): on an empty store, a message is enqueued, claimed and acknowledged.\<close>

definition queued_db :: "doc db" where
  "queued_db = snd (EnqueueOutbox doc_sdk (calm_env ''1'' 5000) (sample_message ''a'') empty_db)"

definition claimed_db :: "doc db" where
  "claimed_db = snd (ClaimBatch doc_sdk sample_relay (calm_env ''2'' 20000) (\<lambda>_. False) queued_db)"

definition sent_db :: "doc db" where
  "sent_db = snd (Ack (\<lambda>_. []) sample_relay (calm_env ''3'' 30000) ''o1'' True 1 None claimed_db)"

lemma sample_hits: "fits_i64 (HitCount (wi_Record sample_write))"
  by (simp add: sample_write_def sample_record_def)

lemma sample_reach: "reachable doc_sdk sample_db"
  unfolding sample_db_def by (rule reach_either [OF reachable.fresh WriteRecord_step [OF sample_hits]])

lemma queued_reach: "reachable doc_sdk queued_db"
  unfolding queued_db_def by (rule reach_either [OF reachable.fresh EnqueueOutbox_step])

lemma claimed_reach: "reachable doc_sdk claimed_db"
  unfolding claimed_db_def by (rule reach_either [OF queued_reach ClaimBatch_step])

lemma sent_reach: "reachable doc_sdk sent_db"
  unfolding sent_db_def by (rule reach_either [OF claimed_reach Ack_step])

lemma queued_rows:
  "outbox queued_db = [new_outbox_row (calm_env ''1'' 5000) ''o1'' ''a'' ''ta'' ''a'' ''memory_created'' (DocOutbox (sample_message ''a''))]"
  by (simp add: queued_db_def EnqueueOutbox_def validateEventType_def allowedEventTypes_def sample_message_def doc_sdk_def
      encodeJSON_def auto_stmt_calm insert_outbox_event_def calm_env_def auto_stmt_def driver_def eventTypeMemoryCreated_def
      new_outbox_row_def)

lemma claimed_rows:
  "outbox claimed_db = [claimed_row ''w1'' 20000 180000
     (new_outbox_row (calm_env ''1'' 5000) ''o1'' ''a'' ''ta'' ''a'' ''memory_created'' (DocOutbox (sample_message ''a'')))]"
  by (simp add: claimed_db_def ClaimBatch_def run_tx_def claimTx_def select_claimable_def claimable_def queued_rows
      new_outbox_row_def sample_relay_def decodeJSON_def doc_sdk_def update_claimed_def i32_max_def update_where_def
      Milliseconds_def pg_time_def claim_defs claimed_row_def)

lemma sent_rows: "map oe_status (outbox sent_db) = [outboxStatusSent]"
  by (simp add: sent_db_def Ack_def ack_update_def auto_stmt_def driver_def claimed_rows owned_def claimed_row_def
      new_outbox_row_def sample_relay_def update_where_def count_where_def acked_sent_def pg_time_def)

section \<open>The properties on it\<close>

lemma reachable_ok_witness: "db_ok sample_db \<and> db_ok sent_db"
  using reachable_ok [OF sample_reach] reachable_ok [OF sent_reach] by simp

lemma operations_reach_witness:
  "reachable doc_sdk (snd (snd (snd (RunOnce doc_sdk sample_relay (quiet (\<lambda>_. calm_env ''2'' 20000))
     \<lparr>mp_Events = [], mp_Fail = False\<rparr> sample_db))))"
  using operations_reach [OF sample_reach, where su = "quiet (\<lambda>_. calm_env ''2'' 20000)" and rl = sample_relay
    and wi = sample_write and e = "created_event sample_write sample_record"]
  by (simp add: sample_write_def sample_record_def)

lemma every_version_announced_witness:
  "\<exists>e\<in>set (events sample_db). me_version e = 1 \<and> (\<exists>ob\<in>set (outbox sample_db). oe_event_id ob = me_event_id e)"
  using every_version_announced [OF sample_reach, of sample_row 1]
  by auto

lemma sent_is_final_witness:
  "\<exists>r\<in>set (outbox sent_db). r \<in> set (outbox (snd (Release sample_relay (calm_env ''9'' 90000) sent_db)))"
proof -
  obtain r where r: "outbox sent_db = [r]" "oe_status r = outboxStatusSent" using sent_rows by auto
  have l: "later doc_sdk sent_db (snd (Release sample_relay (calm_env ''9'' 90000) sent_db))"
    by (rule later_either [OF Release_step])
  show ?thesis using sent_is_final [OF l sent_reach _ r(2)] r(1) by simp
qed

lemma lease_excludes_others_witness:
  "outbox (claimed_db\<lparr>outbox := update_where (\<lambda>r. oe_claimed_by r = Some ''w2'' \<and> oe_status r = outboxStatusProcessing)
     released (outbox claimed_db)\<rparr>) = outbox claimed_db"
proof -
  obtain r where r: "outbox claimed_db = [r]" "oe_claimed_by r = Some ''w1''" "oe_lease_expires_at r = Some 180000020000"
    using claimed_rows by (auto simp: claimed_row_def)
  have "later_where doc_sdk (\<lambda>ev a. db_now ev \<le> 180000020000 \<and> a \<noteq> Worker ''w1'') claimed_db (claimed_db\<lparr>outbox :=
     update_where (\<lambda>r. oe_claimed_by r = Some ''w2'' \<and> oe_status r = outboxStatusProcessing) released (outbox claimed_db)\<rparr>)"
    by (rule later_where.move [OF later_where.stay commit_step.release [of doc_sdk "calm_env ''3'' 30000" "''w2''"]])
      (simp add: pg_time_def)
  from lease_excludes_others [OF claimed_reach _ r(2,3) this] r(1) show ?thesis by (simp add: update_where_def)
qed

lemma queued_claim:
  "ClaimBatch doc_sdk sample_relay (calm_env ''2'' 20000) (\<lambda>_. False) queued_db
     = (Inr [\<lparr>cm_OutboxID = ''o1'', cm_Payload = sample_message ''a'', cm_AttemptCount = 1\<rparr>], claimed_db)"
proof -
  have "fst (ClaimBatch doc_sdk sample_relay (calm_env ''2'' 20000) (\<lambda>_. False) queued_db)
     = Inr [\<lparr>cm_OutboxID = ''o1'', cm_Payload = sample_message ''a'', cm_AttemptCount = 1\<rparr>]"
    by (simp add: ClaimBatch_def run_tx_def claimTx_def select_claimable_def claimable_def queued_rows
      new_outbox_row_def sample_relay_def decodeJSON_def doc_sdk_def update_claimed_def i32_max_def claim_defs)
  then show ?thesis by (simp add: claimed_db_def prod_eq_iff)
qed

lemma ack_in_time_succeeds_witness:
  "\<exists>db3. Ack (\<lambda>_. []) sample_relay (calm_env ''4'' 40000) ''o1'' True 1 None claimed_db = (Inr (), db3)"
  using ack_in_time_succeeds [OF queued_reach queued_claim _ later_where.stay, of _ "calm_env ''4'' 40000" "\<lambda>_. []" True 1 None]
  by (simp add: sample_relay_def Milliseconds_def pg_time_def)

lemma claims_disjoint_witness:
  "\<exists>ms db3. ClaimBatch doc_sdk (sample_relay\<lparr>rl_workerID := ''w2''\<rparr>) (calm_env ''3'' 30000) (\<lambda>_. False) claimed_db = (Inr ms, db3)
     \<and> ''o1'' \<notin> cm_OutboxID ` set ms"
proof -
  have run: "ClaimBatch doc_sdk (sample_relay\<lparr>rl_workerID := ''w2''\<rparr>) (calm_env ''3'' 30000) (\<lambda>_. False) claimed_db = (Inr [], claimed_db)"
    by (simp add: ClaimBatch_def run_tx_def claimTx_def select_claimable_def claimable_def claimed_rows claimed_row_def
      sample_relay_def pg_time_def claim_defs)
  have "cm_OutboxID ` set [\<lparr>cm_OutboxID = ''o1'', cm_Payload = sample_message ''a'', cm_AttemptCount = 1\<rparr>]
      \<inter> cm_OutboxID ` set ([] :: ClaimedMessage list) = {}"
    by (rule claims_disjoint [OF queued_reach queued_claim later_where.stay run]) (simp add: sample_relay_def Milliseconds_def pg_time_def)
  with run show ?thesis by (intro exI [of _ "[]"] exI [of _ claimed_db]) simp
qed

lemma dedupe_winner_fixed_witness:
  "let db = snd (ResolveDedupe doc_sdk (calm_env ''4'' 9) (resolve ''m1'' 1) (empty_db :: doc db)) in
   select_dedupe ''ta'' ''dk'' (dedupes (snd (ResolveDedupe doc_sdk (calm_env ''5'' 9) (resolve ''m2'' 1) db))) = Inr ''m1''"
proof -
  define db where "db = snd (ResolveDedupe doc_sdk (calm_env ''4'' 9) (resolve ''m1'' 1) (empty_db :: doc db))"
  have reach: "reachable doc_sdk db"
    unfolding db_def by (rule reach_either [OF reachable.fresh ResolveDedupe_step]) simp_all
  have "select_dedupe ''ta'' ''dk'' (dedupes db) = Inr ''m1''"
    by (simp add: db_def ResolveDedupe_def run_tx_def dedupeTx_def driver_def claim_dedupe_def select_dedupe_def dedupe_key_def)
  from dedupe_winner_fixed [OF later_either [OF ResolveDedupe_step [OF reachable_rows [OF reach] reachable_versions [OF reach]]] reach this]
  show ?thesis by (simp add: db_def)
qed

lemma no_lost_update_witness:
  "\<exists>db1 (db2 :: doc db) w. MarkAccess (calm_env ''9'' 7000) sample_mark sample_db = (Inr (), db1)
     \<and> select_memory_record ''ta'' ''m1'' (records db1) = Inr w
     \<and> select_memory_record ''ta'' ''m1'' (records db2)
         = Inr (set_mutated (mutated_to (calm_env ''2'' 9000) (mutation_of sample_patch) (record_of_row w)) w)"
proof -
  obtain db1 rec db2 where run: "MarkAccess (calm_env ''9'' 7000) sample_mark sample_db = (Inr (), db1)"
    "events db1 = events sample_db"
    "mutate_loaded doc_sdk (calm_env ''2'' 9000) (mutation_of sample_patch) (record_of_row sample_row) db1 = Inr (rec, db2)"
    using sample_mark_then_patch by blast
  have steps: "later doc_sdk sample_db db1"
    using later_either [OF MarkAccess_step [of "calm_env ''9'' 7000" sample_mark sample_db doc_sdk]] run(1) by simp
  have few: "int (length (events db1)) < i64_max"
    using length_map [of me_event_id "events sample_db"] run(2) by (simp add: i64_max_def del: length_map)
  have key: "mu_tenantID (mutation_of sample_patch) = ''ta''" "mu_memoryID (mutation_of sample_patch) = ''m1''"
    by (simp_all add: sample_patch_def)
  have load: "loadRecordForUpdate (calm_env ''2'' 0) CLoad (mu_tenantID (mutation_of sample_patch))
      (mu_memoryID (mutation_of sample_patch)) sample_db = Inr (record_of_row sample_row)"
    by (simp add: key load_calm select_memory_record_def)
  from no_lost_update [OF sample_reach load steps few run(3)] run(1) show ?thesis
    unfolding key by blast
qed

end
