(* ===== verification/Refinement.thy ===== *)
theory Refinement
  imports HistoryProps "HOL-Library.Sublist"
begin

text \<open>
  An abstract specification of the store and its refinement: a map from identifiers to the current state
  of each record, and a journal of the versions published. A change of the map and its journal entry are
  one step; nothing is ever removed from either. Every step of the model simulates such steps, so what
  holds of the specification (the journal lists the versions of a record in order, without a gap) holds
  of the tables.
\<close>

section \<open>The specification\<close>

text \<open>What the specification sees of a row: everything but the access columns.\<close>

definition core :: "record_row \<Rightarrow> record_row" where
  "core r = r\<lparr>mr_hit_count := 0, mr_last_access_at := None\<rparr>"

record spec =
  vault :: "string \<Rightarrow> record_row option"
  journal :: "(string \<times> int) list"

inductive spec_step :: "spec \<Rightarrow> spec \<Rightarrow> bool" where
  create: "vault s m = None \<Longrightarrow> mr_memory_id c = m \<Longrightarrow> mr_version c = 1
    \<Longrightarrow> spec_step s (s\<lparr>vault := (vault s)(m \<mapsto> c), journal := journal s @ [(m, 1)]\<rparr>)"
| advance: "vault s m = Some c \<Longrightarrow> mr_memory_id c' = m \<Longrightarrow> mr_tenant_id c' = mr_tenant_id c
    \<Longrightarrow> mr_version c' = i64_inc (mr_version c)
    \<Longrightarrow> spec_step s (s\<lparr>vault := (vault s)(m \<mapsto> c'), journal := journal s @ [(m, mr_version c')]\<rparr>)"
| announce: "spec_step s (s\<lparr>journal := journal s @ [x]\<rparr>)"

definition abs_db :: "'j db \<Rightarrow> spec" where
  "abs_db db = \<lparr>vault = (\<lambda>m. map_option core (find (\<lambda>r. mr_memory_id r = m) (records db))),
     journal = map (\<lambda>e. (me_memory_id e, me_version e)) (events db)\<rparr>"

section \<open>The simulation\<close>

lemma core_simps [simp]: "mr_memory_id (core r) = mr_memory_id r" "mr_tenant_id (core r) = mr_tenant_id r"
  "mr_version (core r) = mr_version r"
  by (simp_all add: core_def)

lemma abs_same: "records db' = records db \<Longrightarrow> events db' = events db \<Longrightarrow> abs_db db' = abs_db db"
  by (simp add: abs_db_def)

lemma emit_abs:
  assumes "emit K ev es key x db = Inr db'"
  shows "abs_db db' = (abs_db db)\<lparr>journal := journal (abs_db db) @ [(se_MemoryID x, se_Version x)]\<rparr>"
proof -
  from emit_Inr [OF assms] have "emitted K ev es key x db db'" by blast
  then obtain e ob where "events db' = events db @ [e]" "me_memory_id e = se_MemoryID x" "me_version e = se_Version x"
    by (rule emittedE) simp
  then show ?thesis using emit_frame [OF assms] by (simp add: abs_db_def)
qed

lemma emit_spec: "emit K ev es key x db = Inr db' \<Longrightarrow> spec_step (abs_db db) (abs_db db')"
  by (simp add: emit_abs spec_step.announce)

text \<open>A guarded update that hit its row, followed by the emission of the new version.\<close>

lemma guarded_spec:
  assumes rows: "recs = update_where (guarded t m v) f (records db)" and hit: "w \<in> set (records db)" "guarded t m v w"
    and dist: "distinct (map mr_memory_id (records db))"
    and f: "\<And>r. mr_memory_id (f r) = mr_memory_id r \<and> mr_tenant_id (f r) = mr_tenant_id r \<and> mr_version (f r) = i64_inc v"
    and em: "emit K ev es key x (db\<lparr>records := recs\<rparr>) = Inr db'" "se_MemoryID x = m" "se_Version x = i64_inc v"
  shows "spec_step (abs_db db) (abs_db db')"
proof -
  have w: "mr_memory_id w = m" "mr_version w = v" using hit(2) by (simp_all add: guarded_def)
  have find: "find (\<lambda>r. mr_memory_id r = m) (records db) = Some w"
    using find_distinct_key [OF dist hit(1)] w(1) by simp
  have "find (\<lambda>r. mr_memory_id r = n) recs
      = map_option (\<lambda>r. if guarded t m v r then f r else r) (find (\<lambda>r. mr_memory_id r = n) (records db))" for n
    unfolding rows using f by (intro find_update_where) simp
  moreover have "map_option (\<lambda>r. if guarded t m v r then f r else r) (find (\<lambda>r. mr_memory_id r = n) (records db))
      = (if n = m then Some (f w) else find (\<lambda>r. mr_memory_id r = n) (records db))" for n
    using find hit(2) by (cases "find (\<lambda>r. mr_memory_id r = n) (records db)") (auto simp: guarded_def dest: find_SomeD)
  ultimately have "vault (abs_db (db\<lparr>records := recs\<rparr>)) = (vault (abs_db db))(m \<mapsto> core (f w))"
    by (auto simp: abs_db_def)
  then have "abs_db db' = (abs_db db)\<lparr>vault := (vault (abs_db db))(m \<mapsto> core (f w)),
      journal := journal (abs_db db) @ [(m, mr_version (core (f w)))]\<rparr>"
    using emit_abs [OF em(1)] em(2,3) f by (simp add: abs_db_def)
  moreover have "vault (abs_db db) m = Some (core w)" using find by (simp add: abs_db_def)
  ultimately show ?thesis using spec_step.advance [of "abs_db db" m "core w" "core (f w)"] f w by simp
qed

lemma mutation_spec:
  assumes "mutation (mu_apply inp)" and run: "mutate_loaded K ev inp cur db = Inr (rec, db')"
    and cur: "MemoryID cur = mu_memoryID inp" and dist: "distinct (map mr_memory_id (records db))"
  shows "spec_step (abs_db db) (abs_db db')"
proof -
  from run obtain recs where m: "Version cur = mu_expectedVersion inp" "rec = mutated_to ev inp cur"
    "update_mutated rec (mu_tenantID inp) (mu_memoryID inp) (mu_expectedVersion inp) (records db) = Inr (1, recs)"
    "emit K ev mutate_site None (event_of (mu_eventType inp) rec) (db\<lparr>records := recs\<rparr>) = Inr db'"
    by (rule mutate_loaded_Inr)
  obtain w where w: "w \<in> set (records db)" "guarded (mu_tenantID inp) (mu_memoryID inp) (mu_expectedVersion inp) w"
    by (rule mutated.upd_hits [OF m(3)]) simp_all
  have rec: "MemoryID rec = mu_memoryID inp" "Version rec = i64_inc (mu_expectedVersion inp)"
    using mutation.identity_after [OF assms(1) refl] cur m(1) by (simp_all add: m(2))
  show ?thesis
    by (rule guarded_spec [OF conjunct2 [OF mutated.upd_rows [OF m(3)]] w dist _ m(4)])
      (simp_all add: rec mutated.setter_id mutated.setter_version)
qed

lemma promote_spec:
  assumes run: "promote_loaded K ev inp cur db = Inr (l, r, db')"
    and cur: "MemoryID cur = pr_MemoryID inp" and dist: "distinct (map mr_memory_id (records db))"
  shows "spec_step (abs_db db) (abs_db db')"
proof -
  let ?rec = "promoted_record K ev inp cur"
  from run obtain recs db1 where s: "Version cur = pr_ExpectedVersion inp"
      "update_promoted ?rec (pr_TenantID inp) (pr_MemoryID inp) (pr_ExpectedVersion inp) (records db) = Inr (1, recs)"
      "emit K ev promote_site None (event_of eventTypeMemoryPromoted ?rec) (db\<lparr>records := recs\<rparr>) = Inr db1"
      "promote_save K ev inp ?rec db1 = Inr db'" by (rule promote_loaded_Inr)
  obtain w where w: "w \<in> set (records db)" "guarded (pr_TenantID inp) (pr_MemoryID inp) (pr_ExpectedVersion inp) w"
    by (rule promoted.upd_hits [OF s(2)]) simp_all
  have "spec_step (abs_db db) (abs_db db1)"
    by (rule guarded_spec [OF conjunct2 [OF promoted.upd_rows [OF s(2)]] w dist _ s(3)])
      (simp_all add: cur s(1) promoted.setter_id promoted.setter_version)
  moreover have "abs_db db' = abs_db db1" using promote_save_Inr [OF s(4)] by (intro abs_same) simp_all
  ultimately show ?thesis by simp
qed

lemma write_spec:
  assumes "write_fresh K ev inp db = Inr (l, r, db')"
  shows "spec_step (abs_db db) (abs_db db')"
  using assms
proof (cases rule: write_fresh_Inr)
  case (1 recs db1 raw)
  let ?rec = "stamp_record ev inp"
  note ins = rec_tab.ins_appends [OF 1(1)] rec_tab.ins_fresh [OF 1(1)]
  have "find (\<lambda>r. mr_memory_id r = MemoryID ?rec) (records db) = None" using find_no_key [OF ins(2)] by simp
  then have "vault (abs_db (db\<lparr>records := recs\<rparr>)) = (vault (abs_db db))(MemoryID ?rec \<mapsto> core (row_of_record ?rec))"
    "vault (abs_db db) (MemoryID ?rec) = None"
    by (auto simp: abs_db_def ins(1) find_append split: option.splits)
  moreover have "abs_db db' = abs_db db1" by (intro abs_same) (simp_all add: 1(5))
  ultimately show ?thesis
    using emit_abs [OF 1(2)] spec_step.create [of "abs_db db" "MemoryID ?rec" "core (row_of_record ?rec)"]
    by (simp add: abs_db_def)
qed

lemma step_refines:
  assumes "reachable K db" and "commit_step K ev a db db'"
  shows "spec_step\<^sup>*\<^sup>* (abs_db db) (abs_db db')"
  using assms(2)
proof cases
  case (wrote inp l r)
  then show ?thesis using write_spec by blast
next
  case (mutate q cur rec)
  then show ?thesis
    using mutation_spec [OF mutation_of_contract mutate(2) _ conjunct1 [OF reachable_distinct [OF assms(1)]]]
    by (auto simp: loaded_as_def)
next
  case (promote inp cur l r)
  then show ?thesis
    using promote_spec [OF promote(2) _ conjunct1 [OF reachable_distinct [OF assms(1)]]] by (auto simp: loaded_as_def)
next
  case (collapse inp cur rec db1 winner)
  have "mutation (mu_apply (loser_mutation inp))" using delete.mutation_axioms by (simp add: loser_mutation_def)
  then have "spec_step (abs_db db) (abs_db db1)"
    by (rule mutation_spec [OF _ collapse(2)])
      (use collapse(3) reachable_distinct [OF assms(1)] in \<open>simp_all add: loaded_as_def loser_mutation_def\<close>)
  then show ?thesis using emit_spec [OF collapse(4)] by (meson converse_rtranclp_into_rtranclp r_into_rtranclp)
next
  case (mark accessed t ids recs)
  have "find (\<lambda>r. mr_memory_id r = m) recs = map_option (\<lambda>r. if mr_tenant_id r = t \<and> mr_memory_id r \<in> set ids
      then r\<lparr>mr_last_access_at := Some (pg_time accessed), mr_hit_count := mr_hit_count r + 1\<rparr> else r)
      (find (\<lambda>r. mr_memory_id r = m) (records db))" for m
    using mark(3) by (auto simp: update_access_def Let_def find_update_where split: if_splits)
  then have "abs_db db' = abs_db db"
    by (auto simp: abs_db_def mark core_def option.map_comp comp_def intro!: ext option.map_cong)
  then show ?thesis by simp
next
  case (append eid key x raw evs)
  have "abs_db db' = (abs_db db)\<lparr>journal := journal (abs_db db) @ [(se_MemoryID x, se_Version x)]\<rparr>"
    using event_tab.ins_appends [OF append(3)] by (simp add: abs_db_def append event_row_of_def)
  then have "spec_step (abs_db db) (abs_db db')" using spec_step.announce by simp
  then show ?thesis by blast
next
  case (claim rl locked l ms)
  have "db' = db\<lparr>outbox := outbox db'\<rparr>" using claimTx_Inr [OF claim(2)] by simp
  then have "records db' = records db \<and> events db' = events db"
    by (metis db.select_convs(1,2) db.surjective db.update_convs(4))
  then have "abs_db db' = abs_db db" by (simp add: abs_db_def)
  then show ?thesis by simp
qed (simp_all add: abs_db_def)

text \<open>C8: The tables refine the journaled map. Every step of any operation or worker, whatever it had loaded and
  whoever ran in between, is a sequence of steps of the specification: a record appears at version 1 or
  moves on to its next version, and that very step appends the version to the journal; nothing is ever
  taken back. (A dedupe collapse is two of its steps, the relay's steps and access marks are none.)\<close>

theorem store_refines_log:
  assumes "reachable K db" and "commit_step K ev a db db'"
  shows "spec_step\<^sup>*\<^sup>* (abs_db db) (abs_db db')"
  using assms by (rule step_refines)

text \<open>What the specification guarantees: the journal lists the versions of each record in order.\<close>

definition journaled :: "spec \<Rightarrow> bool" where
  "journaled s \<longleftrightarrow> (\<forall>m c. vault s m = Some c \<longrightarrow> subseq (map (Pair m) [1..mr_version c]) (journal s))"

lemma journaled_grows:
  "journaled s \<Longrightarrow> vault s m = Some c \<Longrightarrow> subseq (map (Pair m) [1..mr_version c]) (journal s @ zs)"
  unfolding journaled_def by (intro subseq_rev_drop_many) simp

lemma spec_step_journaled:
  assumes "spec_step s s'" and ok: "journaled s"
  shows "journaled s'"
  using assms(1)
proof cases
  case (create m c)
  have "subseq [(m, 1)] (journal s @ [(m, 1)])" by (rule subseq_drop_many) simp
  then show ?thesis using journaled_grows [OF ok] create by (simp add: journaled_def)
next
  case (advance m c c')
  let ?v = "mr_version c'"
  have "subseq (map (Pair m) [1..?v]) (journal s @ [(m, ?v)])"
  proof (cases "1 \<le> ?v")
    case True
    then have "[1..?v] = [1..mr_version c] @ [?v]"
      using advance(5) upto_rec2 [of 1 ?v] by (auto simp: i64_inc_def i64_min_def split: if_splits)
    then show ?thesis using ok advance(2) by (simp add: journaled_def)
  qed simp
  then show ?thesis using journaled_grows [OF ok] advance by (simp add: journaled_def)
next
  case (announce x)
  then show ?thesis using journaled_grows [OF ok] by (simp add: journaled_def)
qed

lemma spec_run_journaled: "spec_step\<^sup>*\<^sup>* s s' \<Longrightarrow> journaled s \<Longrightarrow> journaled s'"
  by (induction rule: rtranclp_induct) (auto intro: spec_step_journaled)

lemma reachable_spec: "reachable K db \<Longrightarrow> journaled (abs_db db)"
proof (induction rule: reachable.induct)
  case fresh
  show ?case by (simp add: journaled_def abs_db_def)
next
  case (step db ev a db')
  have "spec_step\<^sup>*\<^sup>* (abs_db db) (abs_db db')" by (rule step_refines [OF step.hyps])
  then show ?case using step.IH by (rule spec_run_journaled)
qed

text \<open>C9: The event log tells each record's history in order. In every reachable database, the versions of a
  record from 1 to the current one occur in the event table in this order, without a gap.\<close>

theorem events_in_order:
  assumes "reachable K db" and "r \<in> set (records db)"
  shows "subseq (map (Pair (mr_memory_id r)) [1..mr_version r]) (map (\<lambda>e. (me_memory_id e, me_version e)) (events db))"
proof -
  have "find (\<lambda>x. mr_memory_id x = mr_memory_id r) (records db) = Some r"
    by (rule find_distinct_key [OF conjunct1 [OF reachable_distinct [OF assms(1)]] assms(2)])
  then show ?thesis
    using reachable_spec [OF assms(1)] by (auto simp: journaled_def abs_db_def dest!: spec [of _ "mr_memory_id r"])
qed

lemma store_refines_log_witness:
  "spec_step\<^sup>*\<^sup>* (abs_db (empty_db :: doc db)) (abs_db sample_db) \<and> journal (abs_db sample_db) = [(''m1'', 1)]"
proof -
  obtain l r where w: "write_fresh doc_sdk (calm_env ''1'' 5) sample_write empty_db = Inr (l, r, sample_db)"
    by (simp add: sample_db_def write_eval sample_defs)
  have "map fst (map (\<lambda>r. (me_memory_id r, me_version r, me_event_type r)) (events sample_db)) = [''m1'']"
    "map (fst \<circ> snd) (map (\<lambda>r. (me_memory_id r, me_version r, me_event_type r)) (events sample_db)) = [1]"
    unfolding sample_db_simps(5) by simp_all
  then have "journal (abs_db sample_db) = [(''m1'', 1)]" by (cases "events sample_db") (auto simp: abs_db_def)
  then show ?thesis using store_refines_log [OF reachable.fresh commit_step.wrote [OF w sample_hits]] by blast
qed

lemma events_in_order_witness: "(''m1'', 1) \<in> set (map (\<lambda>e. (me_memory_id e, me_version e)) (events sample_db))"
  using list_emb_set [OF events_in_order [OF sample_reach, of sample_row], of "(''m1'', 1)"] by auto

end
