(* ===== verification/StoreOpsProps.thy ===== *)
theory StoreOpsProps
  imports StoreOps MutateProps "HOL-Library.Multiset"
begin

text \<open>
  Properties of the idempotency store, of direct appends and enqueues, and of the operator's view of
  failed messages.
\<close>

section \<open>Idempotency entries\<close>

lemma select_saved:
  assumes "SaveIdempotency K ev entry db = (Inr u, db')"
  obtains raw r where "marshal_entry K entry = Some raw"
    and "db' = db\<lparr>idems := upsert_idempotency (saved_row entry raw) (idems db)\<rparr>"
    and "select_idempotency (ie_TenantID entry) (ie_IdempotencyKey entry) (idems db') = Inr r"
    and "mi_request_hash r = ie_RequestHash entry" and "mi_response_snapshot r = raw"
proof -
  from assms obtain raw where raw: "marshal_entry K entry = Some raw"
    "db' = db\<lparr>idems := upsert_idempotency (saved_row entry raw) (idems db)\<rparr>"
    by (auto simp: SaveIdempotency_def auto_stmt_Inr split: sum.splits)
  with select_after_upsert [of "saved_row entry raw" "idems db"] that show thesis
    by (auto simp: saved_row_def)
qed

lemma find_upsert_other:
  assumes "idem_key i \<noteq> (t, k)"
  shows "select_idempotency t k (upsert_idempotency i rows) = select_idempotency t k rows"
proof -
  have "find (\<lambda>r. idem_key r = (t, k))
       (update_where (\<lambda>r. idem_key r = idem_key i)
             (\<lambda>r. r\<lparr>mi_request_hash := mi_request_hash i, mi_memory_id := mi_memory_id i,
                    mi_response_snapshot := mi_response_snapshot i, mi_created_at := mi_created_at i,
                    mi_expires_at := mi_expires_at i\<rparr>) rows) = find (\<lambda>r. idem_key r = (t, k)) rows"
    using assms by (induction rows) (auto simp: update_where_def idem_key_def)
  then show ?thesis
    using assms by (simp add: upsert_idempotency_def select_idempotency_def find_append split: option.split)
qed

text \<open>C32: Round trip of the idempotency store. A saved entry is what a later load returns and what a later
  write with its key replays (its response for its own request hash, a conflict for any other),
  whatever was saved before under that key and whatever its expiry time says; the entries of
  other keys and the other tables are untouched.\<close>

theorem idempotency_roundtrip:
  assumes "sdk_ok K" and "SaveIdempotency K ev entry db = (Inr u, db')" and "fault ev' CLookup = None"
  shows "LoadIdempotency K ev' (ie_TenantID entry) (ie_IdempotencyKey entry) db' = Inr entry
    \<and> (\<forall>inp. wi_TenantID inp = ie_TenantID entry \<and> wi_IdempotencyKey inp = ie_IdempotencyKey entry \<longrightarrow>
         lookupIdempotentWrite K ev' inp db' = (if wi_RequestHash inp = ie_RequestHash entry
            then Inr (Some (ie_Response entry)) else Inl ErrIdempotencyConflict))
    \<and> (\<forall>t k. (t, k) \<noteq> (ie_TenantID entry, ie_IdempotencyKey entry) \<longrightarrow>
         LoadIdempotency K ev' t k db' = LoadIdempotency K ev' t k db)
    \<and> records db' = records db \<and> events db' = events db \<and> outbox db' = outbox db \<and> dedupes db' = dedupes db"
proof -
  from assms(2) obtain raw r where s: "marshal_entry K entry = Some raw"
    "db' = db\<lparr>idems := upsert_idempotency (saved_row entry raw) (idems db)\<rparr>"
    "select_idempotency (ie_TenantID entry) (ie_IdempotencyKey entry) (idems db') = Inr r"
    "mi_request_hash r = ie_RequestHash entry" "mi_response_snapshot r = raw" by (rule select_saved)
  have u: "unmarshal_entry K raw = Some entry" using assms(1) s(1) by (simp add: sdk_ok_def)
  have other: "select_idempotency t k (idems db') = select_idempotency t k (idems db)"
    if "(t, k) \<noteq> (ie_TenantID entry, ie_IdempotencyKey entry)" for t k
    using that find_upsert_other [of "saved_row entry raw" t k "idems db"] by (auto simp: s(2) idem_key_def saved_row_def)
  have "LoadIdempotency K ev' (ie_TenantID entry) (ie_IdempotencyKey entry) db' = Inr entry"
    using s(3,5) u assms(3) by (simp add: LoadIdempotency_def driver_def decodeJSON_def)
  moreover have "LoadIdempotency K ev' t k db' = LoadIdempotency K ev' t k db"
    if "(t, k) \<noteq> (ie_TenantID entry, ie_IdempotencyKey entry)" for t k
    using other [OF that] by (simp add: LoadIdempotency_def)
  ultimately show ?thesis
    using s(2-5) u assms(3) by (simp add: lookupIdempotentWrite_def driver_def decodeJSON_def)
qed

definition sample_entry :: IdempotencyEntry where
  "sample_entry = \<lparr>ie_TenantID = ''ta'', ie_IdempotencyKey = ''k1'', ie_RequestHash = ''h9'', ie_MemoryID = ''m7'',
     ie_Response = \<lparr>wr_MemoryID = ''m7'', wr_Version = 3, wr_Created = True, wr_Record = sample_record\<rparr>,
     ie_CreatedAt = 12, ie_ExpiresAt = Some 1\<rparr>"

lemma idempotency_roundtrip_witness:
  "LoadIdempotency doc_sdk (calm_env ''3'' 99000) ''ta'' ''k1''
     (snd (SaveIdempotency doc_sdk (calm_env ''2'' 9000) sample_entry sample_db)) = Inr sample_entry"
proof -
  obtain db' where run: "SaveIdempotency doc_sdk (calm_env ''2'' 9000) sample_entry sample_db = (Inr (), db')"
    by (simp add: SaveIdempotency_def doc_sdk_def encodeJSON_def auto_stmt_calm)
  from idempotency_roundtrip [OF doc_sdk_ok run, of "calm_env ''3'' 99000"] run show ?thesis
    by (simp add: sample_entry_def)
qed

section \<open>Direct appends and enqueues\<close>

definition types_allowed :: "'j db \<Rightarrow> bool" where
  "types_allowed db \<longleftrightarrow> me_event_type ` set (events db) \<subseteq> set allowedEventTypes
     \<and> oe_event_type ` set (outbox db) \<subseteq> set allowedEventTypes"

text \<open>Event types. An event or message of a type outside the nine is refused with an error that matches
  \<open>ErrInvalidEventType\<close> and changes nothing; so, whatever fails, appends and enqueues keep the
  tables' types within the nine.\<close>

theorem event_type_gate:
  assumes "types_allowed db"
  shows "types_allowed (snd (AppendEvent K ev e db)) \<and> types_allowed (snd (EnqueueOutbox K ev m db))
    \<and> (se_EventType e \<notin> set allowedEventTypes \<longrightarrow>
        (\<exists>x. AppendEvent K ev e db = (Inl x, db) \<and> errors_is x ErrInvalidEventType))
    \<and> (om_EventType m \<notin> set allowedEventTypes \<longrightarrow>
        (\<exists>x. EnqueueOutbox K ev m db = (Inl x, db) \<and> errors_is x ErrInvalidEventType))"
proof -
  have "types_allowed (snd (AppendEvent K ev e db))"
    using assms AppendEvent_snd [of K ev e db]
    by (auto simp: types_allowed_def image_subset_iff event_row_of_def dest!: event_tab.ins_appends)
  moreover have "types_allowed (snd (EnqueueOutbox K ev m db))"
    using assms EnqueueOutbox_snd [of K ev m db]
    by (auto simp: types_allowed_def image_subset_iff new_outbox_row_def dest!: outbox_tab.ins_appends)
  ultimately show ?thesis by (simp add: AppendEvent_def EnqueueOutbox_def validateEventType_def)
qed

lemma event_type_gate_witness:
  "types_allowed (snd (AppendEvent doc_sdk (calm_env ''1'' 5) (event_of ''memory_created'' sample_record) empty_db))"
  using event_type_gate [of empty_db doc_sdk "calm_env ''1'' 5" "event_of ''memory_created'' sample_record"]
  by (simp add: types_allowed_def)

text \<open>An appended event can block a record. \<open>AppendEvent\<close> checks neither that the record exists nor
  which tenant it belongs to, and \<^verbatim>\<open>memory_event\<close> is unique in identifier, version and type:
  after an append, in any tenant's name, for the version a record would get next, every mutation
  of that kind at the record's version fails.\<close>

theorem append_blocks_mutation:
  assumes "AppendEvent K ev0 e db0 = (Inr u, db)"
    and "se_MemoryID e = mu_memoryID (mutation_of q)" and "se_EventType e = mu_eventType (mutation_of q)"
    and "se_Version e = i64_inc (mu_expectedVersion (mutation_of q))"
  shows "\<exists>x. run_mutation K ev q db = (Inl x, db)"
proof -
  have "mutateRecordTx K ev (mutation_of q) db \<noteq> Inr (rec, db')" for rec db'
  proof
    assume "mutateRecordTx K ev (mutation_of q) db = Inr (rec, db')"
    then obtain w recs where w: "select_memory_record (mu_tenantID (mutation_of q)) (mu_memoryID (mutation_of q)) (records db) = Inr w"
      "Version (record_of_row w) = mu_expectedVersion (mutation_of q)" "rec = mutated_to ev (mutation_of q) (record_of_row w)"
      "emit K ev mutate_site None (event_of (mu_eventType (mutation_of q)) rec) (db\<lparr>records := recs\<rparr>) = Inr db'"
      by (auto simp: mutateRecordTx_Inr elim!: mutate_loaded_Inr)
    have "(se_MemoryID e, se_Version e, se_EventType e)
        \<in> set (map (\<lambda>r. (me_memory_id r, me_version r, me_event_type r)) (events db))"
      using AppendEvent_Inr [OF assms(1)] by (auto simp: event_row_of_def dest!: event_tab.ins_appends)
    moreover have "se_MemoryID e = MemoryID rec" "se_Version e = Version rec"
      using assms(2,4) w(2) select_memory_record_Inr [OF w(1)] by (simp_all add: w(3) mutation_of_identity)
    ultimately show False using emit_Inr [OF w(4)] assms(3) by simp
  qed
  then have "\<exists>x. mutateRecord K ev (mutation_of q) db = (Inl x, db)" by (intro mutateRecord_no_tx) auto
  then show ?thesis by (auto simp: run_mutation_core mutate_result_def)
qed

lemma append_blocks_mutation_witness:
  "\<exists>db x. AppendEvent doc_sdk (calm_env ''2'' 7)
        (event_of ''memory_deleted'' (sample_record\<lparr>MemoryID := ''m1'', TenantID := ''zz'', Version := 2\<rparr>)) sample_db
      = (Inr (), db)
    \<and> run_mutation doc_sdk (calm_env ''3'' 9) (Delete \<lparr>de_TenantID = ''ta'', de_MemoryID = ''m1'', de_ExpectedVersion = 1\<rparr>) db
      = (Inl x, db)"
proof -
  let ?e = "event_of ''memory_deleted'' (sample_record\<lparr>MemoryID := ''m1'', TenantID := ''zz'', Version := 2\<rparr>)"
  have "\<exists>db. AppendEvent doc_sdk (calm_env ''2'' 7) ?e sample_db = (Inr (), db)"
    by (simp add: AppendEvent_def validateEventType_def allowedEventTypes_def event_type_defs encodeJSON_def
        doc_sdk_def auto_stmt_calm insert_memory_event_def event_row_of_def calm_env_def)
  then obtain db where run: "AppendEvent doc_sdk (calm_env ''2'' 7) ?e sample_db = (Inr (), db)" by blast
  with append_blocks_mutation [OF run, of "Delete \<lparr>de_TenantID = ''ta'', de_MemoryID = ''m1'', de_ExpectedVersion = 1\<rparr>"
      "calm_env ''3'' 9"]
  show ?thesis by (auto simp: i64_inc_def i64_max_def eventTypeMemoryDeleted_def)
qed

section \<open>The operator's operations\<close>

text \<open>\<open>ListFailed\<close> shows the newest failed rows: as many as there are up to the limit, newest first, each
  the view of a failed row, and every failed row left out is no newer than those shown; a
  negative limit is refused by the server.\<close>

theorem list_failed_newest:
  assumes "\<forall>c. fault ev c = None"
  shows "if limit < 0 then ListFailed ev limit db = Inl (Wrap ''memory/postgres: list failed outbox: '' (Pg InvalidLimit))
    else \<exists>shown rest. ListFailed ev limit db = Inr (map failed_view shown)
      \<and> mset (shown @ rest) = mset (filter (\<lambda>r. oe_status r = outboxStatusFailed) (outbox db))
      \<and> length shown = min (nat limit) (count_where (\<lambda>r. oe_status r = outboxStatusFailed) (outbox db))
      \<and> sorted_wrt (\<lambda>r s. oe_created_at s \<le> oe_created_at r) shown
      \<and> (\<forall>r\<in>set shown. \<forall>s\<in>set rest. oe_created_at s \<le> oe_created_at r)"
proof (cases "limit < 0")
  case True
  then show ?thesis using assms by (simp add: ListFailed_def select_failed_def exec_calm)
next
  case False
  let ?failed = "filter (\<lambda>r. oe_status r = outboxStatusFailed) (outbox db)"
  let ?all = "order_by ev oe_outbox_id (\<lambda>r. Desc (oe_created_at r)) ?failed"
  note cut = order_by_cut [where n = "nat limit" and p = "\<lambda>_. True" and ev = ev and ident = oe_outbox_id
      and key = "\<lambda>r. Desc (oe_created_at r)" and rows = ?failed, unfolded filter_True_all desc_order]
  have run: "ListFailed ev limit db = Inr (map failed_view (take (nat limit) ?all))"
    using False assms by (simp add: ListFailed_def select_failed_def exec_calm fetch_rows_calm)
  show ?thesis unfolding if_not_P [OF False] count_where_def
    by (rule exI [of _ "take (nat limit) ?all"], rule exI [of _ "drop (nat limit) ?all"]) (intro conjI run cut)
qed

lemma list_failed_newest_witness:
  "ListFailed (calm_env ''1'' 5) (-1) (empty_db :: doc db)
     = Inl (Wrap ''memory/postgres: list failed outbox: '' (Pg InvalidLimit))"
  using list_failed_newest [of "calm_env ''1'' 5" "-1" "empty_db :: doc db"] by simp

lemma requeued_simps [simp]:
  "oe_outbox_id (requeued r) = oe_outbox_id r" "oe_status (requeued r) = outboxStatusPending"
  "oe_payload (requeued r) = oe_payload r" "oe_attempt_count (requeued r) = 0"
  "oe_created_at (requeued r) = oe_created_at r"
  by (simp_all add: requeued_def)

lemma ListFailed_shows:
  assumes "ListFailed ev limit db = Inr out" and "x \<in> set out"
  shows "\<exists>r\<in>set (outbox db). oe_status r = outboxStatusFailed \<and> x = failed_view r"
proof -
  from assms(1) obtain n where "out = map failed_view (take n (order_by ev oe_outbox_id (\<lambda>r. Desc (oe_created_at r))
      (filter (\<lambda>r. oe_status r = outboxStatusFailed) (outbox db))))"
    by (auto simp: ListFailed_def select_failed_def bindE_eq_Inr dest: fetch_rows_total split: if_splits)
  with assms(2) show ?thesis by (auto dest!: in_set_takeD)
qed

lemma RequeueFailed_calm:
  "RequeueFailed ev i db = (Inr res, db') \<Longrightarrow>
     res = \<lparr>RowsAffected = count_where (\<lambda>r. oe_outbox_id r = i \<and> oe_status r = outboxStatusFailed) (outbox db)\<rparr>
     \<and> db' = db\<lparr>outbox := update_where (\<lambda>r. oe_outbox_id r = i \<and> oe_status r = outboxStatusFailed) requeued (outbox db)\<rparr>"
  by (simp add: RequeueFailed_def Let_def auto_stmt_Inr)

lemma requeue_none:
  assumes "\<forall>r\<in>set (outbox db). oe_outbox_id r = i \<longrightarrow> oe_status r \<noteq> outboxStatusFailed"
    and "RequeueFailed ev i db = (Inr res, db')"
  shows "RowsAffected res = 0 \<and> db' = db"
proof -
  have "count_where (\<lambda>r. oe_outbox_id r = i \<and> oe_status r = outboxStatusFailed) (outbox db) = 0"
    using assms(1) by (simp add: count_where_0)
  from this update_where_uncounted [OF this, of requeued] RequeueFailed_calm [OF assms(2)] show ?thesis by simp
qed

lemma requeue_spent:
  assumes "RequeueFailed ev i db = (Inr res, db')"
  shows "\<forall>r\<in>set (outbox db'). oe_outbox_id r = i \<longrightarrow> oe_status r \<noteq> outboxStatusFailed"
proof (intro ballI impI)
  let ?hit = "\<lambda>r. oe_outbox_id r = i \<and> oe_status r = outboxStatusFailed"
  fix r assume "r \<in> set (outbox db')" and id: "oe_outbox_id r = i"
  moreover have "outbox db' = update_where ?hit requeued (outbox db)" using RequeueFailed_calm [OF assms] by simp
  ultimately have "r \<in> (\<lambda>x. if ?hit x then requeued x else x) ` set (outbox db)" by (simp only: set_update_where)
  then obtain x where "r = (if ?hit x then requeued x else x)" by (rule imageE)
  then show "oe_status r \<noteq> outboxStatusFailed" using id by (cases "?hit x") (simp_all add: requeued_def)
qed

text \<open>\<open>RequeueFailed\<close> touches one failed row. It reports one row exactly when the identifier names a failed row,
  and zero otherwise; that row becomes pending with a fresh attempt count, no error and no lease,
  and keeps its message; nothing else changes; the row is gone from every later listing; and a
  second requeue reports zero and changes nothing.\<close>

theorem requeue_failed_one:
  assumes "distinct (map oe_outbox_id (outbox db))" and "RequeueFailed ev i db = (Inr res, db')"
  shows "(RowsAffected res = 1 \<and> (\<exists>as r bs. outbox db = as @ r # bs \<and> oe_outbox_id r = i \<and> oe_status r = outboxStatusFailed
            \<and> db' = db\<lparr>outbox := as @ requeued r # bs\<rparr>)
        \<or> RowsAffected res = 0 \<and> (\<forall>r\<in>set (outbox db). oe_outbox_id r = i \<longrightarrow> oe_status r \<noteq> outboxStatusFailed) \<and> db' = db)
    \<and> (\<forall>ev' limit out. ListFailed ev' limit db' = Inr out \<longrightarrow> i \<notin> fo_OutboxID ` set out)
    \<and> (\<forall>ev' res' db2. RequeueFailed ev' i db' = (Inr res', db2) \<longrightarrow> RowsAffected res' = 0 \<and> db2 = db')"
proof -
  let ?hit = "\<lambda>r. oe_outbox_id r = i \<and> oe_status r = outboxStatusFailed"
  note run = RequeueFailed_calm [OF assms(2)] and spent = requeue_spent [OF assms(2)]
  have listed: "i \<notin> fo_OutboxID ` set out" if "ListFailed ev' limit db' = Inr out" for ev' limit out
    using ListFailed_shows [OF that] spent by (fastforce simp: failed_view_def)
  have "RowsAffected res = 1 \<and> (\<exists>as r bs. outbox db = as @ r # bs \<and> oe_outbox_id r = i \<and> oe_status r = outboxStatusFailed
            \<and> db' = db\<lparr>outbox := as @ requeued r # bs\<rparr>)
        \<or> RowsAffected res = 0 \<and> (\<forall>r\<in>set (outbox db). oe_outbox_id r = i \<longrightarrow> oe_status r \<noteq> outboxStatusFailed) \<and> db' = db"
  proof (cases "\<exists>r\<in>set (outbox db). ?hit r")
    case True
    then obtain as r bs where "outbox db = as @ r # bs" "?hit r" "update_where ?hit requeued (outbox db) = as @ requeued r # bs"
      "count_where ?hit (outbox db) = 1"
      using update_where_unique [OF assms(1) _ True, of i requeued] by blast
    then show ?thesis using run by auto
  next
    case False
    then show ?thesis using requeue_none [OF _ assms(2)] by blast
  qed
  with listed requeue_none [OF spent] show ?thesis by blast
qed

definition failed_outbox :: "doc outbox_row list" where
  "failed_outbox = [(new_outbox_row (calm_env ''1'' 5) ''o1'' ''m1'' ''ta'' ''e1'' ''memory_created''
       (DocOutbox (message_of ''e1'' (event_of ''memory_created'' sample_record))))
     \<lparr>oe_status := outboxStatusFailed, oe_attempt_count := 5, oe_last_error := Some ''boom''\<rparr>]"

lemma requeue_failed_one_witness:
  "RequeueFailed (calm_env ''2'' 9) ''o1'' (empty_db\<lparr>outbox := failed_outbox\<rparr>)
     = (Inr \<lparr>RowsAffected = 1\<rparr>, empty_db\<lparr>outbox := map requeued failed_outbox\<rparr>)"
proof -
  obtain res db' where run: "RequeueFailed (calm_env ''2'' 9) ''o1'' (empty_db\<lparr>outbox := failed_outbox\<rparr>) = (Inr res, db')"
    by (simp add: RequeueFailed_def Let_def auto_stmt_calm)
  have d: "distinct (map oe_outbox_id (outbox (empty_db\<lparr>outbox := failed_outbox\<rparr>)))" by (simp add: failed_outbox_def)
  from requeue_failed_one [OF d run] run show ?thesis
    by (auto simp: failed_outbox_def new_outbox_row_def append_eq_Cons_conv Cons_eq_append_conv)
qed

end
