(* ===== verification/RelayDrain.thy ===== *)
theory RelayDrain
  imports RelayRun
begin

text \<open>
  Progress of the relay: with a publisher that accepts and calls that do not fail, repeated rounds
  send every message; and the ways in which a message never gets through.
\<close>

section \<open>A quiet round\<close>

definition calm_calls :: "(nat \<Rightarrow> env) \<Rightarrow> bool" where
  "calm_calls evs \<longleftrightarrow> (\<forall>i c. fault (evs i) c = None) \<and> (\<forall>i. commit (evs i) = Committed)"

definition accepts :: "'p pub \<Rightarrow> bool" where
  "accepts pub \<longleftrightarrow> (\<forall>m s. fst (pub m s) = None)"

text \<open>A row before and after a worker has tried the identifiers \<open>ids\<close>: one of them is sent, or, unless the
  publisher accepts everything (\<open>acc\<close>), counted against the attempt limit \<open>mx\<close>. \<open>k\<close> is 1 when the claim,
  which counts the attempt, is included.\<close>

definition handled :: "int \<Rightarrow> bool \<Rightarrow> int \<Rightarrow> string set \<Rightarrow> 'j outbox_row \<Rightarrow> 'j outbox_row \<Rightarrow> bool" where
  "handled mx acc k ids r r' \<longleftrightarrow> oe_outbox_id r' = oe_outbox_id r \<and> oe_payload r' = oe_payload r
     \<and> (if oe_outbox_id r \<in> ids
        then oe_attempt_count r' = oe_attempt_count r + k
          \<and> (oe_status r' = outboxStatusSent
             \<or> \<not> acc \<and> oe_status r' = (if mx \<le> oe_attempt_count r' then outboxStatusFailed else outboxStatusPending))
        else r' = r)"

lemma handled_none: "list_all2 (handled mx acc k {}) rows rows"
  by (simp add: list.rel_refl handled_def)

lemma handled_row_trans: "handled mx acc 0 A r r1 \<Longrightarrow> handled mx acc 0 B r1 r2 \<Longrightarrow> handled mx acc 0 (A \<union> B) r r2"
  by (cases "oe_outbox_id r \<in> A"; cases "oe_outbox_id r \<in> B") (auto simp: handled_def split: if_splits)

lemma handled_trans:
  "list_all2 (handled mx acc 0 A) xs ys \<Longrightarrow> list_all2 (handled mx acc 0 B) ys zs \<Longrightarrow> list_all2 (handled mx acc 0 (A \<union> B)) xs zs"
  by (rule list_all2_trans [OF handled_row_trans])

lemma handled_ids: "list_all2 (handled mx acc k A) xs ys \<Longrightarrow> map oe_outbox_id ys = map oe_outbox_id xs"
  by (auto simp: list_all2_conv_all_nth handled_def intro: nth_equalityI)

text \<open>The worker's lease on a message outlasts the round, and the message says the attempts of its row.\<close>

definition holds_lease :: "'p Relay \<Rightarrow> (nat \<Rightarrow> env) \<Rightarrow> 'j db \<Rightarrow> ClaimedMessage \<Rightarrow> bool" where
  "holds_lease rl evs db m \<longleftrightarrow> (\<exists>r\<in>set (outbox db). oe_outbox_id r = cm_OutboxID m \<and> oe_attempt_count r = cm_AttemptCount m
     \<and> oe_claimed_by r = Some (rl_workerID rl) \<and> (\<exists>l. oe_lease_expires_at r = Some l \<and> (\<forall>i. db_now (evs i) < l)))"

lemma ack_handles:
  assumes "distinct (map oe_outbox_id (outbox db))" and "calm_calls evs" and "holds_lease rl evs db m" and "acc \<longrightarrow> ok"
  obtains db1 where "Ack et rl (evs i) (cm_OutboxID m) ok (cm_AttemptCount m) pe db = (Inr (), db1)"
    and "list_all2 (handled (MaxAttempts (rl_cfg rl)) acc 0 {cm_OutboxID m}) (outbox db) (outbox db1)"
    and "\<And>x. cm_OutboxID x \<noteq> cm_OutboxID m \<Longrightarrow> holds_lease rl evs db x \<Longrightarrow> holds_lease rl evs db1 x"
proof -
  let ?own = "owned (cm_OutboxID m) (rl_workerID rl) (db_now (evs i))"
  let ?set = "ack_setter et rl (evs i) ok (cm_AttemptCount m) pe"
  from assms(3) obtain r l where r: "r \<in> set (outbox db)" "oe_outbox_id r = cm_OutboxID m" "oe_attempt_count r = cm_AttemptCount m"
    "oe_claimed_by r = Some (rl_workerID rl)" "oe_lease_expires_at r = Some l" "db_now (evs i) < l"
    by (auto simp: holds_lease_def)
  have the: "x = r" if "x \<in> set (outbox db)" "oe_outbox_id x = cm_OutboxID m" for x
    using distinct_key_inj [OF assms(1) that(1) r(1)] that(2) r(2) by simp
  have own: "?own x \<longleftrightarrow> oe_outbox_id x = cm_OutboxID m" if "x \<in> set (outbox db)" for x
    using the [OF that] r by (auto simp: owned_def)
  have ack: "Ack et rl (evs i) (cm_OutboxID m) ok (cm_AttemptCount m) pe db
      = (Inr (), db\<lparr>outbox := update_where ?own ?set (outbox db)\<rparr>)"
    using assms(2) r(1,2) own by (auto simp: Ack_calm calm_calls_def)
  have "handled (MaxAttempts (rl_cfg rl)) acc 0 {cm_OutboxID m} x (if ?own x then ?set x else x)" if "x \<in> set (outbox db)" for x
    using own [OF that] the [OF that] r(3) assms(4) by (auto simp: handled_def)
  then have all: "list_all2 (handled (MaxAttempts (rl_cfg rl)) acc 0 {cm_OutboxID m}) (outbox db) (update_where ?own ?set (outbox db))"
    by (simp add: update_where_def list_all2_conv_all_nth)
  have keep: "holds_lease rl evs (db\<lparr>outbox := update_where ?own ?set (outbox db)\<rparr>) x"
    if x: "cm_OutboxID x \<noteq> cm_OutboxID m" "holds_lease rl evs db x" for x
  proof -
    from x(2) obtain y where y: "y \<in> set (outbox db)" "oe_outbox_id y = cm_OutboxID x" "oe_attempt_count y = cm_AttemptCount x"
      "oe_claimed_by y = Some (rl_workerID rl)" "\<exists>l. oe_lease_expires_at y = Some l \<and> (\<forall>i. db_now (evs i) < l)"
      by (auto simp: holds_lease_def)
    with x(1) own [OF y(1)] have "y \<in> set (update_where ?own ?set (outbox db))" by (force simp: set_update_where image_iff)
    with y show ?thesis unfolding holds_lease_def by auto
  qed
  show thesis by (rule that [OF ack]) (simp_all add: all keep)
qed

lemma run_messages_quiet:
  assumes "calm_calls evs" and "acc = accepts (rl_publisher rl)" and "distinct (map cm_OutboxID ms)"
    and "distinct (map oe_outbox_id (outbox db))" and "\<forall>m\<in>set ms. holds_lease rl evs db m"
    and "run_messages rl (quiet evs) i ms stats errs p db = (stats', errs', p', db')"
  shows "errs' = errs \<and> Published stats' + Failed stats' = Published stats + Failed stats + length ms
    \<and> (acc \<longrightarrow> Failed stats' = Failed stats) \<and> LeaseLost stats' = LeaseLost stats
    \<and> list_all2 (handled (MaxAttempts (rl_cfg rl)) acc 0 (cm_OutboxID ` set ms)) (outbox db) (outbox db')"
  using assms(3-)
proof (induction ms arbitrary: i stats p db)
  case Nil
  then show ?case by (simp add: handled_none)
next
  case (Cons m ms)
  obtain pe p1 where pub: "rl_publisher rl (cm_Payload m) p = (pe, p1)" by fastforce
  have pe: "acc \<longrightarrow> pe = None" using pub assms(2) by (metis accepts_def fst_conv)
  have hold: "holds_lease rl evs db m" using Cons.prems(3) by simp
  from Cons.prems(2) assms(1) hold pe obtain db1 where
    ack: "Ack (\<lambda>_. []) rl (evs i) (cm_OutboxID m) (pe = None) (cm_AttemptCount m) pe db = (Inr (), db1)"
    and h: "list_all2 (handled (MaxAttempts (rl_cfg rl)) acc 0 {cm_OutboxID m}) (outbox db) (outbox db1)"
    and keep: "\<And>x. cm_OutboxID x \<noteq> cm_OutboxID m \<Longrightarrow> holds_lease rl evs db x \<Longrightarrow> holds_lease rl evs db1 x"
    by (rule ack_handles) blast
  let ?s = "if pe \<noteq> None then stats\<lparr>Failed := Failed stats + 1\<rparr> else stats\<lparr>Published := Published stats + 1\<rparr>"
  have run: "run_messages rl (quiet evs) (Suc i) ms ?s errs p1 db1 = (stats', errs', p', db')"
    using Cons.prems(4) pub ack by simp
  have d1: "distinct (map oe_outbox_id (outbox db1))" using Cons.prems(2) handled_ids [OF h] by simp
  have "\<forall>x\<in>set ms. holds_lease rl evs db1 x"
  proof
    fix x assume "x \<in> set ms"
    then have "cm_OutboxID x \<noteq> cm_OutboxID m" using Cons.prems(1) by (auto simp: image_iff)
    with \<open>x \<in> set ms\<close> Cons.prems(3) keep [of x] show "holds_lease rl evs db1 x" by simp
  qed
  with Cons.IH [OF _ d1 _ run] Cons.prems(1) have ih: "errs' = errs" "Published stats' + Failed stats' = Published ?s + Failed ?s + length ms"
    "acc \<longrightarrow> Failed stats' = Failed ?s" "LeaseLost stats' = LeaseLost ?s"
    "list_all2 (handled (MaxAttempts (rl_cfg rl)) acc 0 (cm_OutboxID ` set ms)) (outbox db1) (outbox db')" by simp_all
  have "list_all2 (handled (MaxAttempts (rl_cfg rl)) acc 0 (cm_OutboxID ` set (m # ms))) (outbox db) (outbox db')"
    using handled_trans [OF h ih(5)] by simp
  with ih pe show ?case by simp
qed

section \<open>Outboxes nobody works on\<close>

definition pending :: "'j outbox_row \<Rightarrow> bool" where
  "pending r \<longleftrightarrow> oe_status r = outboxStatusPending"

text \<open>No row is leased, and every pending one decodes and can count another attempt.\<close>

definition idle :: "'j sdk \<Rightarrow> 'j db \<Rightarrow> bool" where
  "idle K db \<longleftrightarrow> distinct (map oe_outbox_id (outbox db))
     \<and> (\<forall>r\<in>set (outbox db). oe_status r = outboxStatusSent \<or> oe_status r = outboxStatusFailed
          \<or> pending r \<and> unmarshal_outbox K (oe_payload r) \<noteq> None \<and> oe_attempt_count r < i32_max)"

lemma idle_claimable: "idle K db \<Longrightarrow> r \<in> set (outbox db) \<Longrightarrow> claimable t r \<longleftrightarrow> pending r"
  by (auto simp: idle_def claimable_def pending_def)

lemma idle_pending:
  "idle K db \<Longrightarrow> r \<in> set (outbox db) \<Longrightarrow> pending r \<Longrightarrow> unmarshal_outbox K (oe_payload r) \<noteq> None \<and> oe_attempt_count r < i32_max"
  by (auto simp: idle_def pending_def)

lemma idle_to_claim:
  assumes "idle K db"
  shows "to_claim ev (\<lambda>_. False) rl db = take (nat (BatchSize (rl_cfg rl)))
      (order_by ev oe_outbox_id oe_created_at (filter pending (outbox db)))"
proof -
  have "filter (claimable (db_now ev)) (outbox db) = filter pending (outbox db)"
    by (rule filter_cong [OF refl idle_claimable [OF assms]])
  then show ?thesis by (simp add: to_claim_def)
qed

lemma idle_to_claim_sub: "idle K db \<Longrightarrow> x \<in> set (to_claim ev (\<lambda>_. False) rl db) \<Longrightarrow> x \<in> set (outbox db) \<and> pending x"
  by (auto simp: idle_to_claim dest: in_set_takeD)

text \<open>A claim goes through when the rows it takes decode and can count another attempt.\<close>

lemma claim_ok:
  assumes "\<forall>r\<in>set (to_claim ev locked rl db). unmarshal_outbox K (oe_payload r) \<noteq> None"
    and "\<forall>r\<in>set (outbox db). oe_outbox_id r \<in> oe_outbox_id ` set (to_claim ev locked rl db) \<longrightarrow> oe_attempt_count r < i32_max"
    and "0 \<le> BatchSize (rl_cfg rl)" and "\<forall>c. fault ev c = None" and "commit ev = Committed"
  shows "\<exists>ms db1. ClaimBatch K rl ev locked db = (Inr ms, db1)"
proof -
  let ?t = "to_claim ev locked rl db"
  from assms(1) assms(4) obtain pend where p: "decode_claims K ev ?t = Inr pend" using decode_claims_ok by blast
  have ids: "cm_OutboxID ` set pend = oe_outbox_id ` set ?t" using decode_claims_Inr [OF p] by (metis list.set_map)
  have "\<not> (\<exists>r\<in>set (outbox db). oe_outbox_id r \<in> oe_outbox_id ` set ?t \<and> i32_max \<le> oe_attempt_count r)"
    using assms(2) by fastforce
  then have u: "update_claimed w t n (map cm_OutboxID pend) (outbox db) =
      Inr (update_where (\<lambda>r. oe_outbox_id r \<in> oe_outbox_id ` set ?t) (claimed_row w t n) (outbox db))" for w t n
    by (auto simp: update_claimed_def Let_def ids)
  have "\<exists>l ms db1. claimTx K rl ev locked db = Inr (l, ms, db1)"
    using assms(3,4) p u by (simp add: claimTx_def exec_calm select_claimable_def to_claim_def)
  with assms(4,5) show ?thesis by (auto simp: ClaimBatch_Inr)
qed

lemma idle_claims:
  assumes "idle K db" and "calm_calls evs" and "0 < BatchSize (rl_cfg rl)"
  shows "\<exists>ms db1. ClaimBatch K rl (evs 0) (\<lambda>_. False) db = (Inr ms, db1)"
proof (rule claim_ok)
  note sub = idle_to_claim_sub [OF assms(1), of _ "evs 0" rl]
  show "\<forall>r\<in>set (to_claim (evs 0) (\<lambda>_. False) rl db). unmarshal_outbox K (oe_payload r) \<noteq> None"
    using sub idle_pending [OF assms(1)] by blast
  show "\<forall>r\<in>set (outbox db). oe_outbox_id r \<in> oe_outbox_id ` set (to_claim (evs 0) (\<lambda>_. False) rl db) \<longrightarrow> oe_attempt_count r < i32_max"
  proof (intro ballI impI)
    fix r assume r: "r \<in> set (outbox db)" "oe_outbox_id r \<in> oe_outbox_id ` set (to_claim (evs 0) (\<lambda>_. False) rl db)"
    then obtain x where x: "x \<in> set (to_claim (evs 0) (\<lambda>_. False) rl db)" "oe_outbox_id r = oe_outbox_id x" by blast
    with assms(1) r(1) sub [OF x(1)] distinct_key_inj [of oe_outbox_id "outbox db" r x] have "r = x" by (simp add: idle_def)
    with sub [OF x(1)] idle_pending [OF assms(1)] show "oe_attempt_count r < i32_max" by blast
  qed
qed (use assms(2,3) in \<open>simp_all add: calm_calls_def\<close>)

text \<open>The clock readings of a round all fall within the lease its claim takes.\<close>

definition within_lease :: "'p Relay \<Rightarrow> (nat \<Rightarrow> env) \<Rightarrow> bool" where
  "within_lease rl evs \<longleftrightarrow> (\<forall>i. db_now (evs i) < db_now (evs 0) + Milliseconds (LeaseTTL (rl_cfg rl)) * 1000000)"

lemma idle_handled:
  assumes "idle K db" and "list_all2 (handled mx acc 1 ids) (outbox db) (outbox db')" and "acc \<or> mx \<le> i32_max"
    and "\<And>r. r \<in> set (outbox db) \<Longrightarrow> oe_outbox_id r \<in> ids \<Longrightarrow> pending r"
  shows "idle K db'"
proof -
  have "oe_status r' = outboxStatusSent \<or> oe_status r' = outboxStatusFailed
      \<or> pending r' \<and> unmarshal_outbox K (oe_payload r') \<noteq> None \<and> oe_attempt_count r' < i32_max"
    if "r' \<in> set (outbox db')" for r'
  proof -
    from that obtain i where "i < length (outbox db')" "r' = outbox db' ! i" by (auto simp: in_set_conv_nth)
    with assms(2) have i: "handled mx acc 1 ids (outbox db ! i) r'" "outbox db ! i \<in> set (outbox db)"
      by (auto simp: list_all2_conv_all_nth)
    show ?thesis
    proof (cases "oe_outbox_id (outbox db ! i) \<in> ids")
      case True
      with i idle_pending [OF assms(1) i(2) assms(4) [OF i(2) True]] assms(3) show ?thesis
        by (auto simp: handled_def pending_def split: if_splits)
    next
      case False
      with i assms(1) show ?thesis by (auto simp: handled_def idle_def)
    qed
  qed
  with assms(1) handled_ids [OF assms(2)] show ?thesis by (simp add: idle_def)
qed

text \<open>A round nothing disturbs: it tries as many pending messages as fit a batch, each once.\<close>

text \<open>What a claim takes from an idle outbox, and that its leases hold through the round.\<close>

lemma claim_held:
  assumes tx: "claimTx K rl (evs 0) locked db = Inr (l, ms, db1)" and "within_lease rl evs" and m: "m \<in> set ms"
  shows "holds_lease rl evs db1 m"
proof -
  let ?t = "to_claim (evs 0) locked rl db"
  note c = claimTx_Inr [OF tx]
  have ids: "map cm_OutboxID ms = map oe_outbox_id ?t" using c by blast
  have atts: "map cm_AttemptCount ms = map (\<lambda>r. oe_attempt_count r + 1) ?t" using c by blast
  have len: "length ms = length ?t" using arg_cong [OF ids, of length] by simp
  from m obtain j where j: "j < length ms" "m = ms ! j" by (auto simp: in_set_conv_nth)
  have r: "?t ! j \<in> set ?t" "oe_outbox_id (?t ! j) = cm_OutboxID m" "oe_attempt_count (?t ! j) + 1 = cm_AttemptCount m"
    using j len ids atts by (simp, metis nth_map, metis (no_types, lifting) nth_map)
  have "outbox db1 = update_where (\<lambda>r. oe_outbox_id r \<in> oe_outbox_id ` set ?t)
      (claimed_row (rl_workerID rl) (db_now (evs 0)) (Milliseconds (LeaseTTL (rl_cfg rl)))) (outbox db)"
    using c by simp
  moreover have "?t ! j \<in> set (outbox db)" using to_claim_sub [of "evs 0" locked rl db] r(1) by blast
  ultimately have "claimed_row (rl_workerID rl) (db_now (evs 0)) (Milliseconds (LeaseTTL (rl_cfg rl))) (?t ! j) \<in> set (outbox db1)"
    using r(1) by (force simp: update_where_def image_iff)
  with r(2,3) assms(2) show ?thesis
    unfolding holds_lease_def within_lease_def by (intro bexI) (auto simp: claimed_row_def)
qed

lemma idle_claim_count:
  assumes "idle K db"
  shows "count_where (\<lambda>r. oe_outbox_id r \<in> oe_outbox_id ` set (to_claim ev (\<lambda>_. False) rl db)) (outbox db)
      = length (to_claim ev (\<lambda>_. False) rl db)"
    and "\<forall>r\<in>set (outbox db). oe_outbox_id r \<in> oe_outbox_id ` set (to_claim ev (\<lambda>_. False) rl db) \<longrightarrow> pending r"
    and "distinct (map oe_outbox_id (to_claim ev (\<lambda>_. False) rl db))"
proof -
  let ?t = "to_claim ev (\<lambda>_. False) rl db"
  have dist: "distinct (map oe_outbox_id (outbox db))" using assms by (simp add: idle_def)
  note sub = idle_to_claim_sub [OF assms, of _ ev rl]
  have hit: "oe_outbox_id r \<in> oe_outbox_id ` set ?t \<longleftrightarrow> r \<in> set ?t" if "r \<in> set (outbox db)" for r
    using that sub distinct_key_inj [OF dist that] by blast
  show "\<forall>r\<in>set (outbox db). oe_outbox_id r \<in> oe_outbox_id ` set ?t \<longrightarrow> pending r" using hit sub by blast
  have d: "distinct ?t" using dist by (simp add: idle_to_claim [OF assms] distinct_map)
  have "inj_on oe_outbox_id (set ?t)" using dist sub by (auto simp: distinct_map inj_on_def)
  with d show "distinct (map oe_outbox_id ?t)" by (simp add: distinct_map)
  have "set (filter (\<lambda>r. oe_outbox_id r \<in> oe_outbox_id ` set ?t) (outbox db)) = set ?t" using hit sub by auto
  moreover have "distinct (filter (\<lambda>r. oe_outbox_id r \<in> oe_outbox_id ` set ?t) (outbox db))" using dist by (simp add: distinct_map)
  ultimately show "count_where (\<lambda>r. oe_outbox_id r \<in> oe_outbox_id ` set ?t) (outbox db) = length ?t"
    unfolding count_where_def using d by (metis distinct_card)
qed

lemma quiet_round:
  assumes "idle K db" and "calm_calls evs" and "within_lease rl evs" and "0 < BatchSize (rl_cfg rl)"
    and "accepts (rl_publisher rl) \<or> MaxAttempts (rl_cfg rl) \<le> i32_max" and run: "RunOnce K rl (quiet evs) p db = (stats, e, p', db')"
  shows "idle K db' \<and> e = None \<and> (accepts (rl_publisher rl) \<longrightarrow> Failed stats = 0)
    \<and> (\<exists>ids. list_all2 (handled (MaxAttempts (rl_cfg rl)) (accepts (rl_publisher rl)) 1 ids) (outbox db) (outbox db')
        \<and> (\<forall>r\<in>set (outbox db). oe_outbox_id r \<in> ids \<longrightarrow> pending r)
        \<and> count_where (\<lambda>r. oe_outbox_id r \<in> ids) (outbox db) = Published stats + Failed stats
        \<and> Published stats + Failed stats = min (nat (BatchSize (rl_cfg rl))) (count_where pending (outbox db)))"
proof -
  let ?t = "to_claim (evs 0) (\<lambda>_. False) rl db"
  let ?ids = "oe_outbox_id ` set ?t"
  obtain ms db1 where claim: "ClaimBatch K rl (evs 0) (\<lambda>_. False) db = (Inr ms, db1)"
    using idle_claims [OF assms(1,2,4)] by blast
  then obtain l where tx: "claimTx K rl (evs 0) (\<lambda>_. False) db = Inr (l, ms, db1)" by (auto simp: ClaimBatch_Inr)
  note c = claimTx_Inr [OF tx]
  have dist: "distinct (map oe_outbox_id (outbox db))" using assms(1) by (simp add: idle_def)
  have ids: "map cm_OutboxID ms = map oe_outbox_id ?t" using c by blast
  have idset: "cm_OutboxID ` set ms = ?ids" using arg_cong [OF ids, of set] by simp
  note count = idle_claim_count [OF assms(1), of "evs 0" rl]
  have dms: "distinct (map cm_OutboxID ms)" unfolding ids by (rule count(3))
  have rows: "outbox db1 = map (\<lambda>r. if oe_outbox_id r \<in> ?ids
      then claimed_row (rl_workerID rl) (db_now (evs 0)) (Milliseconds (LeaseTTL (rl_cfg rl))) r else r) (outbox db)"
    using c by (simp add: update_where_def)
  have d1: "distinct (map oe_outbox_id (outbox db1))" using claim_carries(2) [OF dist tx] dist by simp
  have "\<forall>m\<in>set ms. holds_lease rl evs db1 m" using claim_held [OF tx assms(3)] by blast
  moreover obtain s2 errs p2 db2 where msgs: "run_messages rl (quiet evs) 1 ms \<lparr>Published = 0, Failed = 0, LeaseLost = 0\<rparr> [] p db1
      = (s2, errs, p2, db2)" by (metis prod_cases4)
  ultimately have q: "errs = []" "Published s2 + Failed s2 = length ms" "accepts (rl_publisher rl) \<longrightarrow> Failed s2 = 0"
    "list_all2 (handled (MaxAttempts (rl_cfg rl)) (accepts (rl_publisher rl)) 0 (cm_OutboxID ` set ms)) (outbox db1) (outbox db2)"
    using run_messages_quiet [OF assms(2) refl dms d1 _ msgs] by simp_all
  have e: "stats = s2" "e = None" "db' = db2" using run claim msgs q(1) by (simp_all add: RunOnce_def)
  have all: "list_all2 (handled (MaxAttempts (rl_cfg rl)) (accepts (rl_publisher rl)) 1 ?ids) (outbox db) (outbox db2)"
    using q(4) unfolding rows idset
    by (auto simp: list_all2_conv_all_nth handled_def claimed_row_def split: if_splits)
  have "length ?t = min (nat (BatchSize (rl_cfg rl))) (count_where pending (outbox db))"
    by (simp add: idle_to_claim [OF assms(1)] count_where_def min.commute)
  moreover have "length ms = length ?t" using arg_cong [OF ids, of length] by simp
  moreover have "idle K db2" by (rule idle_handled [OF assms(1) all assms(5)]) (use count(2) in blast)
  ultimately show ?thesis using all count(1,2) q(2,3) e by auto
qed

section \<open>Rounds\<close>

text \<open>A relay that runs one round after the other.\<close>

fun rounds :: "'j sdk \<Rightarrow> 'p Relay \<Rightarrow> (nat \<Rightarrow> env) list \<Rightarrow> 'p \<Rightarrow> 'j db \<Rightarrow> RunStats list \<times> 'p \<times> 'j db" where
  "rounds K rl [] p db = ([], p, db)"
| "rounds K rl (evs # rest) p db =
     (case RunOnce K rl (quiet evs) p db of (stats, _, p1, db1) \<Rightarrow>
      case rounds K rl rest p1 db1 of (all, p2, db2) \<Rightarrow> (stats # all, p2, db2))"

text \<open>The rounds a row can still take: the attempts left before the limit, and at least one while it is pending.\<close>

definition tries_left :: "int \<Rightarrow> 'j outbox_row \<Rightarrow> nat" where
  "tries_left mx r = (if pending r then nat (max 1 (mx - oe_attempt_count r)) else 0)"

definition work :: "int \<Rightarrow> 'j outbox_row list \<Rightarrow> nat" where
  "work mx rows = sum_list (map (tries_left mx) rows)"

lemma work_0: "work mx rows = 0 \<longleftrightarrow> (\<forall>r\<in>set rows. \<not> pending r)"
  by (induction rows) (auto simp: work_def tries_left_def)

lemma handled_tries:
  assumes "handled mx acc 1 ids r r'" and "oe_outbox_id r \<in> ids \<longrightarrow> pending r"
  shows "tries_left mx r' + (if oe_outbox_id r \<in> ids then 1 else 0) \<le> tries_left mx r"
  using assms by (auto simp: handled_def tries_left_def pending_def split: if_splits)

lemma handled_work:
  assumes "list_all2 (handled mx acc 1 ids) rows rows'" and "\<forall>r\<in>set rows. oe_outbox_id r \<in> ids \<longrightarrow> pending r"
  shows "work mx rows' + count_where (\<lambda>r. oe_outbox_id r \<in> ids) rows \<le> work mx rows"
  using assms
proof (induction rule: list_all2_induct)
  case (Cons r rows r' rows')
  then show ?case using handled_tries [OF Cons.hyps(1)] by (auto simp: work_def count_where_def split: if_splits)
qed (simp add: work_def count_where_def)

text \<open>What any number of rounds makes of a row.\<close>

definition retried :: "int \<Rightarrow> bool \<Rightarrow> 'j outbox_row \<Rightarrow> 'j outbox_row \<Rightarrow> bool" where
  "retried mx acc r r' \<longleftrightarrow> oe_outbox_id r' = oe_outbox_id r \<and> oe_payload r' = oe_payload r
     \<and> (acc \<and> pending r \<longrightarrow> oe_status r' \<noteq> outboxStatusFailed) \<and> (\<not> pending r \<longrightarrow> r' = r)
     \<and> (pending r \<and> oe_attempt_count r < mx \<longrightarrow>
          (pending r' \<longrightarrow> oe_attempt_count r' < mx) \<and> (oe_status r' = outboxStatusFailed \<longrightarrow> oe_attempt_count r' = mx))"

lemma retried_trans: "retried mx acc r r1 \<Longrightarrow> retried mx acc r1 r2 \<Longrightarrow> retried mx acc r r2"
  by (cases "pending r1") (auto simp: retried_def pending_def)

lemma handled_retried: "handled mx acc 1 ids r r' \<Longrightarrow> oe_outbox_id r \<in> ids \<longrightarrow> pending r \<Longrightarrow> retried mx acc r r'"
  by (auto simp: handled_def retried_def pending_def split: if_splits)

lemma handled_all_retried:
  assumes "list_all2 (handled mx acc 1 ids) rows rows'" and "\<forall>r\<in>set rows. oe_outbox_id r \<in> ids \<longrightarrow> pending r"
  shows "list_all2 (retried mx acc) rows rows'"
  using assms by (induction rule: list_all2_induct) (auto intro: handled_retried)

lemma rounds_settle:
  assumes "idle K db" and "0 < BatchSize (rl_cfg rl)" and "MaxAttempts (rl_cfg rl) \<le> i32_max"
    and "\<forall>evs\<in>set evss. calm_calls evs \<and> within_lease rl evs"
    and "rounds K rl evss p db = (all, p', db')"
  shows "idle K db' \<and> list_all2 (retried (MaxAttempts (rl_cfg rl)) (accepts (rl_publisher rl))) (outbox db) (outbox db')
    \<and> work (MaxAttempts (rl_cfg rl)) (outbox db') + sum_list (map Published all) + sum_list (map Failed all)
        \<le> work (MaxAttempts (rl_cfg rl)) (outbox db)
    \<and> (work (MaxAttempts (rl_cfg rl)) (outbox db) \<le> length evss \<longrightarrow> work (MaxAttempts (rl_cfg rl)) (outbox db') = 0)"
  using assms
proof (induction evss arbitrary: p db all p' db')
  case Nil
  then show ?case by (auto simp: retried_def pending_def intro: list.rel_refl)
next
  case (Cons evs evss)
  let ?mx = "MaxAttempts (rl_cfg rl)"
  obtain stats e p1 db1 where one: "RunOnce K rl (quiet evs) p db = (stats, e, p1, db1)" by (metis prod_cases4)
  obtain rest p2 db2 where more: "rounds K rl evss p1 db1 = (rest, p2, db2)" by (metis prod_cases3)
  have eqs: "all = stats # rest" "db2 = db'" using Cons.prems(5) one more by simp_all
  have calm: "calm_calls evs" "within_lease rl evs" using Cons.prems(4) by simp_all
  note q = quiet_round [OF Cons.prems(1) calm Cons.prems(2) disjI2 [OF Cons.prems(3)] one]
  from q obtain ids where h: "list_all2 (handled ?mx (accepts (rl_publisher rl)) 1 ids) (outbox db) (outbox db1)"
    "\<forall>r\<in>set (outbox db). oe_outbox_id r \<in> ids \<longrightarrow> pending r"
    "count_where (\<lambda>r. oe_outbox_id r \<in> ids) (outbox db) = Published stats + Failed stats"
    "Published stats + Failed stats = min (nat (BatchSize (rl_cfg rl))) (count_where pending (outbox db))" by blast
  have w: "work ?mx (outbox db1) + (Published stats + Failed stats) \<le> work ?mx (outbox db)"
    using handled_work [OF h(1,2)] h(3) by simp
  have "1 \<le> Published stats + Failed stats" if "work ?mx (outbox db) \<noteq> 0"
  proof -
    from that have "count_where pending (outbox db) \<noteq> 0" by (auto simp: work_0 count_where_0)
    with h(4) Cons.prems(2) show ?thesis by linarith
  qed
  with w have less: "work ?mx (outbox db1) \<le> work ?mx (outbox db) - 1" by (cases "work ?mx (outbox db) = 0") auto
  have calm': "\<forall>evs\<in>set evss. calm_calls evs \<and> within_lease rl evs" using Cons.prems(4) by simp
  have "idle K db1" using q by blast
  note ih = Cons.IH [OF this Cons.prems(2,3) calm' more]
  have "list_all2 (retried ?mx (accepts (rl_publisher rl))) (outbox db) (outbox db2)"
    by (rule list_all2_trans [OF _ handled_all_retried [OF h(1,2)]]) (use ih retried_trans in blast)+
  then show ?case using ih w less by (auto simp: eqs)
qed

text \<open>C11: The relay comes to rest. Whatever the publisher answers, accepting or refusing as it likes: when no
  call fails, every round stays within its lease and nobody else works on the outbox, then after as
  many rounds as the pending messages have attempts left (at least one each), every row is sent or
  failed. A message that had attempts left fails with exactly \<open>MaxAttempts\<close> of them, neither fewer nor
  more, rows that were sent or failed are left alone, and no more messages are published in all than
  there were attempts left.\<close>

theorem relay_settles:
  assumes "idle K db" and "0 < BatchSize (rl_cfg rl)" and "MaxAttempts (rl_cfg rl) \<le> i32_max"
    and "\<forall>evs\<in>set evss. calm_calls evs \<and> within_lease rl evs"
    and "work (MaxAttempts (rl_cfg rl)) (outbox db) \<le> length evss"
    and "rounds K rl evss p db = (all, p', db')"
  shows "(\<forall>r\<in>set (outbox db'). oe_status r = outboxStatusSent \<or> oe_status r = outboxStatusFailed)
    \<and> list_all2 (\<lambda>r r'. oe_outbox_id r' = oe_outbox_id r \<and> (\<not> pending r \<longrightarrow> r' = r)
         \<and> (pending r \<and> oe_attempt_count r < MaxAttempts (rl_cfg rl) \<and> oe_status r' = outboxStatusFailed
              \<longrightarrow> oe_attempt_count r' = MaxAttempts (rl_cfg rl))) (outbox db) (outbox db')
    \<and> sum_list (map Published all) + sum_list (map Failed all) \<le> work (MaxAttempts (rl_cfg rl)) (outbox db)"
proof -
  note s = rounds_settle [OF assms(1-4,6)]
  then have "\<forall>r\<in>set (outbox db'). \<not> pending r" using assms(5) work_0 by blast
  with s have "\<forall>r\<in>set (outbox db'). oe_status r = outboxStatusSent \<or> oe_status r = outboxStatusFailed"
    by (auto simp: idle_def)
  moreover have "list_all2 (retried (MaxAttempts (rl_cfg rl)) (accepts (rl_publisher rl))) (outbox db) (outbox db')" using s by blast
  ultimately show ?thesis using s by (auto simp: retried_def elim!: list_all2_mono)
qed

text \<open>A relay whose publisher refuses everything, with two attempts for each message.\<close>

definition refusing_relay :: "MemoryPublisher Relay" where
  "refusing_relay = sample_relay\<lparr>rl_cfg := (rl_cfg sample_relay)\<lparr>MaxAttempts := 2\<rparr>\<rparr>"

lemma relay_settles_witness:
  "\<exists>all p' db'. rounds doc_sdk refusing_relay (replicate 4 (\<lambda>_. calm_env ''1'' 20000)) \<lparr>mp_Events = [], mp_Fail = True\<rparr> two_rows
      = (all, p', db')
    \<and> (\<forall>r\<in>set (outbox db'). oe_status r = outboxStatusSent \<or> oe_status r = outboxStatusFailed)
    \<and> sum_list (map Published all) + sum_list (map Failed all) \<le> 4"
proof -
  let ?evss = "replicate 4 (\<lambda>_. calm_env ''1'' 20000)"
  obtain all p' db' where run: "rounds doc_sdk refusing_relay ?evss \<lparr>mp_Events = [], mp_Fail = True\<rparr> two_rows = (all, p', db')"
    by (metis prod_cases3)
  have cfg: "BatchSize (rl_cfg refusing_relay) = 1" "LeaseTTL (rl_cfg refusing_relay) = 180000000000"
    "MaxAttempts (rl_cfg refusing_relay) = 2"
    by (simp_all add: refusing_relay_def sample_relay_def)
  have "idle doc_sdk two_rows" by (simp add: idle_def pending_def i32_max_def)
  moreover have "\<forall>evs\<in>set ?evss. calm_calls evs \<and> within_lease refusing_relay evs"
    by (simp add: calm_calls_def within_lease_def cfg Milliseconds_def)
  moreover have "work 2 (outbox two_rows) = 4" by (simp add: work_def tries_left_def pending_def)
  ultimately have "(\<forall>r\<in>set (outbox db'). oe_status r = outboxStatusSent \<or> oe_status r = outboxStatusFailed)
    \<and> sum_list (map Published all) + sum_list (map Failed all) \<le> 4"
    using relay_settles [OF _ _ _ _ _ run] by (simp add: cfg i32_max_def)
  with run show ?thesis by (intro exI [of _ all] exI [of _ p'] exI [of _ db']) simp
qed

section \<open>Draining\<close>

text \<open>An outbox that no round is working on and whose messages are all sent or can be.\<close>

definition settled :: "'j sdk \<Rightarrow> 'j db \<Rightarrow> bool" where
  "settled K db \<longleftrightarrow> distinct (map oe_outbox_id (outbox db))
     \<and> (\<forall>r\<in>set (outbox db). oe_status r = outboxStatusSent
          \<or> pending r \<and> unmarshal_outbox K (oe_payload r) \<noteq> None \<and> oe_attempt_count r < i32_max)"

lemma settled_idle: "settled K db \<longleftrightarrow> idle K db \<and> (\<forall>r\<in>set (outbox db). oe_status r \<noteq> outboxStatusFailed)"
  by (auto simp: settled_def idle_def pending_def)

lemma handled_sent:
  assumes "list_all2 (handled mx True k ids) rows rows'" and "\<forall>r\<in>set rows. oe_status r \<noteq> outboxStatusFailed"
  shows "\<forall>r\<in>set rows'. oe_status r \<noteq> outboxStatusFailed"
  using assms by (induction rule: list_all2_induct) (auto simp: handled_def split: if_splits)

lemma count_handled:
  assumes "list_all2 (handled mx True k ids) rows rows'" and "\<forall>r\<in>set rows. oe_outbox_id r \<in> ids \<longrightarrow> pending r"
  shows "count_where pending rows' + count_where (\<lambda>r. oe_outbox_id r \<in> ids) rows = count_where pending rows"
  using assms
proof (induction rule: list_all2_induct)
  case (Cons r rows r' rows')
  then show ?case by (cases "oe_outbox_id r \<in> ids") (auto simp: count_where_def handled_def pending_def)
qed (simp add: count_where_def)

lemma rounds_sent:
  assumes "settled K db" and "accepts (rl_publisher rl)" and "0 < BatchSize (rl_cfg rl)"
    and "\<forall>evs\<in>set evss. calm_calls evs \<and> within_lease rl evs"
    and "count_where pending (outbox db) \<le> length evss * nat (BatchSize (rl_cfg rl))"
    and "rounds K rl evss p db = (all, p', db')"
  shows "(\<forall>r\<in>set (outbox db'). oe_status r = outboxStatusSent)
    \<and> map oe_outbox_id (outbox db') = map oe_outbox_id (outbox db)
    \<and> sum_list (map Published all) = count_where pending (outbox db)"
  using assms
proof (induction evss arbitrary: p db all p' db')
  case Nil
  then have "\<forall>r\<in>set (outbox db). \<not> pending r" by (simp add: count_where_0)
  with Nil show ?case by (auto simp: settled_def)
next
  case (Cons evs evss)
  obtain stats e p1 db1 where one: "RunOnce K rl (quiet evs) p db = (stats, e, p1, db1)" by (metis prod_cases4)
  obtain rest p2 db2 where more: "rounds K rl evss p1 db1 = (rest, p2, db2)" by (metis prod_cases3)
  have eqs: "all = stats # rest" "p2 = p'" "db2 = db'" using Cons.prems(6) one more by simp_all
  have calm: "calm_calls evs" "within_lease rl evs" using Cons.prems(4) by simp_all
  have idle: "idle K db" "\<forall>r\<in>set (outbox db). oe_status r \<noteq> outboxStatusFailed"
    using Cons.prems(1) by (simp_all add: settled_idle)
  note q = quiet_round [OF idle(1) calm Cons.prems(3) disjI1 [OF Cons.prems(2)] one]
  from q Cons.prems(2) obtain ids where h: "list_all2 (handled (MaxAttempts (rl_cfg rl)) True 1 ids) (outbox db) (outbox db1)"
    "\<forall>r\<in>set (outbox db). oe_outbox_id r \<in> ids \<longrightarrow> pending r" "Failed stats = 0"
    "count_where (\<lambda>r. oe_outbox_id r \<in> ids) (outbox db) = Published stats"
    "Published stats = min (nat (BatchSize (rl_cfg rl))) (count_where pending (outbox db))" by auto
  note left = count_handled [OF h(1,2)]
  have fit: "count_where pending (outbox db1) \<le> length evss * nat (BatchSize (rl_cfg rl))"
    using left h(4,5) Cons.prems(5) by (simp add: min_def split: if_splits)
  have calm': "\<forall>evs\<in>set evss. calm_calls evs \<and> within_lease rl evs" using Cons.prems(4) by simp
  have st: "settled K db1" using q handled_sent [OF h(1) idle(2)] by (simp add: settled_idle)
  from Cons.IH [OF st Cons.prems(2,3) calm' fit more] left h(4) handled_ids [OF h(1)] show ?case by (auto simp: eqs)
qed

text \<open>C18: The relay drains the outbox. When no call fails, the publisher accepts, every round stays within
  its lease and nobody else works on the outbox, then as many rounds as the pending messages fill
  batches send them all: afterwards every row is sent, and the counts of published messages add up
  to the number that was pending.\<close>

theorem relay_drains:
  assumes "settled K db" and "accepts (rl_publisher rl)" and "0 < BatchSize (rl_cfg rl)"
    and "\<forall>evs\<in>set evss. calm_calls evs \<and> within_lease rl evs"
    and "count_where pending (outbox db) \<le> length evss * nat (BatchSize (rl_cfg rl))"
    and "rounds K rl evss p db = (all, p', db')"
  shows "(\<forall>r\<in>set (outbox db'). oe_status r = outboxStatusSent)
    \<and> map oe_outbox_id (outbox db') = map oe_outbox_id (outbox db)
    \<and> sum_list (map Published all) = count_where pending (outbox db)"
  by (rule rounds_sent [OF assms])

definition drain_relay :: "unit LeaseAwarePublisher Relay" where
  "drain_relay = \<lparr>rl_publisher = LeaseAwarePublisher_Publish None, rl_cfg = rl_cfg sample_relay, rl_workerID = ''w1''\<rparr>"

lemma relay_drains_witness:
  "\<exists>all p' db'. rounds doc_sdk drain_relay [\<lambda>_. calm_env ''1'' 20000, \<lambda>_. calm_env ''2'' 30000]
      \<lparr>la_Events = [], la_World = ()\<rparr> two_rows = (all, p', db')
    \<and> (\<forall>r\<in>set (outbox db'). oe_status r = outboxStatusSent) \<and> sum_list (map Published all) = 2"
proof -
  let ?evss = "[\<lambda>_. calm_env ''1'' 20000, \<lambda>_. calm_env ''2'' 30000]"
  obtain all p' db' where run: "rounds doc_sdk drain_relay ?evss \<lparr>la_Events = [], la_World = ()\<rparr> two_rows = (all, p', db')"
    by (metis prod_cases3)
  have "settled doc_sdk two_rows" by (simp add: settled_def pending_def i32_max_def)
  moreover have "accepts (rl_publisher drain_relay)"
    by (simp add: drain_relay_def accepts_def LeaseAwarePublisher_Publish_def)
  moreover have cfg: "BatchSize (rl_cfg drain_relay) = 1" "LeaseTTL (rl_cfg drain_relay) = 180000000000"
    by (simp_all add: drain_relay_def sample_relay_def)
  moreover have "\<forall>evs\<in>set ?evss. calm_calls evs \<and> within_lease drain_relay evs"
    by (simp add: calm_calls_def within_lease_def cfg Milliseconds_def)
  moreover have two: "count_where pending (outbox two_rows) = 2" by (simp add: count_where_def pending_def)
  ultimately have "(\<forall>r\<in>set (outbox db'). oe_status r = outboxStatusSent) \<and> sum_list (map Published all) = 2"
    using relay_drains [OF _ _ _ _ _ run] by simp
  with run show ?thesis by (intro exI [of _ all] exI [of _ p'] exI [of _ db']) simp
qed

section \<open>Messages that never get through\<close>

text \<open>C38: One undecodable message stops the relay. When the strictly oldest claimable row holds a payload that
  does not decode and nobody has locked it or acts before the claim, a round of any worker, with no failing
  call, publishes nothing, fails with the decoding error and leaves the table as it was: the next round
  meets the same row.\<close>

theorem poison_payload_blocks:
  assumes "r \<in> set (outbox db)" and "claimable (db_now (su_env su 0)) r" and "unmarshal_outbox K (oe_payload r) = None"
    and "\<not> su_locked su (oe_outbox_id r)"
    and "\<forall>s\<in>set (outbox db). claimable (db_now (su_env su 0)) s \<and> s \<noteq> r \<longrightarrow> oe_created_at r < oe_created_at s"
    and "0 < BatchSize (rl_cfg rl)" and "\<forall>c. fault (su_env su 0) c = None" and "su_others su 0 (p, db) = (p, db)"
  shows "RunOnce K rl su p db =
    (\<lparr>Published = 0, Failed = 0, LeaseLost = 0\<rparr>, Some (Wrap ''memory/postgres: relay decode payload: '' JsonErr), p, db)"
proof -
  let ?l = "filter (\<lambda>r. \<not> su_locked su (oe_outbox_id r))
      (order_by (su_env su 0) oe_outbox_id oe_created_at (filter (claimable (db_now (su_env su 0))) (outbox db)))"
  have r: "r \<in> set ?l" using assms(1,2,4) by simp
  then obtain x xs where l: "?l = x # xs" by (cases ?l) auto
  have "sorted_wrt (\<lambda>r s. oe_created_at r \<le> oe_created_at s) ?l" by (simp add: sorted_wrt_filter order_by_sorted)
  then have "oe_created_at x \<le> oe_created_at r" using r unfolding l by auto
  moreover have "x \<in> set ?l" unfolding l by simp
  ultimately have "x = r" using assms(5) by force
  then have "r \<in> set (take (nat (BatchSize (rl_cfg rl))) ?l)"
    using assms(6) unfolding l by (cases "nat (BatchSize (rl_cfg rl))") auto
  then have "decode_claims K (su_env su 0) (take (nat (BatchSize (rl_cfg rl))) ?l)
      = Inl (Wrap ''memory/postgres: relay decode payload: '' JsonErr)"
    using assms(3,7) by (intro decode_claims_bad) blast+
  then have "claimTx K rl (su_env su 0) (su_locked su) db = Inl (Wrap ''memory/postgres: relay decode payload: '' JsonErr)"
    using assms(6,7) by (simp add: claimTx_def exec_calm select_claimable_def)
  then show ?thesis using assms(7,8) by (simp add: RunOnce_def ClaimBatch_def run_tx_def)
qed

lemma poison_payload_blocks_witness:
  "let bad = (sample_outbox_row ''z'' 1000)\<lparr>oe_payload := DocEvent \<lparr>se_Version = 1, se_TenantID = ''ta'', se_MemoryID = ''m1'', se_EventType = ''x'',
       se_IdempotencyKey = [], se_Record = sample_record, se_Metadata = []\<rparr>\<rparr> in
   snd (snd (snd (RunOnce doc_sdk sample_relay (quiet (\<lambda>_. calm_env ''1'' 20000)) \<lparr>mp_Events = [], mp_Fail = False\<rparr>
     (two_rows\<lparr>outbox := bad # outbox two_rows\<rparr>)))) = two_rows\<lparr>outbox := bad # outbox two_rows\<rparr>"
proof -
  let ?bad = "(sample_outbox_row ''z'' 1000)\<lparr>oe_payload := DocEvent \<lparr>se_Version = 1, se_TenantID = ''ta'', se_MemoryID = ''m1'', se_EventType = ''x'',
       se_IdempotencyKey = [], se_Record = sample_record, se_Metadata = []\<rparr>\<rparr>"
  let ?db = "two_rows\<lparr>outbox := ?bad # outbox two_rows\<rparr>"
  have "RunOnce doc_sdk sample_relay (quiet (\<lambda>_. calm_env ''1'' 20000)) \<lparr>mp_Events = [], mp_Fail = False\<rparr> ?db =
    (\<lparr>Published = 0, Failed = 0, LeaseLost = 0\<rparr>, Some (Wrap ''memory/postgres: relay decode payload: '' JsonErr),
      \<lparr>mp_Events = [], mp_Fail = False\<rparr>, ?db)"
    by (rule poison_payload_blocks [where r = ?bad])
      (simp_all add: claimable_def doc_sdk_def sample_relay_def pg_time_def)
  then show ?thesis by (simp add: Let_def)
qed

text \<open>C34: A lease shorter than a millisecond is no lease. The TTL is passed in whole milliseconds, so below
  one the lease ends at the claim's own instant and every acknowledgement, however quick, is
  \<open>ErrLeaseLost\<close>: no message is ever marked sent.\<close>

theorem short_lease_never_acked:
  assumes "distinct (map oe_outbox_id (outbox db))" and "LeaseTTL (rl_cfg rl) < 1000000" and "0 < LeaseTTL (rl_cfg rl)"
    and "ClaimBatch K rl ev locked db = (Inr ms, db')" and "m \<in> set ms"
    and "db_now ev \<le> db_now ev'" and "fault ev' CAck = None" and "commit ev' = Committed"
  shows "Ack et rl ev' (cm_OutboxID m) ok (cm_AttemptCount m) pe db' = (Inl ErrLeaseLost, db')"
proof -
  from assms(4) obtain l where tx: "claimTx K rl ev locked db = Inr (l, ms, db')" by (auto simp: ClaimBatch_Inr)
  note c = claimTx_Inr [OF tx]
  have "map cm_OutboxID ms = map oe_outbox_id (to_claim ev locked rl db)" using c by blast
  then have "cm_OutboxID ` set ms = oe_outbox_id ` set (to_claim ev locked rl db)" by (metis list.set_map)
  then have hit: "cm_OutboxID m \<in> oe_outbox_id ` set (to_claim ev locked rl db)" using assms(5) by blast
  have "\<not> owned (cm_OutboxID m) (rl_workerID rl) (db_now ev') r'" if "r' \<in> set (outbox db')" for r'
  proof -
    from c have "set (outbox db') = (\<lambda>r. if oe_outbox_id r \<in> oe_outbox_id ` set (to_claim ev locked rl db)
        then claimed_row (rl_workerID rl) (db_now ev) (Milliseconds (LeaseTTL (rl_cfg rl))) r else r) ` set (outbox db)"
      by (simp add: set_update_where)
    with that obtain r where "r' = (if oe_outbox_id r \<in> oe_outbox_id ` set (to_claim ev locked rl db)
        then claimed_row (rl_workerID rl) (db_now ev) (Milliseconds (LeaseTTL (rl_cfg rl))) r else r)"
      by blast
    then show ?thesis using hit assms(2,3,6) by (auto simp: owned_def claimed_row_def Milliseconds_def)
  qed
  then show ?thesis using Ack_calm [OF assms(7,8), of et rl "cm_OutboxID m" ok "cm_AttemptCount m" pe db'] by auto
qed

lemma short_lease_never_acked_witness:
  "\<exists>ms db'. ClaimBatch doc_sdk (sample_relay\<lparr>rl_cfg := (rl_cfg sample_relay)\<lparr>LeaseTTL := 500000\<rparr>\<rparr>) (calm_env ''1'' 20000)
       (\<lambda>_. False) two_rows = (Inr ms, db')
     \<and> ms \<noteq> [] \<and> Ack (\<lambda>_. []) (sample_relay\<lparr>rl_cfg := (rl_cfg sample_relay)\<lparr>LeaseTTL := 500000\<rparr>\<rparr>) (calm_env ''2'' 20000)
       (cm_OutboxID (hd ms)) True (cm_AttemptCount (hd ms)) None db' = (Inl ErrLeaseLost, db')"
proof -
  let ?rl = "sample_relay\<lparr>rl_cfg := (rl_cfg sample_relay)\<lparr>LeaseTTL := 500000\<rparr>\<rparr>"
  have "\<exists>db'. ClaimBatch doc_sdk ?rl (calm_env ''1'' 20000) (\<lambda>_. False) two_rows
     = (Inr [\<lparr>cm_OutboxID = ''a'', cm_Payload = sample_message ''a'', cm_AttemptCount = 1\<rparr>], db')"
    by (simp add: ClaimBatch_def claimTx_def select_claimable_def claimable_def sample_relay_def pg_time_def exec_calm
        run_tx_def update_claimed_def i32_max_def decodeJSON_def claim_defs)
  then obtain db' where run: "ClaimBatch doc_sdk ?rl (calm_env ''1'' 20000) (\<lambda>_. False) two_rows
     = (Inr [\<lparr>cm_OutboxID = ''a'', cm_Payload = sample_message ''a'', cm_AttemptCount = 1\<rparr>], db')" by blast
  have d: "distinct (map oe_outbox_id (outbox two_rows))" by simp
  from short_lease_never_acked [OF d _ _ run, of _ "calm_env ''2'' 20000" "\<lambda>_. []" True None] run
  show ?thesis
    by (intro exI [of _ "[\<lparr>cm_OutboxID = ''a'', cm_Payload = sample_message ''a'', cm_AttemptCount = 1\<rparr>]"]
        exI [of _ db'] conjI) (simp_all add: sample_relay_def)
qed

text \<open>Claims whose worker dies before it acknowledges anything.\<close>

fun crash_rounds :: "'j sdk \<Rightarrow> 'p Relay \<Rightarrow> env list \<Rightarrow> 'j db \<Rightarrow> 'j db" where
  "crash_rounds K rl [] db = db"
| "crash_rounds K rl (ev # evs) db = crash_rounds K rl evs (snd (ClaimBatch K rl ev (\<lambda>_. False) db))"

lemma crash_rounds_snoc:
  "crash_rounds K rl (evs @ [ev]) db = snd (ClaimBatch K rl ev (\<lambda>_. False) (crash_rounds K rl evs db))"
  by (induction evs arbitrary: db) simp_all

lemma claim_one:
  assumes "outbox db = [r]" and "claimable (db_now ev) r" and "unmarshal_outbox K (oe_payload r) \<noteq> None"
    and "oe_attempt_count r < i32_max" and "0 < BatchSize (rl_cfg rl)" and "\<forall>c. fault ev c = None" and "commit ev = Committed"
  shows "outbox (snd (ClaimBatch K rl ev (\<lambda>_. False) db))
    = [claimed_row (rl_workerID rl) (db_now ev) (Milliseconds (LeaseTTL (rl_cfg rl))) r]"
proof -
  obtain n where n: "nat (BatchSize (rl_cfg rl)) = Suc n" using assms(5) by (cases "nat (BatchSize (rl_cfg rl))") auto
  show ?thesis
    using assms by (auto simp: ClaimBatch_def run_tx_def claimTx_def claim_defs select_claimable_def n decodeJSON_def
        update_claimed_def update_where_def)
qed

lemma crash_claims:
  assumes "outbox db = [r]" and "oe_status r = outboxStatusPending" and "oe_attempt_count r = 0"
    and "unmarshal_outbox K (oe_payload r) \<noteq> None" and "0 < BatchSize (rl_cfg rl)" and "int n \<le> i32_max"
  shows "\<exists>evs r'. length evs = n \<and> outbox (crash_rounds K rl evs db) = [r'] \<and> oe_outbox_id r' = oe_outbox_id r
    \<and> oe_payload r' = oe_payload r \<and> oe_attempt_count r' = int n \<and> (\<exists>t. claimable t r')
    \<and> (0 < n \<longrightarrow> oe_status r' = outboxStatusProcessing)"
  using assms(6)
proof (induction n)
  case 0
  with assms(1-3) show ?case by (intro exI [of _ "[]"] exI [of _ r]) (simp add: claimable_def)
next
  case (Suc n)
  then obtain evs r' t where ih: "length evs = n" "outbox (crash_rounds K rl evs db) = [r']"
    "oe_outbox_id r' = oe_outbox_id r" "oe_payload r' = oe_payload r" "oe_attempt_count r' = int n" "claimable t r'" by auto
  let ?ev = "(calm_env [] 0)\<lparr>db_now := t\<rparr>"
  let ?r = "claimed_row (rl_workerID rl) t (Milliseconds (LeaseTTL (rl_cfg rl))) r'"
  have "outbox (snd (ClaimBatch K rl ?ev (\<lambda>_. False) (crash_rounds K rl evs db))) = [?r]"
    using claim_one [OF ih(2), of ?ev K rl] ih(4,5,6) assms(4,5) Suc.prems by simp
  moreover have "claimable (t + Milliseconds (LeaseTTL (rl_cfg rl)) * 1000000 + 1) ?r"
    by (simp add: claimable_def claimed_row_def)
  ultimately show ?case
    using ih by (intro exI [of _ "evs @ [?ev]"] exI [of _ ?r]) (auto simp: crash_rounds_snoc claimed_row_def)
qed

text \<open>The attempt limit does not bound the attempts. The limit is only consulted by an acknowledgement of
  a failed publish; a message whose workers die before acknowledging is claimed again each time
  its lease runs out, and after any number of claims its row says that many attempts and is still
  processing, never failed, whatever \<open>MaxAttempts\<close> is.\<close>

theorem attempts_pass_the_limit:
  assumes "outbox db = [r]" and "oe_status r = outboxStatusPending" and "oe_attempt_count r = 0"
    and "unmarshal_outbox K (oe_payload r) \<noteq> None" and "0 < BatchSize (rl_cfg rl)" and "0 < n" and "int n \<le> i32_max"
  shows "\<exists>evs r'. length evs = n \<and> outbox (crash_rounds K rl evs db) = [r'] \<and> oe_outbox_id r' = oe_outbox_id r
    \<and> oe_attempt_count r' = int n \<and> oe_status r' = outboxStatusProcessing"
  using crash_claims [OF assms(1-5,7)] assms(6) by blast

lemma attempts_pass_the_limit_witness:
  "\<exists>evs r'. outbox (crash_rounds doc_sdk sample_relay evs (empty_db\<lparr>outbox := [sample_outbox_row ''a'' 5000]\<rparr>)) = [r']
     \<and> MaxAttempts (rl_cfg sample_relay) < oe_attempt_count r' \<and> oe_status r' = outboxStatusProcessing"
proof -
  let ?db = "empty_db\<lparr>outbox := [sample_outbox_row ''a'' 5000]\<rparr>"
  have "\<exists>evs r'. length evs = (9::nat) \<and> outbox (crash_rounds doc_sdk sample_relay evs ?db) = [r']
    \<and> oe_outbox_id r' = oe_outbox_id (sample_outbox_row ''a'' 5000)
    \<and> oe_attempt_count r' = int 9 \<and> oe_status r' = outboxStatusProcessing"
    by (rule attempts_pass_the_limit) (simp_all add: sample_relay_def i32_max_def)
  then obtain evs r' where "outbox (crash_rounds doc_sdk sample_relay evs ?db) = [r']" "oe_attempt_count r' = 9"
    "oe_status r' = outboxStatusProcessing" by auto
  moreover have "MaxAttempts (rl_cfg sample_relay) = 5" by (simp add: sample_relay_def)
  ultimately show ?thesis by (intro exI [of _ evs] exI [of _ r']) simp
qed

end
