(* ===== verification/Composition.thy ===== *)
theory Composition
  imports RelayDrain HistoryProps
begin

text \<open>
  Properties of the store and the relay together: a committed write is replayed to its retries
  whatever happened in between, and the message of a committed write or mutation ends up delivered, or
  failed where the operator sees it.
\<close>

section \<open>Idempotency entries over time\<close>

lemma select_append:
  "select_idempotency t k rows = Inr row \<Longrightarrow> select_idempotency t k (rows @ new) = Inr row"
  by (auto simp: select_idempotency_def find_append split: option.splits)

lemma select_upsert_other:
  assumes "idem_key i \<noteq> (t, k)"
  shows "select_idempotency t k (upsert_idempotency i rows) = select_idempotency t k rows"
proof (cases "idem_key i \<in> set (map idem_key rows)")
  case True
  let ?f = "\<lambda>r. r\<lparr>mi_request_hash := mi_request_hash i, mi_memory_id := mi_memory_id i,
                    mi_response_snapshot := mi_response_snapshot i, mi_created_at := mi_created_at i,
                    mi_expires_at := mi_expires_at i\<rparr>"
  have "find (\<lambda>r. idem_key r = (t, k)) (update_where (\<lambda>r. idem_key r = idem_key i) ?f rows)
      = map_option (\<lambda>r. if idem_key r = idem_key i then ?f r else r) (find (\<lambda>r. idem_key r = (t, k)) rows)"
    by (rule find_update_where) (simp add: idem_key_def)
  also have "\<dots> = find (\<lambda>r. idem_key r = (t, k)) rows"
    using assms by (cases "find (\<lambda>r. idem_key r = (t, k)) rows") (auto dest!: find_SomeD)
  finally show ?thesis using True by (simp add: upsert_idempotency_def select_idempotency_def)
next
  case False
  with assms show ?thesis by (simp add: upsert_idempotency_def select_idempotency_def find_append split: option.split)
qed

lemma entry_stays:
  assumes "commit_step K ev a db db'" and "a \<noteq> Saver (t, k)" and "select_idempotency t k (idems db) = Inr row"
  shows "select_idempotency t k (idems db') = Inr row"
  using assms(1)
proof cases
  case (wrote inp l r)
  from wrote(2) show ?thesis
    by (cases rule: write_fresh_Inr) (simp add: select_append [OF assms(3)])
next
  case (mutate q cur rec)
  from mutation.loaded_moves [OF mutation_of_contract refl mutation_of_event mutate(2,3)] assms(3) show ?thesis by simp
next
  case (promote inp cur l r)
  let ?rec = "promoted_record K ev inp cur"
  from promote(2) obtain recs db1 where s: "emit K ev promote_site None (event_of eventTypeMemoryPromoted ?rec) (db\<lparr>records := recs\<rparr>) = Inr db1"
    "promote_save K ev inp ?rec db1 = Inr db'" by (rule promote_loaded_Inr)
  have "idems db1 = idems db" using emit_frame [OF s(1)] by simp
  with promote_save_Inr [OF s(2)] select_append [OF assms(3)] assms(3) show ?thesis by (auto split: if_splits)
next
  case (collapse inp cur rec db1 winner)
  from collapse_moves [OF collapse(2,3,4)] assms(3) show ?thesis by simp
next
  case (save e raw)
  have "idem_key (saved_row e raw) = (ie_TenantID e, ie_IdempotencyKey e)" by (simp add: idem_key_def saved_row_def)
  with save select_upsert_other [of "saved_row e raw" t k] assms(2,3) show ?thesis by simp
next
  case (claim rl locked l ms)
  from claimTx_Inr [OF claim(2)] assms(3) show ?thesis by simp
qed (use assms(3) in simp_all)

lemma entry_kept:
  "later_where K P db db' \<Longrightarrow> (\<And>ev a. P ev a \<Longrightarrow> a \<noteq> Saver (t, k))
    \<Longrightarrow> select_idempotency t k (idems db) = Inr row \<Longrightarrow> select_idempotency t k (idems db') = Inr row"
  by (induction rule: later_where.induct) (auto intro: entry_stays)

text \<open>What a committed first write leaves under its key.\<close>

lemma written_entry:
  assumes "write_fresh K ev inp db = Inr (l, r, db')" and "sdk_ok K"
  shows "\<exists>row snap. select_idempotency (wi_TenantID inp) (wi_IdempotencyKey inp) (idems db') = Inr row
    \<and> mi_request_hash row = wi_RequestHash inp \<and> unmarshal_entry K (mi_response_snapshot row) = Some snap \<and> ie_Response snap = r"
proof -
  from assms(1) obtain raw where
    w: "marshal_entry K (write_entry ev inp (stamp_record ev inp)) = Some raw"
      "(wi_TenantID inp, wi_IdempotencyKey inp) \<notin> set (map idem_key (idems db))"
      "idems db' = idems db @ [write_idem_row ev inp raw]" "r = write_result (stamp_record ev inp)"
    by (rule write_fresh_Inr) auto
  have "select_idempotency (wi_TenantID inp) (wi_IdempotencyKey inp) (idems db') = Inr (write_idem_row ev inp raw)"
    using find_no_key [OF w(2)] by (simp add: w(3) select_idempotency_def find_append idem_key_def write_idem_row_def)
  moreover have "unmarshal_entry K raw = Some (write_entry ev inp (stamp_record ev inp))"
    using assms(2) w(1) by (simp add: sdk_ok_def)
  ultimately show ?thesis using w(4) by (simp add: write_idem_row_def write_entry_def)
qed

lemma replay_of_row:
  assumes "valid_write inp" and "select_idempotency (wi_TenantID inp) (wi_IdempotencyKey inp) (idems db) = Inr row"
    and "unmarshal_entry K (mi_response_snapshot row) = Some snap"
  shows "snd (WriteRecord K ev inp db) = db
    \<and> (fault ev CBegin = None \<and> fault ev CLookup = None \<and> commit ev = Committed \<longrightarrow>
        fst (WriteRecord K ev inp db)
          = (if mi_request_hash row = wi_RequestHash inp then Inr (ie_Response snap) else Inl ErrIdempotencyConflict))"
  using assms
  by (auto simp: WriteRecord_valid run_tx_def writeTx_def lookupIdempotentWrite_def driver_def decodeJSON_def isNoRows_def
      mapErr_def bindE_def split: option.split commit_outcome.split sum.split)

text \<open>C2: A write is made once, for good. Once the transaction of a first write has committed, even if its
  answer was lost, any steps of any clients and workers may follow, as long as nobody overwrites the
  entry through \<open>SaveIdempotency\<close>: every later call with the same tenant and key changes nothing, and
  when its queries do not fail it answers with the first result if it asks for the same request and with
  \<open>ErrIdempotencyConflict\<close> if not. In particular two clients that race or retry for ever write one
  record.\<close>

theorem write_replayed_forever:
  assumes "sdk_ok K" and "write_fresh K ev inp db = Inr (l, r, db1)"
    and "later_where K (\<lambda>_ a. a \<noteq> Saver (wi_TenantID inp, wi_IdempotencyKey inp)) db1 db2"
    and "valid_write inp'" and "wi_TenantID inp' = wi_TenantID inp" and "wi_IdempotencyKey inp' = wi_IdempotencyKey inp"
  shows "snd (WriteRecord K ev' inp' db2) = db2
    \<and> (fault ev' CBegin = None \<and> fault ev' CLookup = None \<and> commit ev' = Committed \<longrightarrow>
        fst (WriteRecord K ev' inp' db2)
          = (if wi_RequestHash inp' = wi_RequestHash inp then Inr r else Inl ErrIdempotencyConflict))"
proof -
  from written_entry [OF assms(2,1)] obtain row snap where
    e: "select_idempotency (wi_TenantID inp) (wi_IdempotencyKey inp) (idems db1) = Inr row"
      "mi_request_hash row = wi_RequestHash inp" "unmarshal_entry K (mi_response_snapshot row) = Some snap" "ie_Response snap = r"
    by blast
  have "select_idempotency (wi_TenantID inp') (wi_IdempotencyKey inp') (idems db2) = Inr row"
    using entry_kept [OF assms(3) _ e(1)] assms(5,6) by simp
  from replay_of_row [OF assms(4) this e(3), of ev'] show ?thesis unfolding e(2,4) by (simp add: eq_commute)
qed

lemma write_replayed_forever_witness:
  "\<exists>l r db1 db2. write_fresh doc_sdk (calm_env ''1'' 5) sample_write empty_db = Inr (l, r, db1)
    \<and> run_mutation doc_sdk (calm_env ''2'' 9000) sample_patch db1 = db2
    \<and> WriteRecord doc_sdk (calm_env ''3'' 9999) sample_write (snd db2) = (Inr r, snd db2)"
proof -
  obtain l r where w: "write_fresh doc_sdk (calm_env ''1'' 5) sample_write empty_db = Inr (l, r, sample_db)"
    by (simp add: sample_db_def write_eval sample_defs)
  let ?db2 = "snd (run_mutation doc_sdk (calm_env ''2'' 9000) sample_patch sample_db)"
  have "later_where doc_sdk (\<lambda>_ a. a \<noteq> Saver (wi_TenantID sample_write, wi_IdempotencyKey sample_write)) sample_db ?db2"
  proof (rule disjE [OF mutation_step [of sample_db doc_sdk "calm_env ''2'' 9000" sample_patch]])
    show "\<forall>w\<in>set (records sample_db). row_ok w" by (rule reachable_rows [OF sample_reach])
  qed (auto intro: later_where.intros)
  from write_replayed_forever [OF doc_sdk_ok w this, of sample_write "calm_env ''3'' 9999"]
  have "WriteRecord doc_sdk (calm_env ''3'' 9999) sample_write ?db2 = (Inr r, ?db2)"
    by (simp add: valid_write_def sample_write_def prod_eq_iff)
  with w show ?thesis by (intro exI [of _ l] exI [of _ r] exI [of _ sample_db]) simp
qed

text \<open>C31: A promotion is made once, for good. Once a promotion with a key has been made, any steps of any
  clients and workers may follow, as long as nobody overwrites the entry through
  \<open>SaveIdempotency\<close>: every later promotion with the same tenant and key changes nothing, and when
  its queries do not fail it answers with the record as it was promoted, marked as not created now, if it
  has the same synthetic hash, and with \<open>ErrIdempotencyConflict\<close> if not.\<close>

theorem promote_replayed_forever:
  assumes "sdk_ok K" and "promote_loaded K ev inp cur db = Inr (l, r, db1)" and "pr_IdempotencyKey inp \<noteq> []"
    and "later_where K (\<lambda>_ a. a \<noteq> Saver (pr_TenantID inp, pr_IdempotencyKey inp)) db1 db2"
    and "pr_TenantID inp' = pr_TenantID inp" and "pr_IdempotencyKey inp' = pr_IdempotencyKey inp"
    and "pr_TenantID inp \<noteq> []" and "pr_MemoryID inp' \<noteq> []"
  shows "snd (Promote K ev' inp' db2) = db2
    \<and> (fault ev' CBegin = None \<and> fault ev' CLookup = None \<and> commit ev' = Committed \<longrightarrow>
        fst (Promote K ev' inp' db2)
          = (if promote_hash inp' = promote_hash inp then Inr (r\<lparr>rr_Created := False\<rparr>) else Inl ErrIdempotencyConflict))"
proof -
  from promoted_entry [OF assms(2,1,3)] obtain row snap where
    e: "select_idempotency (pr_TenantID inp) (pr_IdempotencyKey inp) (idems db1) = Inr row"
      "mi_request_hash row = promote_hash inp" "unmarshal_entry K (mi_response_snapshot row) = Some snap"
      "promote_result False (ie_Response snap) = r\<lparr>rr_Created := False\<rparr>" by blast
  have "select_idempotency (pr_TenantID inp') (pr_IdempotencyKey inp') (idems db2) = Inr row"
    using entry_kept [OF assms(4) _ e(1)] assms(5,6) by simp
  from promote_of_row [OF this e(3), of ev'] show ?thesis using assms(3,5-8) unfolding e(2,4) by (simp add: eq_commute)
qed

lemma promote_replayed_forever_witness:
  "\<exists>r db1 db2. Promote doc_sdk (calm_env ''2'' 9000) sample_promote sample_db = (Inr r, db1)
     \<and> snd (MarkAccess (calm_env ''3'' 9500) \<lparr>ma_TenantID = ''ta'', ma_MemoryIDs = [rr_MemoryID r], ma_AccessedAt = 9500\<rparr> db1) = db2
     \<and> Promote doc_sdk (calm_env ''4'' 9900) sample_promote db2 = (Inr (r\<lparr>rr_Created := False\<rparr>), db2)"
proof -
  obtain r db1 where run: "Promote doc_sdk (calm_env ''2'' 9000) sample_promote sample_db = (Inr r, db1)" "rr_Created r"
    and "\<exists>l. promoteTx doc_sdk (calm_env ''2'' 9000) sample_promote sample_db = Inr (l, r, db1)"
    by (rule sample_promote_commits)
  then obtain l cur where p: "promote_loaded doc_sdk (calm_env ''2'' 9000) sample_promote cur sample_db = Inr (l, r, db1)"
    using promote_created by blast
  let ?mark = "\<lparr>ma_TenantID = ''ta'', ma_MemoryIDs = [rr_MemoryID r], ma_AccessedAt = 9500\<rparr>"
  let ?db2 = "snd (MarkAccess (calm_env ''3'' 9500) ?mark db1)"
  have "later_where doc_sdk (\<lambda>_ a. a \<noteq> Saver (pr_TenantID sample_promote, pr_IdempotencyKey sample_promote)) db1 ?db2"
    by (rule disjE [OF MarkAccess_step [of "calm_env ''3'' 9500" ?mark db1 doc_sdk]]) (auto intro: later_where.intros)
  from promote_replayed_forever [OF doc_sdk_ok p _ this, of sample_promote "calm_env ''4'' 9900"]
  have "Promote doc_sdk (calm_env ''4'' 9900) sample_promote ?db2 = (Inr (r\<lparr>rr_Created := False\<rparr>), ?db2)"
    by (simp add: sample_promote_def prod_eq_iff)
  with run(1) show ?thesis by (intro exI [of _ r] exI [of _ db1] exI [of _ ?db2]) simp
qed

section \<open>From a commit to the publisher\<close>

lemma rounds_deliver:
  assumes "publisher (rl_publisher rl) delivered" and "0 < BatchSize (rl_cfg rl)" and "MaxAttempts (rl_cfg rl) \<le> i32_max"
    and "\<forall>evs\<in>set evss. calm_calls evs \<and> within_lease rl evs"
    and "idle K db" and "sent_delivered K delivered p db" and "rounds K rl evss p db = (all, p', db')"
  shows "sent_delivered K delivered p' db'"
  using assms(4-)
proof (induction evss arbitrary: p db all p' db')
  case (Cons evs evss)
  obtain stats e p1 db1 where one: "RunOnce K rl (quiet evs) p db = (stats, e, p1, db1)" by (metis prod_cases4)
  obtain rest p2 db2 where more: "rounds K rl evss p1 db1 = (rest, p2, db2)" by (metis prod_cases3)
  have calm: "calm_calls evs" "within_lease rl evs" using Cons.prems(1) by simp_all
  have "distinct (map oe_outbox_id (outbox db))" using Cons.prems(2) by (simp add: idle_def)
  then have "honest K delivered p db" using Cons.prems(3) by (simp add: honest_def)
  then have s: "sent_delivered K delivered p1 db1"
    using publisher.quiet_round_honest [OF assms(1) refl _ one] by (simp add: honest_def)
  have i: "idle K db1" using quiet_round [OF Cons.prems(2) calm assms(2) disjI2 [OF assms(3)] one] by blast
  have calm': "\<forall>evs\<in>set evss. calm_calls evs \<and> within_lease rl evs" using Cons.prems(1) by simp
  from Cons.IH [OF calm' i s more] Cons.prems(4) one more show ?case by simp
qed simp

text \<open>A message just put in the outbox, and the rounds that follow.\<close>

lemma queued_gets_through:
  assumes "publisher (rl_publisher rl) delivered" and "0 < BatchSize (rl_cfg rl)" and mx: "0 < MaxAttempts (rl_cfg rl)"
    "MaxAttempts (rl_cfg rl) \<le> i32_max" and calm: "\<forall>evs\<in>set evss. calm_calls evs \<and> within_lease rl evs"
    and "idle K db" and "sent_delivered K delivered p db"
    and new: "outbox db1 = outbox db @ [ob]" "oe_outbox_id ob \<notin> set (map oe_outbox_id (outbox db))"
    "oe_status ob = outboxStatusPending" "oe_attempt_count ob = 0" "unmarshal_outbox K (oe_payload ob) = Some m"
    and enough: "work (MaxAttempts (rl_cfg rl)) (outbox db1) \<le> length evss" and run: "rounds K rl evss p db1 = (all, p', db')"
  shows "(m \<in> delivered p' \<or> (\<exists>r\<in>set (outbox db'). unmarshal_outbox K (oe_payload r) = Some m
      \<and> oe_status r = outboxStatusFailed \<and> oe_attempt_count r = MaxAttempts (rl_cfg rl)))
    \<and> (accepts (rl_publisher rl) \<longrightarrow> m \<in> delivered p')"
proof -
  have idle: "idle K db1" using assms(6) new by (auto simp: idle_def pending_def i32_max_def)
  have sent: "sent_delivered K delivered p db1" using assms(7) new by (auto simp: sent_delivered_def)
  note d = rounds_deliver [OF assms(1,2) mx(2) calm idle sent run]
  note s = rounds_settle [OF idle assms(2) mx(2) calm run]
  have "ob \<in> set (outbox db1)" using new(1) by simp
  with s obtain r where r: "r \<in> set (outbox db')" "retried (MaxAttempts (rl_cfg rl)) (accepts (rl_publisher rl)) ob r"
    using moved_from [of "retried (MaxAttempts (rl_cfg rl)) (accepts (rl_publisher rl))" "outbox db1" "outbox db'" ob] by blast
  have "\<not> pending r" using s enough work_0 [of "MaxAttempts (rl_cfg rl)" "outbox db'"] r(1) by auto
  moreover have "idle K db'" using s by blast
  ultimately have st: "oe_status r = outboxStatusSent \<or> oe_status r = outboxStatusFailed" using r(1) by (auto simp: idle_def)
  have u: "unmarshal_outbox K (oe_payload r) = Some m" using r(2) new(5) by (simp add: retried_def)
  have "m \<in> delivered p'" if "oe_status r = outboxStatusSent" using d r(1) u that by (auto simp: sent_delivered_def)
  moreover have "oe_attempt_count r = MaxAttempts (rl_cfg rl) \<and> \<not> accepts (rl_publisher rl)" if "oe_status r = outboxStatusFailed"
    using r(2) new(3,4) mx(1) that by (auto simp: retried_def pending_def)
  ultimately show ?thesis using st u r(1) by blast
qed

text \<open>C3: A write gets through, when nothing fails and the relay is alone. Before the write the outbox is idle
  (each row is sent, failed, or pending without a lease, with a payload that decodes and an attempt count below the end
  of its column), and every row marked sent in it was delivered. A first write commits, and then one relay, whose
  batch size and attempt limit are positive, runs rounds in which no database call fails, no other worker acts, and every call reaches the database
  within the lease of the round's claim. Then, whatever its publisher answers, once it has run as many rounds
  as there were attempts left, the message of the write, with the record as it was stored and the event's
  identifier, has been delivered, or its row is marked failed after exactly \<open>MaxAttempts\<close> attempts, where
  \<open>ListFailed\<close> shows it; and if the publisher accepts everything, it has been delivered. (A worker that dies
  between a claim and its acknowledgements spends an attempt without this bound: \<open>attempts_pass_the_limit\<close>.)\<close>

theorem write_gets_through:
  assumes "sdk_ok K" and "publisher (rl_publisher rl) delivered" and "idle K db" and "sent_delivered K delivered p db"
    and "(wi_TenantID inp, wi_IdempotencyKey inp) \<notin> set (map idem_key (idems db))" and "WriteRecord K ev inp db = (Inr r, db1)"
    and "0 < BatchSize (rl_cfg rl)" and "0 < MaxAttempts (rl_cfg rl)" and "MaxAttempts (rl_cfg rl) \<le> i32_max"
    and "\<forall>evs\<in>set evss. calm_calls evs \<and> within_lease rl evs"
    and "work (MaxAttempts (rl_cfg rl)) (outbox db1) \<le> length evss" and "rounds K rl evss p db1 = (all, p', db')"
  shows "\<exists>e m. events db1 = events db @ [e] \<and> m = message_of (me_event_id e) (created_event inp (wr_Record r))
    \<and> (m \<in> delivered p' \<or> (\<exists>ob\<in>set (outbox db'). unmarshal_outbox K (oe_payload ob) = Some m
          \<and> oe_status ob = outboxStatusFailed \<and> oe_attempt_count ob = MaxAttempts (rl_cfg rl)))
    \<and> (accepts (rl_publisher rl) \<longrightarrow> m \<in> delivered p')"
proof -
  from WriteRecord_unseen_Inr(1) [OF assms(5,6)] obtain l where w: "write_fresh K ev inp db = Inr (l, r, db1)" by blast
  then obtain recs db2 raw where f:
    "emit K ev write_site (Some (wi_IdempotencyKey inp)) (created_event inp (stamp_record ev inp)) (db\<lparr>records := recs\<rparr>) = Inr db2"
    "db1 = db2\<lparr>idems := idems db @ [write_idem_row ev inp raw]\<rparr>" "r = write_result (stamp_record ev inp)"
    by (rule write_fresh_Inr)
  note em = emit_Inr [OF f(1)]
  from em have "emitted K ev write_site (Some (wi_IdempotencyKey inp)) (created_event inp (stamp_record ev inp)) (db\<lparr>records := recs\<rparr>) db2"
    by blast
  then obtain e ob where e: "events db2 = events db @ [e]" "outbox db2 = outbox db @ [ob]" "oe_outbox_id ob = uuid ev (es_outbox_uuid write_site)"
    "oe_status ob = outboxStatusPending" "oe_attempt_count ob = 0"
    "marshal_outbox K (message_of (me_event_id e) (created_event inp (stamp_record ev inp))) = Some (oe_payload ob)"
    by (rule emittedE) simp
  have u: "unmarshal_outbox K (oe_payload ob) = Some (message_of (me_event_id e) (created_event inp (wr_Record r)))"
    using e(6) assms(1) f(3) by (simp add: sdk_ok_def write_result_def)
  have "outbox db1 = outbox db @ [ob]" "oe_outbox_id ob \<notin> set (map oe_outbox_id (outbox db))" using e em by (simp_all add: f(2))
  from queued_gets_through [OF assms(2,7-10,3,4) this e(4,5) u assms(11,12)] e(1) show ?thesis by (simp add: f(2))
qed

lemma run_mutation_queues:
  assumes "run_mutation K ev q db = (Inr r, db')"
  shows "\<exists>e ob. events db' = events db @ [e] \<and> outbox db' = outbox db @ [ob] \<and> oe_outbox_id ob \<notin> set (map oe_outbox_id (outbox db))
    \<and> oe_status ob = outboxStatusPending \<and> oe_attempt_count ob = 0
    \<and> marshal_outbox K (message_of (me_event_id e) (event_of (mu_eventType (mutation_of q)) (rr_Record r))) = Some (oe_payload ob)"
proof -
  let ?x = "event_of (mu_eventType (mutation_of q)) (rr_Record r)"
  from assms obtain rec where rec: "mutateRecordTx K ev (mutation_of q) db = Inr (rec, db')" "rr_Record r = rec"
    by (auto simp: run_mutation_core mutate_result_Inr dest: mutateRecord_Inr)
  from rec(1) obtain recs where "emit K ev mutate_site None (event_of (mu_eventType (mutation_of q)) rec)
      (db\<lparr>records := recs\<rparr>) = Inr db'"
    by (auto simp: mutateRecordTx_Inr elim: mutate_loaded_Inr)
  note em = emit_Inr [OF this]
  from em have "emitted K ev mutate_site None ?x (db\<lparr>records := recs\<rparr>) db'" by (simp add: rec(2))
  then obtain e ob where e: "events db' = events db @ [e]" "outbox db' = outbox db @ [ob]" "oe_outbox_id ob = uuid ev (es_outbox_uuid mutate_site)"
    "oe_status ob = outboxStatusPending" "oe_attempt_count ob = 0"
    "marshal_outbox K (message_of (me_event_id e) ?x) = Some (oe_payload ob)"
    by (rule emittedE) simp
  then show ?thesis using em by (intro exI [of _ e] exI [of _ ob]) simp
qed

text \<open>A mutation gets through, in the same sense: the message of its event, with the record as the
  mutation left it.\<close>

theorem mutation_gets_through:
  assumes "sdk_ok K" and "publisher (rl_publisher rl) delivered" and "idle K db" and "sent_delivered K delivered p db"
    and "run_mutation K ev q db = (Inr r, db1)"
    and "0 < BatchSize (rl_cfg rl)" and "0 < MaxAttempts (rl_cfg rl)" and "MaxAttempts (rl_cfg rl) \<le> i32_max"
    and "\<forall>evs\<in>set evss. calm_calls evs \<and> within_lease rl evs"
    and "work (MaxAttempts (rl_cfg rl)) (outbox db1) \<le> length evss" and "rounds K rl evss p db1 = (all, p', db')"
  shows "\<exists>e m. events db1 = events db @ [e]
    \<and> m = message_of (me_event_id e) (event_of (mu_eventType (mutation_of q)) (rr_Record r))
    \<and> (m \<in> delivered p' \<or> (\<exists>ob\<in>set (outbox db'). unmarshal_outbox K (oe_payload ob) = Some m
          \<and> oe_status ob = outboxStatusFailed \<and> oe_attempt_count ob = MaxAttempts (rl_cfg rl)))
    \<and> (accepts (rl_publisher rl) \<longrightarrow> m \<in> delivered p')"
proof -
  let ?x = "event_of (mu_eventType (mutation_of q)) (rr_Record r)"
  from run_mutation_queues [OF assms(5)] obtain e ob where e: "events db1 = events db @ [e]" "outbox db1 = outbox db @ [ob]"
    "oe_outbox_id ob \<notin> set (map oe_outbox_id (outbox db))" "oe_status ob = outboxStatusPending" "oe_attempt_count ob = 0"
    "marshal_outbox K (message_of (me_event_id e) ?x) = Some (oe_payload ob)" by blast
  have u: "unmarshal_outbox K (oe_payload ob) = Some (message_of (me_event_id e) ?x)" using e(6) assms(1) by (simp add: sdk_ok_def)
  from queued_gets_through [OF assms(2,6-9,3,4) e(2-5) u assms(10,11)] e(1) show ?thesis by blast
qed

section \<open>On the sample store\<close>

lemma sample_queue:
  "\<exists>ob. outbox sample_db = [ob] \<and> oe_status ob = outboxStatusPending \<and> oe_attempt_count ob = 0
     \<and> unmarshal_outbox doc_sdk (oe_payload ob) \<noteq> None"
  by (simp add: sample_db_def write_eval sample_defs)

lemma drain_relay_simps [simp]:
  "BatchSize (rl_cfg drain_relay) = 1" "LeaseTTL (rl_cfg drain_relay) = 180000000000" "MaxAttempts (rl_cfg drain_relay) = 5"
  by (simp_all add: drain_relay_def sample_relay_def)

lemma drain_relay_publishes: "publisher (rl_publisher drain_relay) (\<lambda>p. set (la_Events p))" "accepts (rl_publisher drain_relay)"
  by (simp_all add: drain_relay_def lease_aware_pub.publisher_axioms accepts_def LeaseAwarePublisher_Publish_def)

lemma drain_relay_rounds: "\<forall>evs\<in>set (replicate n (\<lambda>_. calm_env s t)). calm_calls evs \<and> within_lease drain_relay evs"
  by (simp add: calm_calls_def within_lease_def Milliseconds_def)

lemma write_gets_through_witness:
  "\<exists>r all p' db' e. WriteRecord doc_sdk (calm_env ''1'' 5) sample_write empty_db = (Inr r, sample_db)
    \<and> rounds doc_sdk drain_relay (replicate 5 (\<lambda>_. calm_env ''2'' 20000)) \<lparr>la_Events = [], la_World = ()\<rparr> sample_db = (all, p', db')
    \<and> events sample_db = [e] \<and> message_of (me_event_id e) (created_event sample_write (wr_Record r)) \<in> set (la_Events p')"
proof -
  let ?evss = "replicate 5 (\<lambda>_. calm_env ''2'' 20000)" and ?p = "\<lparr>la_Events = [], la_World = ()\<rparr>"
  obtain r where w: "WriteRecord doc_sdk (calm_env ''1'' 5) sample_write empty_db = (Inr r, sample_db)"
    by (simp add: sample_db_def write_eval sample_defs)
  obtain all p' db' where run: "rounds doc_sdk drain_relay ?evss ?p sample_db = (all, p', db')" by (metis prod_cases3)
  have enough: "work (MaxAttempts (rl_cfg drain_relay)) (outbox sample_db) \<le> length ?evss"
    using sample_queue by (auto simp: work_def tries_left_def)
  have empty: "idle doc_sdk (empty_db :: doc db)" "sent_delivered doc_sdk (\<lambda>p. set (la_Events p)) ?p empty_db"
    by (simp_all add: idle_def sent_delivered_def)
  have unseen: "(wi_TenantID sample_write, wi_IdempotencyKey sample_write) \<notin> set (map idem_key (idems (empty_db :: doc db)))" by simp
  from write_gets_through [OF doc_sdk_ok drain_relay_publishes(1) empty unseen w _ _ _ drain_relay_rounds enough run]
    drain_relay_publishes(2) obtain e where "events sample_db = [e]"
    "message_of (me_event_id e) (created_event sample_write (wr_Record r)) \<in> set (la_Events p')" by (auto simp: i32_max_def)
  with w run show ?thesis by blast
qed

lemma mutation_gets_through_witness:
  "\<exists>r db1 all p' db' e. run_mutation doc_sdk (calm_env ''2'' 9000) sample_patch sample_db = (Inr r, db1)
    \<and> rounds doc_sdk drain_relay (replicate 10 (\<lambda>_. calm_env ''3'' 20000)) \<lparr>la_Events = [], la_World = ()\<rparr> db1 = (all, p', db')
    \<and> events db1 = events sample_db @ [e]
    \<and> message_of (me_event_id e) (event_of (mu_eventType (mutation_of sample_patch)) (rr_Record r)) \<in> set (la_Events p')"
proof -
  let ?evss = "replicate 10 (\<lambda>_. calm_env ''3'' 20000)" and ?p = "\<lparr>la_Events = [], la_World = ()\<rparr>"
  obtain r db1 where m: "run_mutation doc_sdk (calm_env ''2'' 9000) sample_patch sample_db = (Inr r, db1)"
    using sample_patch_runs by blast
  obtain all p' db' where run: "rounds doc_sdk drain_relay ?evss ?p db1 = (all, p', db')" by (metis prod_cases3)
  obtain ob where ob: "outbox sample_db = [ob]" "oe_status ob = outboxStatusPending" "oe_attempt_count ob = 0"
    "unmarshal_outbox doc_sdk (oe_payload ob) \<noteq> None" using sample_queue by blast
  have enough: "work (MaxAttempts (rl_cfg drain_relay)) (outbox db1) \<le> length ?evss"
    using run_mutation_queues [OF m] ob by (auto simp: work_def tries_left_def)
  have start: "idle doc_sdk sample_db" "sent_delivered doc_sdk (\<lambda>p. set (la_Events p)) ?p sample_db"
    using ob by (simp_all add: idle_def pending_def sent_delivered_def i32_max_def)
  from mutation_gets_through [OF doc_sdk_ok drain_relay_publishes(1) start m _ _ _ drain_relay_rounds enough run]
    drain_relay_publishes(2) obtain e where "events db1 = events sample_db @ [e]"
    "message_of (me_event_id e) (event_of (mu_eventType (mutation_of sample_patch)) (rr_Record r)) \<in> set (la_Events p')"
    by (auto simp: i32_max_def)
  with m run show ?thesis by blast
qed

end
