(* ===== verification/Payloads.thy ===== *)
theory Payloads
  imports Composition
begin

text \<open>
  What the documents in the tables say. The store keeps each event, message and idempotency entry twice:
  as a JSON document and as the columns it selects on. In every database that can arise the columns
  restate the document, so that what the relay and the replays decode is what the columns select.
\<close>

section \<open>Columns restate documents\<close>

text \<open>Event documents are only written, so theirs is a statement on what was marshalled; the others are decoded.\<close>

definition event_restates :: "'j sdk \<Rightarrow> 'j event_row \<Rightarrow> bool" where
  "event_restates K e \<longleftrightarrow> (\<exists>x. marshal_event K x = Some (me_payload e) \<and> se_MemoryID x = me_memory_id e
     \<and> se_TenantID x = me_tenant_id e \<and> se_EventType x = me_event_type e \<and> se_Version x = me_version e)"

definition outbox_restates :: "'j sdk \<Rightarrow> 'j outbox_row \<Rightarrow> bool" where
  "outbox_restates K r \<longleftrightarrow> (case unmarshal_outbox K (oe_payload r) of None \<Rightarrow> False
     | Some m \<Rightarrow> om_EventID m = oe_event_id r \<and> om_MemoryID m = oe_aggregate_id r \<and> om_TenantID m = oe_tenant_id r
         \<and> om_EventType m = oe_event_type r)"

definition idem_restates :: "'j sdk \<Rightarrow> 'j idem_row \<Rightarrow> bool" where
  "idem_restates K i \<longleftrightarrow> (case unmarshal_entry K (mi_response_snapshot i) of None \<Rightarrow> False
     | Some e \<Rightarrow> ie_TenantID e = mi_tenant_id i \<and> ie_IdempotencyKey e = mi_idempotency_key i
         \<and> ie_RequestHash e = mi_request_hash i)"

lemma outbox_restates_iff: "outbox_restates K r \<longleftrightarrow> (\<exists>m. unmarshal_outbox K (oe_payload r) = Some m \<and> om_EventID m = oe_event_id r
    \<and> om_MemoryID m = oe_aggregate_id r \<and> om_TenantID m = oe_tenant_id r \<and> om_EventType m = oe_event_type r)"
  by (simp add: outbox_restates_def split: option.split)

lemma idem_restates_iff: "idem_restates K i \<longleftrightarrow> (\<exists>e. unmarshal_entry K (mi_response_snapshot i) = Some e
    \<and> ie_TenantID e = mi_tenant_id i \<and> ie_IdempotencyKey e = mi_idempotency_key i \<and> ie_RequestHash e = mi_request_hash i)"
  by (simp add: idem_restates_def split: option.split)

definition rows_restate :: "'j sdk \<Rightarrow> 'j db \<Rightarrow> bool" where
  "rows_restate K db \<longleftrightarrow> (\<forall>e\<in>set (events db). event_restates K e) \<and> (\<forall>r\<in>set (outbox db). outbox_restates K r)
     \<and> (\<forall>i\<in>set (idems db). idem_restates K i)"

lemma emit_restates:
  assumes "sdk_ok K" and "emit K ev es key x db = Inr db'" and "rows_restate K db"
  shows "rows_restate K db'"
proof -
  from emit_Inr [OF assms(2)] have "emitted K ev es key x db db'" by blast
  then obtain eraw oraw where "marshal_event K x = Some eraw"
    "marshal_outbox K (message_of (uuid ev (es_event_uuid es)) x) = Some oraw"
    "db' = db\<lparr>events := events db @ [event_row_of ev (uuid ev (es_event_uuid es)) key x eraw],
         outbox := outbox db @ [new_outbox_row ev (uuid ev (es_outbox_uuid es)) (se_MemoryID x)
            (se_TenantID x) (uuid ev (es_event_uuid es)) (se_EventType x) oraw]\<rparr>" unfolding emitted_def by blast
  moreover from this(2) have "unmarshal_outbox K oraw = Some (message_of (uuid ev (es_event_uuid es)) x)"
    using assms(1) by (simp add: sdk_ok_def)
  ultimately show ?thesis
    using assms(3) by (auto simp: rows_restate_def event_restates_def outbox_restates_def event_row_of_def new_outbox_row_def
        message_of_def)
qed

lemma update_restates:
  assumes "\<And>r. p r \<Longrightarrow> oe_payload (f r) = oe_payload r \<and> oe_event_id (f r) = oe_event_id r \<and> oe_aggregate_id (f r) = oe_aggregate_id r
      \<and> oe_tenant_id (f r) = oe_tenant_id r \<and> oe_event_type (f r) = oe_event_type r" and "rows_restate K db"
  shows "rows_restate K (db\<lparr>outbox := update_where p f (outbox db)\<rparr>)"
proof -
  have "outbox_restates K (f r)" if "outbox_restates K r" "p r" for r
    using assms(1) [of r] that by (auto simp: outbox_restates_def split: option.splits)
  then show ?thesis using assms(2) by (auto simp: rows_restate_def set_update_where)
qed

lemma restates_records [simp]: "rows_restate K (db\<lparr>records := rs\<rparr>) = rows_restate K db"
  by (simp add: rows_restate_def)

lemma restates_entry:
  assumes "rows_restate K db" and "idem_restates K i"
    and "events db' = events db" and "outbox db' = outbox db" and "idems db' = idems db @ [i]"
  shows "rows_restate K db'"
  using assms by (auto simp: rows_restate_def)

lemma upsert_restates:
  assumes "\<forall>r\<in>set rows. idem_restates K r" and "idem_restates K i"
  shows "\<forall>r\<in>set (upsert_idempotency i rows). idem_restates K r"
  using assms by (auto simp: upsert_idempotency_def set_update_where idem_restates_def idem_key_def split: option.splits)

lemma loaded_restates:
  assumes "sdk_ok K" and "mutate_loaded K ev inp cur db = Inr (rec, db')" and "rows_restate K db"
  shows "rows_restate K db'"
proof -
  from assms(2) obtain recs where "emit K ev mutate_site None (event_of (mu_eventType inp) rec) (db\<lparr>records := recs\<rparr>) = Inr db'"
    by (rule mutate_loaded_Inr)
  then show ?thesis by (rule emit_restates [OF assms(1)]) (simp add: assms(3))
qed

lemma promote_restates:
  assumes "sdk_ok K" and "promote_loaded K ev inp cur db = Inr (l, r, db')" and "rows_restate K db"
  shows "rows_restate K db'"
proof -
  let ?rec = "promoted_record K ev inp cur"
  from assms(2) obtain recs db1 where s:
      "emit K ev promote_site None (event_of eventTypeMemoryPromoted ?rec) (db\<lparr>records := recs\<rparr>) = Inr db1"
      "promote_save K ev inp ?rec db1 = Inr db'" by (rule promote_loaded_Inr)
  have r1: "rows_restate K db1" by (rule emit_restates [OF assms(1) s(1)]) (simp add: assms(3))
  note save = promote_save_Inr [OF s(2)]
  show ?thesis
  proof (cases "pr_IdempotencyKey inp = []")
    case True
    with save have "events db' = events db1 \<and> outbox db' = outbox db1 \<and> idems db' = idems db1" by simp
    with r1 show ?thesis by (simp add: rows_restate_def)
  next
    case False
    with save obtain raw e where "marshal_entry K e = Some raw" "ie_TenantID e = pr_TenantID inp"
      "ie_IdempotencyKey e = pr_IdempotencyKey inp" "ie_RequestHash e = promote_hash inp"
      "idems db' = idems db1 @ [\<lparr>mi_tenant_id = pr_TenantID inp, mi_idempotency_key = pr_IdempotencyKey inp,
                    mi_request_hash = promote_hash inp, mi_memory_id = Some (MemoryID ?rec),
                    mi_response_snapshot = raw, mi_created_at = db_now ev, mi_expires_at = None\<rparr>]" by auto
    note i = this
    have "unmarshal_entry K raw = Some e" using assms(1) i(1) by (simp add: sdk_ok_def)
    then show ?thesis using save i(2-4) by (intro restates_entry [OF r1 _ _ _ i(5)]) (simp_all add: idem_restates_def)
  qed
qed

lemma write_restates:
  assumes "sdk_ok K" and "write_fresh K ev inp db = Inr (l, r, db')" and "rows_restate K db"
  shows "rows_restate K db'"
  using assms(2)
proof (cases rule: write_fresh_Inr)
  case (1 recs db1 raw)
  have r1: "rows_restate K db1" by (rule emit_restates [OF assms(1) 1(2)]) (simp add: assms(3))
  have "unmarshal_entry K raw = Some (write_entry ev inp (stamp_record ev inp))"
    using assms(1) 1(3) by (simp add: sdk_ok_def)
  then have i: "idem_restates K (write_idem_row ev inp raw)"
    by (simp add: idem_restates_def write_idem_row_def write_entry_def)
  show ?thesis
    by (rule restates_entry [OF r1 i]) (use emit_frame [OF 1(2)] in \<open>simp_all add: 1(5)\<close>)
qed

lemma save_restates:
  assumes "sdk_ok K" and "marshal_entry K e = Some raw" and "rows_restate K db"
  shows "rows_restate K (db\<lparr>idems := upsert_idempotency (saved_row e raw) (idems db)\<rparr>)"
proof -
  have "idem_restates K (saved_row e raw)"
    using assms(1,2) by (simp add: idem_restates_def saved_row_def sdk_ok_def)
  then have "\<forall>r\<in>set (upsert_idempotency (saved_row e raw) (idems db)). idem_restates K r"
    by (rule upsert_restates [rotated]) (use assms(3) in \<open>simp add: rows_restate_def\<close>)
  then show ?thesis using assms(3) by (simp add: rows_restate_def)
qed

lemma claim_restates:
  assumes "claimTx K rl ev locked db = Inr (l, ms, db')" and "rows_restate K db"
  shows "rows_restate K db'"
proof -
  from claimTx_Inr [OF assms(1)] have "db' = db\<lparr>outbox := update_where
      (\<lambda>r. oe_outbox_id r \<in> oe_outbox_id ` set (to_claim ev locked rl db))
      (claimed_row (rl_workerID rl) (db_now ev) (Milliseconds (LeaseTTL (rl_cfg rl)))) (outbox db)\<rparr>" by blast
  moreover have "rows_restate K (db\<lparr>outbox := update_where
      (\<lambda>r. oe_outbox_id r \<in> oe_outbox_id ` set (to_claim ev locked rl db))
      (claimed_row (rl_workerID rl) (db_now ev) (Milliseconds (LeaseTTL (rl_cfg rl)))) (outbox db)\<rparr>)"
    by (rule update_restates [OF _ assms(2)]) (simp add: claimed_row_def)
  ultimately show ?thesis by (simp only:)
qed

lemma step_restates:
  assumes "commit_step K ev a db db'" and "sdk_ok K" and "rows_restate K db"
  shows "rows_restate K db'"
  using assms(1)
proof cases
  case (wrote inp l r)
  from write_restates [OF assms(2) wrote(2) assms(3)] show ?thesis .
next
  case (mutate q cur rec)
  from loaded_restates [OF assms(2) mutate(2) assms(3)] show ?thesis .
next
  case (promote inp cur l r)
  from promote_restates [OF assms(2) promote(2) assms(3)] show ?thesis .
next
  case (collapse inp cur rec db1 winner)
  from emit_restates [OF assms(2) collapse(4) loaded_restates [OF assms(2) collapse(2) assms(3)]] show ?thesis .
next
  case (append eid key x raw evs)
  with event_tab.ins_appends [OF append(3)] assms(3) show ?thesis
    by (auto simp: rows_restate_def event_restates_def event_row_of_def)
next
  case (save e raw)
  from save_restates [OF assms(2) save(3) assms(3)] show ?thesis unfolding save(2) .
next
  case (enqueue oid m raw obs)
  moreover from this(5) have "unmarshal_outbox K raw = Some m" using assms(2) by (simp add: sdk_ok_def)
  ultimately show ?thesis using outbox_tab.ins_appends [OF enqueue(3)] assms(3)
    by (auto simp: rows_restate_def outbox_restates_def new_outbox_row_def)
next
  case (claim rl locked l ms)
  from claim_restates [OF claim(2) assms(3)] show ?thesis .
next
  case (ack rl i et ok n pe)
  show ?thesis unfolding ack
    by (rule update_restates [OF _ assms(3)]) (simp add: ack_setter_def acked_sent_def acked_error_def unleased_def)
next
  case (requeue i)
  show ?thesis unfolding requeue by (rule update_restates [OF _ assms(3)]) (simp add: requeued_def)
next
  case (release worker)
  show ?thesis unfolding release by (rule update_restates [OF _ assms(3)]) (simp add: released_def unleased_def)
qed (use assms(3) in \<open>simp_all add: rows_restate_def\<close>)

lemma reachable_restates: "reachable K db \<Longrightarrow> sdk_ok K \<Longrightarrow> rows_restate K db"
  by (induction rule: reachable.induct) (simp add: rows_restate_def, erule (1) step_restates, simp)

text \<open>C10: Columns restate documents. In every database that can arise, every event's document is that of an
  event with the row's record, tenant, type and version; every outbox payload decodes, to a message with
  the row's event, record, tenant and type; and every idempotency snapshot decodes, to an entry with the
  row's tenant, key and request hash. Decoding undoes encoding is all that is asked of the JSON form.\<close>

theorem rows_restate_payloads:
  assumes "reachable K db" and "sdk_ok K"
  shows "(\<forall>e\<in>set (events db). \<exists>x. marshal_event K x = Some (me_payload e) \<and> se_MemoryID x = me_memory_id e
        \<and> se_TenantID x = me_tenant_id e \<and> se_EventType x = me_event_type e \<and> se_Version x = me_version e)
    \<and> (\<forall>r\<in>set (outbox db). \<exists>m. unmarshal_outbox K (oe_payload r) = Some m \<and> om_EventID m = oe_event_id r
        \<and> om_MemoryID m = oe_aggregate_id r \<and> om_TenantID m = oe_tenant_id r \<and> om_EventType m = oe_event_type r)
    \<and> (\<forall>i\<in>set (idems db). \<exists>en. unmarshal_entry K (mi_response_snapshot i) = Some en \<and> ie_TenantID en = mi_tenant_id i
        \<and> ie_IdempotencyKey en = mi_idempotency_key i \<and> ie_RequestHash en = mi_request_hash i)"
  using reachable_restates [OF assms]
  by (simp add: rows_restate_def event_restates_def outbox_restates_iff idem_restates_iff)

lemma rows_restate_payloads_witness:
  "\<exists>r m. outbox claimed_db = [r] \<and> unmarshal_outbox doc_sdk (oe_payload r) = Some m \<and> om_EventID m = oe_event_id r"
proof -
  obtain r where r: "outbox claimed_db = [r]" using claimed_rows by blast
  with rows_restate_payloads [OF claimed_reach doc_sdk_ok] show ?thesis by auto
qed

section \<open>What follows for claims and replays\<close>

text \<open>C4: The store's own messages never poison the relay. From every database that can arise, with no fault
  and no attempt count at its column's end, every claim of every worker succeeds, and each message it
  returns is one of a row: it names that row's event, record, tenant and type. (A payload that does not
  decode, which would stop every claim, can only come from outside the store or from a change of the JSON
  form.)\<close>

theorem claims_never_poisoned:
  assumes "reachable K db" and "sdk_ok K" and "\<forall>r\<in>set (outbox db). oe_attempt_count r < i32_max"
    and "0 \<le> BatchSize (rl_cfg rl)" and "\<forall>c. fault ev c = None" and "commit ev = Committed"
  shows "\<exists>ms db'. ClaimBatch K rl ev locked db = (Inr ms, db')
    \<and> (\<forall>m\<in>set ms. \<exists>r\<in>set (outbox db). oe_outbox_id r = cm_OutboxID m \<and> om_EventID (cm_Payload m) = oe_event_id r
         \<and> om_MemoryID (cm_Payload m) = oe_aggregate_id r \<and> om_TenantID (cm_Payload m) = oe_tenant_id r
         \<and> om_EventType (cm_Payload m) = oe_event_type r)"
proof -
  let ?t = "to_claim ev locked rl db"
  have sub: "\<forall>r\<in>set ?t. r \<in> set (outbox db)" using to_claim_sub [of ev locked rl db] by blast
  have all: "\<forall>r\<in>set (outbox db). outbox_restates K r"
    using reachable_restates [OF assms(1,2)] by (simp add: rows_restate_def)
  have "\<exists>ms db'. ClaimBatch K rl ev locked db = (Inr ms, db')"
    by (rule claim_ok [OF _ _ assms(4-6)]) (use sub all assms(3) in \<open>fastforce simp: outbox_restates_iff\<close>)+
  then obtain ms db' where run: "ClaimBatch K rl ev locked db = (Inr ms, db')" by blast
  then obtain l where "claimTx K rl ev locked db = Inr (l, ms, db')" by (auto simp: ClaimBatch_Inr)
  note c = claimTx_Inr [OF this]
  have "\<exists>r\<in>set (outbox db). oe_outbox_id r = cm_OutboxID m \<and> om_EventID (cm_Payload m) = oe_event_id r
         \<and> om_MemoryID (cm_Payload m) = oe_aggregate_id r \<and> om_TenantID (cm_Payload m) = oe_tenant_id r
         \<and> om_EventType (cm_Payload m) = oe_event_type r" if "m \<in> set ms" for m
  proof -
    from that obtain i where i: "i < length ms" "m = ms ! i" by (auto simp: in_set_conv_nth)
    have ids: "map cm_OutboxID ms = map oe_outbox_id ?t"
      and docs: "map (\<lambda>m. Some (cm_Payload m)) ms = map (\<lambda>r. unmarshal_outbox K (oe_payload r)) ?t" using c by blast+
    have len: "length ms = length ?t" using arg_cong [OF ids, of length] by simp
    have "cm_OutboxID m = oe_outbox_id (?t ! i)" using ids i len by (metis nth_map)
    moreover have "unmarshal_outbox K (oe_payload (?t ! i)) = Some (cm_Payload m)"
      using docs i len by (metis (no_types, lifting) nth_map)
    moreover have row: "?t ! i \<in> set (outbox db)" using sub i len by simp
    moreover have "outbox_restates K (?t ! i)" using all row by blast
    ultimately show ?thesis by (intro bexI [OF _ row]) (simp add: outbox_restates_def)
  qed
  with run show ?thesis by blast
qed

lemma claims_never_poisoned_witness:
  "\<exists>m db'. ClaimBatch doc_sdk sample_relay (calm_env ''2'' 20000) (\<lambda>_. False) queued_db = (Inr [m], db')
     \<and> (\<exists>r\<in>set (outbox queued_db). om_EventID (cm_Payload m) = oe_event_id r)"
proof -
  have "\<forall>r\<in>set (outbox queued_db). oe_attempt_count r < i32_max" by (simp add: queued_rows new_outbox_row_def i32_max_def)
  from claims_never_poisoned [OF queued_reach doc_sdk_ok this, of sample_relay "calm_env ''2'' 20000" "\<lambda>_. False"] queued_claim
  show ?thesis by (auto simp: sample_relay_def)
qed

text \<open>No replay fails to decode: a write whose key has a row answers with the entry or a conflict.\<close>

lemma replays_decode:
  assumes "reachable K db" and "sdk_ok K" and "valid_write inp"
    and "(wi_TenantID inp, wi_IdempotencyKey inp) \<in> set (map idem_key (idems db))"
    and "fault ev CBegin = None" and "fault ev CLookup = None" and "commit ev = Committed"
  shows "(\<exists>r. WriteRecord K ev inp db = (Inr r, db)) \<or> WriteRecord K ev inp db = (Inl ErrIdempotencyConflict, db)"
proof -
  from assms(4) obtain row where row: "select_idempotency (wi_TenantID inp) (wi_IdempotencyKey inp) (idems db) = Inr row"
    using find_None [of "\<lambda>r. idem_key r = (wi_TenantID inp, wi_IdempotencyKey inp)" "idems db"]
    by (auto simp: select_idempotency_def split: option.splits)
  then have "row \<in> set (idems db)" using select_idempotency_Inr by blast
  then have "idem_restates K row" using reachable_restates [OF assms(1,2)] by (simp add: rows_restate_def)
  then obtain snap where "unmarshal_entry K (mi_response_snapshot row) = Some snap"
    by (auto simp: idem_restates_def split: option.splits)
  from replay_of_row [OF assms(3) row this, of ev] assms(5-7) show ?thesis
    by (cases "WriteRecord K ev inp db") (auto split: if_splits)
qed

end
