(* ===== verification/Peers.thy ===== *)
theory Peers
  imports RelayRun WriteProps StoreOps
begin

text \<open>
  Several workers and one downstream. The others of a round are here the relays of other workers, which run
  the same code call by call, and clients of the store: between any two calls of our round any of them may
  make any number of calls, in any order. What they have claimed and not yet acknowledged is in
  their hands.
\<close>

section \<open>The other workers\<close>

text \<open>The world outside the database and our worker: the downstream, and for each of the others the messages it has
  claimed and the publisher's answer for the first, once it is published.\<close>

record 'p outside =
  ou_down :: 'p
  ou_hands :: "nat \<Rightarrow> ClaimedMessage list \<times> err option option"

definition set_hand :: "nat \<Rightarrow> ClaimedMessage list \<times> err option option \<Rightarrow> 'p outside \<Rightarrow> 'p outside" where
  "set_hand k h w = w\<lparr>ou_hands := (ou_hands w)(k := h)\<rparr>"

lemma set_hand_simps [simp]:
  "ou_down (set_hand k h w) = ou_down w" "ou_hands (set_hand k h w) = (ou_hands w)(k := h)"
  by (simp_all add: set_hand_def)

text \<open>A publisher of the downstream, in this world.\<close>

definition on_down :: "'p pub \<Rightarrow> 'p outside pub" where
  "on_down publish m w = (case publish m (ou_down w) of (r, p) \<Rightarrow> (r, w\<lparr>ou_down := p\<rparr>))"

text \<open>One call of worker \<open>k\<close>: with empty hands it claims; a message it holds is published, then acknowledged
  with the answer, as in the loop of \<open>RunOnce\<close>. A worker may also die, and lose what it holds; a client of the store
  may change the database.\<close>

datatype 'j turn = Call nat env "string \<Rightarrow> bool" | Die nat | Client "'j db \<Rightarrow> 'j db"

fun take_turn ::
  "'j sdk \<Rightarrow> 'p pub \<Rightarrow> (nat \<Rightarrow> unit Relay) \<Rightarrow> (err \<Rightarrow> string) \<Rightarrow> 'j turn \<Rightarrow> 'p outside \<times> 'j db \<Rightarrow> 'p outside \<times> 'j db" where
  "take_turn K publish rls et (Call k ev locked) (w, db) =
     (case ou_hands w k of
        ([], _) \<Rightarrow>
          (case ClaimBatch K (rls k) ev locked db of
             (Inr ms, db') \<Rightarrow> (set_hand k (ms, None) w, db')
           | (Inl _, db') \<Rightarrow> (w, db'))
      | (m # ms, None) \<Rightarrow>
          (case publish (cm_Payload m) (ou_down w) of (pe, p) \<Rightarrow> (set_hand k (m # ms, Some pe) (w\<lparr>ou_down := p\<rparr>), db))
      | (m # ms, Some pe) \<Rightarrow>
          (case Ack et (rls k) ev (cm_OutboxID m) (pe = None) (cm_AttemptCount m) pe db of
             (_, db') \<Rightarrow> (set_hand k (ms, None) w, db')))"
| "take_turn K publish rls et (Die k) (w, db) = (set_hand k ([], None) w, db)"
| "take_turn K publish rls et (Client f) (w, db) = (w, f db)"

text \<open>Surroundings in which the turns of \<open>sched i\<close> are taken at the \<open>i\<close>-th gap of our round.\<close>

definition among ::
  "'j sdk \<Rightarrow> 'p pub \<Rightarrow> (nat \<Rightarrow> unit Relay) \<Rightarrow> (err \<Rightarrow> string) \<Rightarrow> (nat \<Rightarrow> 'j turn list) \<Rightarrow> (nat \<Rightarrow> env) \<Rightarrow> (string \<Rightarrow> bool)
     \<Rightarrow> ('p outside, 'j) surroundings" where
  "among K publish rls et sched evs locked =
     \<lparr>su_env = evs, su_others = (\<lambda>i. fold (take_turn K publish rls et) (sched i)), su_locked = locked, su_err_text = et\<rparr>"

section \<open>What they keep\<close>

text \<open>Each message in a hand is the one under its identifier, and one that was accepted is delivered.\<close>

definition hand_ok :: "'j sdk \<Rightarrow> OutboxMessage set \<Rightarrow> 'j db \<Rightarrow> ClaimedMessage list \<times> err option option \<Rightarrow> bool" where
  "hand_ok K seen db h \<longleftrightarrow> (\<forall>m\<in>set (fst h). carries K db m)
     \<and> (\<forall>m ms. h = (m # ms, Some None) \<longrightarrow> cm_Payload m \<in> seen)"

definition hands_ok :: "'j sdk \<Rightarrow> ('p \<Rightarrow> OutboxMessage set) \<Rightarrow> 'p outside \<Rightarrow> 'j db \<Rightarrow> bool" where
  "hands_ok K delivered w db \<longleftrightarrow> (\<forall>k. hand_ok K (delivered (ou_down w)) db (ou_hands w k))"

text \<open>A client of the store adds rows and moves them, but no payload, and marks nothing sent.\<close>

definition unsent :: "('j db \<Rightarrow> 'j db) \<Rightarrow> bool" where
  "unsent f \<longleftrightarrow> (\<forall>db. keeps_messages db (f db)
     \<and> (distinct (map oe_outbox_id (outbox db)) \<longrightarrow> distinct (map oe_outbox_id (outbox (f db))))
     \<and> (\<forall>r'\<in>set (outbox (f db)). oe_status r' = outboxStatusSent \<longrightarrow> r' \<in> set (outbox db)))"

definition fair :: "'j turn \<Rightarrow> bool" where
  "fair t \<longleftrightarrow> (case t of Client f \<Rightarrow> unsent f | _ \<Rightarrow> True)"

lemma hand_ok_kept:
  "hand_ok K seen db h \<Longrightarrow> keeps_messages db db' \<Longrightarrow> seen \<subseteq> seen' \<Longrightarrow> hand_ok K seen' db' h"
  by (auto simp: hand_ok_def intro: carries_kept)

lemma set_hand_ok:
  assumes "hands_ok K delivered w db" and "keeps_messages db db'" and "hand_ok K (delivered (ou_down w)) db' h"
  shows "hands_ok K delivered (set_hand k h w) db'"
  using assms hand_ok_kept [of K "delivered (ou_down w)" db _ db'] by (simp add: hands_ok_def)

lemma WriteRecord_unsent: "unsent (\<lambda>db. snd (WriteRecord K ev inp db))"
  unfolding unsent_def
proof (intro allI)
  fix db :: "'a db"
  let ?d = "snd (WriteRecord K ev inp db)"
  have "?d = db \<or> (\<exists>l r. writeTx K ev inp db = Inr (l, r, ?d))"
    using run_tx_snd [of ev "''memory/postgres: begin tx: ''" "writeTx K ev inp" db] by (auto simp: WriteRecord_def)
  then have "?d = db \<or> (\<exists>l r. write_fresh K ev inp db = Inr (l, r, ?d))"
    by (auto simp: writeTx_def bindE_eq_Inr split: option.splits)
  then show "keeps_messages db ?d \<and> (distinct (map oe_outbox_id (outbox db)) \<longrightarrow> distinct (map oe_outbox_id (outbox ?d)))
     \<and> (\<forall>r'\<in>set (outbox ?d). oe_status r' = outboxStatusSent \<longrightarrow> r' \<in> set (outbox db))"
  proof (elim disjE exE)
    fix l r assume "write_fresh K ev inp db = Inr (l, r, ?d)"
    then obtain recs db1 raw where
      e: "emit K ev write_site (Some (wi_IdempotencyKey inp)) (created_event inp (stamp_record ev inp)) (db\<lparr>records := recs\<rparr>) = Inr db1"
        and d: "?d = db1\<lparr>idems := idems db @ [write_idem_row ev inp raw]\<rparr>" by (rule write_fresh_Inr)
    from emit_Inr [OF e] have "emitted K ev write_site (Some (wi_IdempotencyKey inp)) (created_event inp (stamp_record ev inp)) (db\<lparr>records := recs\<rparr>) db1"
      and new: "uuid ev (es_outbox_uuid write_site) \<notin> set (map oe_outbox_id (outbox db))" by simp_all
    from this(1) obtain ob where ob: "outbox db1 = outbox db @ [ob]" "oe_outbox_id ob = uuid ev (es_outbox_uuid write_site)"
      "oe_status ob = outboxStatusPending" by (rule emittedE) simp
    then show ?thesis using new by (auto simp: d keeps_messages_def)
  qed simp_all
qed

lemma RequeueFailed_unsent: "unsent (\<lambda>db. snd (RequeueFailed ev i db))"
  unfolding unsent_def
proof (intro allI)
  fix db :: "'a db"
  let ?d = "snd (RequeueFailed ev i db)"
  have "?d = db \<or> ?d = db\<lparr>outbox := update_where (\<lambda>r. oe_outbox_id r = i \<and> oe_status r = outboxStatusFailed) requeued (outbox db)\<rparr>"
    using RequeueFailed_snd [of ev i db] by blast
  then show "keeps_messages db ?d \<and> (distinct (map oe_outbox_id (outbox db)) \<longrightarrow> distinct (map oe_outbox_id (outbox ?d)))
     \<and> (\<forall>r'\<in>set (outbox ?d). oe_status r' = outboxStatusSent \<longrightarrow> r' \<in> set (outbox db))"
  proof
    assume d: "?d = db\<lparr>outbox := update_where (\<lambda>r. oe_outbox_id r = i \<and> oe_status r = outboxStatusFailed) requeued (outbox db)\<rparr>"
    show ?thesis unfolding d
      by (auto simp: keeps_messages_update requeued_def map_update_where set_update_where split: if_splits)
  qed simp
qed

section \<open>A fleet of workers\<close>

locale fleet = publisher publish delivered
  for publish :: "'p pub" and delivered :: "'p \<Rightarrow> OutboxMessage set" +
  fixes sched :: "nat \<Rightarrow> 'j turn list"
  assumes all_fair: "t \<in> set (sched i) \<Longrightarrow> fair t"
begin

lemma turn_honest:
  assumes "fair t" and "take_turn K publish rls et t (w, db) = (w', db')"
    and "honest K (\<lambda>w. delivered (ou_down w)) w db" and "hands_ok K delivered w db"
  shows "honest K (\<lambda>w. delivered (ou_down w)) w' db' \<and> hands_ok K delivered w' db'
    \<and> delivered (ou_down w) \<subseteq> delivered (ou_down w') \<and> keeps_messages db db'"
proof (cases t)
  case (Die k)
  with assms(2-) set_hand_ok [OF assms(4) keeps_messages_refl, of "([], None)" k] show ?thesis
    by (auto simp: hand_ok_def honest_def sent_delivered_def)
next
  case (Client f)
  then have "unsent f" using assms(1) by (simp add: fair_def)
  moreover have "w' = w" "db' = f db" using assms(2) Client by simp_all
  ultimately show ?thesis using assms(3,4) hand_ok_kept [of K "delivered (ou_down w)" db _ "f db"]
    unfolding unsent_def honest_def sent_delivered_def hands_ok_def by blast
next
  case (Call k ev locked)
  have hand: "hand_ok K (delivered (ou_down w)) db (ou_hands w k)" using assms(4) by (simp add: hands_ok_def)
  consider (claim) a where "ou_hands w k = ([], a)" | (pub) m ms where "ou_hands w k = (m # ms, None)"
    | (ack) m ms pe where "ou_hands w k = (m # ms, Some pe)"
    by (metis list.exhaust option.exhaust surj_pair)
  then show ?thesis
  proof cases
    case claim
    obtain c d where cl: "ClaimBatch K (rls k) ev locked db = (c, d)" by fastforce
    note h = claim_honest [OF assms(3) cl]
    show ?thesis
    proof (cases c)
      case (Inl e)
      then have "w' = w" "db' = d" using assms(2) Call claim cl by simp_all
      then show ?thesis using h assms(4) hand_ok_kept [of K "delivered (ou_down w)" db _ d] by (simp add: hands_ok_def)
    next
      case (Inr ms)
      then have w: "w' = set_hand k (ms, None) w" "db' = d" using assms(2) Call claim cl by simp_all
      have "hand_ok K (delivered (ou_down w)) d (ms, None)" using h(3) Inr by (simp add: hand_ok_def)
      from set_hand_ok [OF assms(4) h(2) this] h(1,2) show ?thesis
        unfolding w by (simp add: honest_def sent_delivered_def)
    qed
  next
    case pub
    obtain pe p where p: "publish (cm_Payload m) (ou_down w) = (pe, p)" by fastforce
    then have w: "w' = set_hand k (m # ms, Some pe) (w\<lparr>ou_down := p\<rparr>)" "db' = db" using assms(2) Call pub by simp_all
    have more: "delivered (ou_down w) \<subseteq> delivered p" using keeps [OF p] .
    have "hands_ok K delivered (w\<lparr>ou_down := p\<rparr>) db"
      using assms(4) unfolding hands_ok_def by (auto intro: hand_ok_kept [OF _ keeps_messages_refl more])
    moreover have "hand_ok K (delivered p) db (m # ms, Some pe)"
      using hand pub accepted [of "cm_Payload m" "ou_down w" p] p by (auto simp: hand_ok_def)
    ultimately have "hands_ok K delivered w' db'" unfolding w by (intro set_hand_ok [OF _ keeps_messages_refl]) simp_all
    moreover have "delivered (ou_down w) \<subseteq> delivered (ou_down w')" using more by (simp add: w)
    ultimately show ?thesis using honest_more [OF assms(3)] by (simp add: w(2))
  next
    case ack
    obtain a d where r: "Ack et (rls k) ev (cm_OutboxID m) (pe = None) (cm_AttemptCount m) pe db = (a, d)" by fastforce
    then have w: "w' = set_hand k (ms, None) w" "db' = d" using assms(2) Call ack by simp_all
    have c: "carries K db m" "pe = None \<Longrightarrow> cm_Payload m \<in> delivered (ou_down w)" using hand ack by (auto simp: hand_ok_def)
    have h: "honest K (\<lambda>w. delivered (ou_down w)) w d"
      using ack_honest [OF assms(3) c(1), of "pe = None" et "rls k" ev "cm_AttemptCount m" pe] c(2) r by simp
    have k: "keeps_messages db d" using Ack_keeps [of db et "rls k" ev "cm_OutboxID m" "pe = None" "cm_AttemptCount m" pe] r by simp
    have "hand_ok K (delivered (ou_down w)) d (ms, None)"
      using hand ack carries_kept [OF _ k] by (simp add: hand_ok_def)
    from set_hand_ok [OF assms(4) k this] h k show ?thesis unfolding w by (simp add: honest_def sent_delivered_def)
  qed
qed

lemma turns_honest:
  assumes "\<forall>t\<in>set ts. fair t" and "fold (take_turn K publish rls et) ts (w, db) = (w', db')"
    and "honest K (\<lambda>w. delivered (ou_down w)) w db" and "hands_ok K delivered w db"
  shows "honest K (\<lambda>w. delivered (ou_down w)) w' db' \<and> hands_ok K delivered w' db'
    \<and> delivered (ou_down w) \<subseteq> delivered (ou_down w') \<and> keeps_messages db db'"
  using assms
proof (induction ts arbitrary: w db)
  case (Cons t ts)
  obtain w1 db1 where one: "take_turn K publish rls et t (w, db) = (w1, db1)" by fastforce
  note h = turn_honest [OF _ one Cons.prems(3,4)]
  from Cons.prems(1) have "fair t" by simp
  note h = h [OF this]
  from Cons.IH [of w1 db1] Cons.prems(1,2) one h
  have "honest K (\<lambda>w. delivered (ou_down w)) w' db' \<and> hands_ok K delivered w' db'
    \<and> delivered (ou_down w1) \<subseteq> delivered (ou_down w') \<and> keeps_messages db1 db'" by simp
  with h keeps_messages_trans show ?case by blast
qed simp

end

text \<open>A fleet is among the others a round can bear.\<close>

sublocale fleet \<subseteq> others: bystanders "on_down publish" "\<lambda>w. delivered (ou_down w)" K
    "among K publish rls et sched evs locked" "hands_ok K delivered" for K rls et evs locked
proof unfold_locales
  fix m w w' assume "on_down publish m w = (None, w')"
  then show "m \<in> delivered (ou_down w')" using accepted by (auto simp: on_down_def split: prod.splits)
next
  fix m w r w' assume "on_down publish m w = (r, w')"
  then obtain p where "publish m (ou_down w) = (r, p)" "w' = w\<lparr>ou_down := p\<rparr>" by (auto simp: on_down_def split: prod.splits)
  then show "delivered (ou_down w) \<subseteq> delivered (ou_down w')" using keeps [of m "ou_down w" r p] by simp
next
  fix i w db w' db'
  assume "su_others (among K publish rls et sched evs locked) i (w, db) = (w', db')"
    "honest K (\<lambda>w. delivered (ou_down w)) w db" "hands_ok K delivered w db"
  then show "honest K (\<lambda>w. delivered (ou_down w)) w' db' \<and> hands_ok K delivered w' db'
    \<and> delivered (ou_down w) \<subseteq> delivered (ou_down w') \<and> keeps_messages db db'"
    using turns_honest [of "sched i" K rls et w db w' db'] all_fair by (simp add: among_def)
next
  fix w db m r w'
  assume "hands_ok K delivered w db" "on_down publish m w = (r, w')"
  then obtain p where p: "publish m (ou_down w) = (r, p)" "w' = w\<lparr>ou_down := p\<rparr>" by (auto simp: on_down_def split: prod.splits)
  with \<open>hands_ok K delivered w db\<close> show "hands_ok K delivered w' db"
    unfolding hands_ok_def by (auto intro: hand_ok_kept [OF _ keeps_messages_refl keeps [OF p(1)]])
next
  fix w db db' assume "hands_ok K delivered w db" "keeps_messages db db'"
  then show "hands_ok K delivered w db'"
    using hand_ok_kept [of K "delivered (ou_down w)" db _ db'] by (simp add: hands_ok_def)
qed

context fleet
begin

lemma round_among:
  assumes "rl_publisher rl = on_down publish" and "honest K (\<lambda>w. delivered (ou_down w)) w db" and "hands_ok K delivered w db"
    and "RunOnce K rl (among K publish rls et sched evs locked) w db = (stats, e, w', db')"
  shows "honest K (\<lambda>w. delivered (ou_down w)) w' db' \<and> hands_ok K delivered w' db'"
  by (rule others.round_honest [OF assms])

end

text \<open>Other workers on the in-memory publisher, and clients who write and requeue.\<close>

interpretation memory_fleet: fleet MemoryPublisher_Publish "\<lambda>p. set (mp_Events p)"
    "\<lambda>i. map (\<lambda>(k, ev, locked). Call k ev locked) (calls i) @
         [Client (\<lambda>db. snd (WriteRecord K ev1 inp db)), Client (\<lambda>db. snd (RequeueFailed ev2 oid db))]"
  for calls and K :: "'j sdk" and ev1 inp ev2 oid
  by unfold_locales (auto simp: fair_def WriteRecord_unsent RequeueFailed_unsent)

section \<open>Sent means delivered\<close>

text \<open>C17: At least once, with any number of workers. Whatever fails in a round, however many other workers run the
  same relay on the same outbox and downstream, and whatever clients of the store do meanwhile: take any
  interleaving of their calls (claims, publishes and acknowledgements, and deaths that lose what a worker holds)
  with those of our round. If before it every row marked sent had its message delivered and each message in a worker's
  hands was the one claimed, the same holds after it, our worker's rows and the others' alike.\<close>

theorem sent_was_delivered:
  assumes "publisher publish delivered" and "rl_publisher rl = on_down publish"
    and "\<forall>i. \<forall>t\<in>set (sched i). fair t"
    and "distinct (map oe_outbox_id (outbox db))" and "sent_delivered K (\<lambda>w. delivered (ou_down w)) w db"
    and "hands_ok K delivered w db"
    and "RunOnce K rl (among K publish rls et sched evs locked) w db = (stats, e, w', db')"
  shows "(\<forall>r\<in>set (outbox db'). oe_status r = outboxStatusSent \<longrightarrow>
      (\<exists>m. unmarshal_outbox K (oe_payload r) = Some m \<and> m \<in> delivered (ou_down w')))
    \<and> hands_ok K delivered w' db' \<and> distinct (map oe_outbox_id (outbox db'))"
proof -
  have "fleet publish delivered sched" using assms(1,3) by (simp add: fleet_def fleet_axioms_def)
  moreover have "honest K (\<lambda>w. delivered (ou_down w)) w db" using assms(4,5) by (simp add: honest_def)
  ultimately have "honest K (\<lambda>w. delivered (ou_down w)) w' db' \<and> hands_ok K delivered w' db'"
    using fleet.round_among [OF _ assms(2) _ assms(6,7)] by blast
  then show ?thesis by (simp add: honest_def sent_delivered_def)
qed

text \<open>While our worker is about to claim, another one claims the older message, publishes it and marks it sent.\<close>

definition peer_turns :: "nat \<Rightarrow> doc turn list" where
  "peer_turns i = (if i = 0 then [Call 7 (calm_env ''1'' 20000) (\<lambda>_. False), Call 7 (calm_env ''2'' 21000) (\<lambda>_. False),
     Call 7 (calm_env ''3'' 22000) (\<lambda>_. False)] else [])"

definition peers :: "nat \<Rightarrow> unit Relay" where
  "peers k = \<lparr>rl_publisher = (\<lambda>_ s. (None, s)), rl_cfg = rl_cfg sample_relay, rl_workerID = ''w2''\<rparr>"

definition our_relay :: "MemoryPublisher outside Relay" where
  "our_relay = \<lparr>rl_publisher = on_down MemoryPublisher_Publish, rl_cfg = rl_cfg sample_relay, rl_workerID = ''w1''\<rparr>"

definition nobody :: "MemoryPublisher outside" where
  "nobody = \<lparr>ou_down = \<lparr>mp_Events = [], mp_Fail = False\<rparr>, ou_hands = (\<lambda>_. ([], None))\<rparr>"

lemma peer_sends:
  "\<exists>w db. fold (take_turn doc_sdk MemoryPublisher_Publish peers (\<lambda>_. [])) (peer_turns 0) (nobody, two_rows) = (w, db)
     \<and> map oe_status (outbox db) = [outboxStatusPending, outboxStatusSent]"
  by (simp add: peer_turns_def nobody_def peers_def set_hand_def ClaimBatch_def claimTx_def select_claimable_def claimable_def
      sample_relay_def pg_time_def exec_calm run_tx_def update_claimed_def i32_max_def decodeJSON_def claim_defs
      MemoryPublisher_Publish_def Ack_def ack_update_def auto_stmt_def driver_def owned_def update_where_def claimed_row_def
      count_where_def acked_sent_def Milliseconds_def unleased_def)

lemma sent_was_delivered_witness:
  "\<exists>w0 db0 stats e w db. fold (take_turn doc_sdk MemoryPublisher_Publish peers (\<lambda>_. [])) (peer_turns 0) (nobody, two_rows) = (w0, db0)
     \<and> outboxStatusSent \<in> oe_status ` set (outbox db0)
     \<and> RunOnce doc_sdk our_relay (among doc_sdk MemoryPublisher_Publish peers (\<lambda>_. []) peer_turns (\<lambda>_. calm_env ''9'' 30000) (\<lambda>_. False))
         nobody two_rows = (stats, e, w, db)
     \<and> (\<forall>r\<in>set (outbox db). oe_status r = outboxStatusSent \<longrightarrow>
          (\<exists>m. unmarshal_outbox doc_sdk (oe_payload r) = Some m \<and> m \<in> set (mp_Events (ou_down w))))"
proof -
  let ?su = "among doc_sdk MemoryPublisher_Publish peers (\<lambda>_. []) peer_turns (\<lambda>_. calm_env ''9'' 30000) (\<lambda>_. False)"
  obtain w0 db0 where first: "fold (take_turn doc_sdk MemoryPublisher_Publish peers (\<lambda>_. [])) (peer_turns 0) (nobody, two_rows) = (w0, db0)"
    "map oe_status (outbox db0) = [outboxStatusPending, outboxStatusSent]" by (rule exE [OF peer_sends]) (elim exE conjE)
  have sent: "outboxStatusSent \<in> oe_status ` set (outbox db0)" using arg_cong [OF first(2), of set] by simp
  obtain stats e w db where run: "RunOnce doc_sdk our_relay ?su nobody two_rows = (stats, e, w, db)" by (metis prod_cases4)
  have "\<forall>i. \<forall>t\<in>set (peer_turns i). fair t" by (simp add: peer_turns_def fair_def)
  moreover have "sent_delivered doc_sdk (\<lambda>w. set (mp_Events (ou_down w))) nobody two_rows" by (simp add: sent_delivered_def)
  moreover have "hands_ok doc_sdk (\<lambda>p. set (mp_Events p)) nobody two_rows" by (simp add: hands_ok_def hand_ok_def nobody_def)
  ultimately have "\<forall>r\<in>set (outbox db). oe_status r = outboxStatusSent \<longrightarrow>
      (\<exists>m. unmarshal_outbox doc_sdk (oe_payload r) = Some m \<and> m \<in> set (mp_Events (ou_down w)))"
    using sent_was_delivered [OF memory_pub.publisher_axioms _ _ _ _ _ run] by (simp add: our_relay_def)
  with first(1) sent run show ?thesis by blast
qed

end
