(* ===== verification/Conform.thy ===== *)
theory Conform
  imports Migration Samples
begin

text \<open>
  A consistency check of the model: its statements against its schema. The tables of \<^verbatim>\<open>store.go\<close> and \<^verbatim>\<open>relay.go\<close> are lists of
  rows, and each statement applies its constraints by hand; here a row is also a tuple of SQL values
  under the column names, and a \<open>table_def\<close> of \<^verbatim>\<open>schema.go\<close> says which tuples it admits:
  the declared columns, their types and NOT NULL, the CHECKs and the keys. Each \<open>INSERT\<close> of the model
  succeeds exactly on the rows that the migrated table admits, and the rows of an older schema level
  conform to the next.
\<close>

section \<open>SQL values\<close>

datatype 'j sql_value =
    VNull | VText string | VInt int | VFloat go_float | VBool bool | VTime gotime | VTags "string list" | VJson 'j

fun fits :: "sql_type \<Rightarrow> 'j sql_value \<Rightarrow> bool" where
  "fits TEXT (VText s) = True"
| "fits BIGINT (VInt n) = fits_i64 n"
| "fits INTEGER (VInt n) = (- i32_max - 1 \<le> n \<and> n \<le> i32_max)"
| "fits DOUBLE_PRECISION (VFloat x) = True"
| "fits BOOLEAN (VBool b) = True"
| "fits TIMESTAMPTZ (VTime t) = True"
| "fits JSONB (VTags ts) = True"
| "fits JSONB (VJson j) = True"
| "fits _ _ = False"

type_synonym 'j tuple = "(string \<times> 'j sql_value) list"

definition nullable :: "('a \<Rightarrow> 'j sql_value) \<Rightarrow> 'a option \<Rightarrow> 'j sql_value" where
  "nullable v x = (case x of None \<Rightarrow> VNull | Some y \<Rightarrow> v y)"

definition record_tuple :: "record_row \<Rightarrow> 'j tuple" where
  "record_tuple r =
    [(''memory_id'', VText (mr_memory_id r)), (''tenant_id'', VText (mr_tenant_id r)), (''user_id'', VText (mr_user_id r)),
     (''project_id'', nullable VText (mr_project_id r)), (''session_id'', nullable VText (mr_session_id r)),
     (''kind'', VText (mr_kind r)), (''source'', VText (mr_source r)), (''category'', VText (mr_category r)),
     (''content'', VText (mr_content r)), (''normalized_content_hash'', VText (mr_normalized_content_hash r)),
     (''tags'', nullable VTags (mr_tags r)), (''importance'', VFloat (mr_importance r)), (''pinned'', VBool (mr_pinned r)),
     (''disabled'', VBool (mr_disabled r)), (''deleted'', VBool (mr_deleted r)), (''version'', VInt (mr_version r)),
     (''created_at'', VTime (mr_created_at r)), (''updated_at'', VTime (mr_updated_at r)),
     (''deleted_at'', nullable VTime (mr_deleted_at r)), (''last_access_at'', nullable VTime (mr_last_access_at r)),
     (''hit_count'', VInt (mr_hit_count r)),
     (''consolidated_from_event_id'', nullable VText (mr_consolidated_from_event_id r))]"

definition event_tuple :: "'j event_row \<Rightarrow> 'j tuple" where
  "event_tuple e =
    [(''event_id'', VText (me_event_id e)), (''memory_id'', VText (me_memory_id e)), (''tenant_id'', VText (me_tenant_id e)),
     (''event_type'', VText (me_event_type e)), (''version'', VInt (me_version e)),
     (''idempotency_key'', nullable VText (me_idempotency_key e)), (''payload'', VJson (me_payload e)),
     (''created_at'', VTime (me_created_at e))]"

definition idem_tuple :: "'j idem_row \<Rightarrow> 'j tuple" where
  "idem_tuple i =
    [(''tenant_id'', VText (mi_tenant_id i)), (''idempotency_key'', VText (mi_idempotency_key i)),
     (''request_hash'', VText (mi_request_hash i)), (''memory_id'', nullable VText (mi_memory_id i)),
     (''response_snapshot'', VJson (mi_response_snapshot i)), (''created_at'', VTime (mi_created_at i)),
     (''expires_at'', nullable VTime (mi_expires_at i))]"

text \<open>An outbox row of the first schema level, without the lease columns, and of the head level.\<close>

definition outbox_tuple_v1 :: "'j outbox_row \<Rightarrow> 'j tuple" where
  "outbox_tuple_v1 r =
    [(''outbox_id'', VText (oe_outbox_id r)), (''aggregate_type'', VText (oe_aggregate_type r)),
     (''aggregate_id'', VText (oe_aggregate_id r)), (''tenant_id'', VText (oe_tenant_id r)),
     (''event_id'', VText (oe_event_id r)), (''event_type'', VText (oe_event_type r)), (''payload'', VJson (oe_payload r)),
     (''status'', VText (oe_status r)), (''attempt_count'', VInt (oe_attempt_count r)),
     (''created_at'', VTime (oe_created_at r)), (''sent_at'', nullable VTime (oe_sent_at r)),
     (''last_error'', nullable VText (oe_last_error r))]"

definition outbox_tuple :: "'j outbox_row \<Rightarrow> 'j tuple" where
  "outbox_tuple r = outbox_tuple_v1 r @
    [(''claimed_by'', nullable VText (oe_claimed_by r)), (''claimed_at'', nullable VTime (oe_claimed_at r)),
     (''lease_expires_at'', nullable VTime (oe_lease_expires_at r))]"

definition dedupe_tuple :: "dedupe_row \<Rightarrow> 'j tuple" where
  "dedupe_tuple d =
    [(''tenant_id'', VText (dd_tenant_id d)), (''dedupe_key'', VText (dd_dedupe_key d)),
     (''winner_memory_id'', VText (dd_winner_memory_id d)), (''created_at'', VTime (dd_created_at d))]"

section \<open>What a table admits\<close>

definition col_ok :: "column \<Rightarrow> 'j sql_value \<Rightarrow> bool" where
  "col_ok c v = (case v of VNull \<Rightarrow> \<not> col_not_null c | _ \<Rightarrow> fits (col_type c) v)"

text \<open>A CHECK that is NULL passes.\<close>

fun check_ok :: "'j tuple \<Rightarrow> table_constraint \<Rightarrow> bool" where
  "check_ok tup (CheckUnitInterval c) =
     (case map_of tup c of Some (VFloat x) \<Rightarrow> unit_interval x | Some VNull \<Rightarrow> True | _ \<Rightarrow> False)"
| "check_ok tup (CheckIn c vs) =
     (case map_of tup c of Some (VText s) \<Rightarrow> s \<in> set vs | Some VNull \<Rightarrow> True | _ \<Rightarrow> False)"
| "check_ok tup _ = True"

fun key_columns :: "table_constraint \<Rightarrow> string list option" where
  "key_columns (PrimaryKey cs) = Some cs"
| "key_columns (Unique cs) = Some cs"
| "key_columns _ = None"

definition key_of :: "string list \<Rightarrow> 'j tuple \<Rightarrow> 'j sql_value option list" where
  "key_of cs tup = map (map_of tup) cs"

definition row_conforms :: "table_def \<Rightarrow> 'j tuple \<Rightarrow> bool" where
  "row_conforms t tup \<longleftrightarrow> list_all2 (\<lambda>c (n, v). n = col_name c \<and> col_ok c v) (td_columns t) tup
     \<and> list_all (check_ok tup) (td_constraints t)"

text \<open>The keys of the schema have no nullable column, so equality of their values is equality in SQL.\<close>

definition keys_distinct :: "table_def \<Rightarrow> 'j tuple list \<Rightarrow> bool" where
  "keys_distinct t tups \<longleftrightarrow> list_all (\<lambda>k. case key_columns k of None \<Rightarrow> True
     | Some cs \<Rightarrow> distinct (map (key_of cs) tups)) (td_constraints t)"

definition table_conforms :: "table_def \<Rightarrow> 'j tuple list \<Rightarrow> bool" where
  "table_conforms t tups \<longleftrightarrow> list_all (row_conforms t) tups \<and> keys_distinct t tups"

text \<open>Postgres lets a row in beside the others when the row conforms and repeats no key.\<close>

definition admits :: "table_def \<Rightarrow> 'j tuple list \<Rightarrow> 'j tuple \<Rightarrow> bool" where
  "admits t tups tup \<longleftrightarrow> row_conforms t tup \<and> list_all (\<lambda>k. case key_columns k of None \<Rightarrow> True
     | Some cs \<Rightarrow> key_of cs tup \<notin> set (map (key_of cs) tups)) (td_constraints t)"

lemma table_conforms_snoc: "table_conforms t (tups @ [tup]) \<longleftrightarrow> table_conforms t tups \<and> admits t tups tup"
  by (auto simp: table_conforms_def keys_distinct_def admits_def list_all_iff split: option.splits)

lemma table_conforms_nil [simp]: "table_conforms t []"
  by (simp add: table_conforms_def keys_distinct_def list_all_iff split: option.split)

lemma col_ok_values [simp]:
  "col_ok c (VText x) \<longleftrightarrow> col_type c = TEXT" "col_ok c (VFloat f) \<longleftrightarrow> col_type c = DOUBLE_PRECISION"
  "col_ok c (VBool b) \<longleftrightarrow> col_type c = BOOLEAN" "col_ok c (VTime t) \<longleftrightarrow> col_type c = TIMESTAMPTZ"
  "col_ok c (VTags ts) \<longleftrightarrow> col_type c = JSONB" "col_ok c (VJson j) \<longleftrightarrow> col_type c = JSONB"
  "col_ok c VNull \<longleftrightarrow> \<not> col_not_null c"
  "col_type c = BIGINT \<Longrightarrow> col_ok c (VInt n) \<longleftrightarrow> fits_i64 n"
  "col_type c = INTEGER \<Longrightarrow> col_ok c (VInt n) \<longleftrightarrow> - i32_max - 1 \<le> n \<and> n \<le> i32_max"
  by (cases "col_type c"; simp add: col_ok_def)+

lemma col_ok_nullable [simp]:
  "col_ok c (nullable VText s) \<longleftrightarrow> (if s = None then \<not> col_not_null c else col_type c = TEXT)"
  "col_ok c (nullable VTime t) \<longleftrightarrow> (if t = None then \<not> col_not_null c else col_type c = TIMESTAMPTZ)"
  "col_ok c (nullable VTags ts) \<longleftrightarrow> (if ts = None then \<not> col_not_null c else col_type c = JSONB)"
  by (auto simp: nullable_def split: option.split)

lemmas conform_eval = row_conforms_def admits_def keys_distinct_def table_conforms_def key_of_def req_def opt_def dflt_def

section \<open>The rows of each table\<close>

lemma record_row_conforms:
  "row_conforms memory_record_table_v3 (record_tuple r) \<longleftrightarrow>
     mr_tags r \<noteq> None \<and> unit_interval (mr_importance r) \<and> mr_kind r \<in> set kinds_v3 \<and> mr_source r \<in> set sources_v1
     \<and> fits_i64 (mr_version r) \<and> fits_i64 (mr_hit_count r)"
  by (auto simp: conform_eval memory_record_table_v3_def memory_record_table_def record_tuple_def)

lemma event_row_conforms: "row_conforms memory_event_table (event_tuple e) \<longleftrightarrow> fits_i64 (me_version e)"
  by (simp add: conform_eval memory_event_table_def event_tuple_def)

lemma idem_row_conforms: "row_conforms memory_idempotency_table (idem_tuple i)"
  by (simp add: conform_eval memory_idempotency_table_def idem_tuple_def)

lemma outbox_row_conforms:
  "row_conforms outbox_event_table_v2 (outbox_tuple r) \<longleftrightarrow> - i32_max - 1 \<le> oe_attempt_count r \<and> oe_attempt_count r \<le> i32_max"
  by (simp add: conform_eval outbox_event_table_v2_def outbox_event_table_def outbox_tuple_def outbox_tuple_v1_def)

lemma dedupe_row_conforms: "row_conforms memory_dedupe_index_table (dedupe_tuple d)"
  by (simp add: conform_eval memory_dedupe_index_table_def dedupe_tuple_def)

section \<open>Inserts\<close>

lemma record_keys [simp]:
  "key_of [''memory_id''] (record_tuple r) = [Some (VText (mr_memory_id r))]"
  "key_of [''tenant_id'', ''memory_id''] (record_tuple r) = [Some (VText (mr_tenant_id r)), Some (VText (mr_memory_id r))]"
  by (simp_all add: key_of_def record_tuple_def)

lemma event_keys [simp]:
  "key_of [''event_id''] (event_tuple e) = [Some (VText (me_event_id e))]"
  "key_of [''memory_id'', ''version'', ''event_type''] (event_tuple e)
     = [Some (VText (me_memory_id e)), Some (VInt (me_version e)), Some (VText (me_event_type e))]"
  by (simp_all add: key_of_def event_tuple_def)

lemma other_keys [simp]:
  "key_of [''tenant_id'', ''idempotency_key''] (idem_tuple i) = [Some (VText (mi_tenant_id i)), Some (VText (mi_idempotency_key i))]"
  "key_of [''outbox_id''] (outbox_tuple r) = [Some (VText (oe_outbox_id r))]"
  "key_of [''tenant_id'', ''dedupe_key''] (dedupe_tuple d) = [Some (VText (dd_tenant_id d)), Some (VText (dd_dedupe_key d))]"
  by (simp_all add: key_of_def idem_tuple_def outbox_tuple_def outbox_tuple_v1_def dedupe_tuple_def)

lemma head_constraints [simp]:
  "td_constraints memory_record_table_v3 = [PrimaryKey [''memory_id''], Unique [''tenant_id'', ''memory_id''],
      CheckUnitInterval ''importance'', CheckIn ''source'' sources_v1, CheckIn ''kind'' kinds_v3]"
  "td_constraints memory_event_table = [PrimaryKey [''event_id''], Unique [''memory_id'', ''version'', ''event_type'']]"
  "td_constraints memory_idempotency_table = [PrimaryKey [''tenant_id'', ''idempotency_key'']]"
  "td_constraints outbox_event_table_v2 = [PrimaryKey [''outbox_id'']]"
  "td_constraints memory_dedupe_index_table = [PrimaryKey [''tenant_id'', ''dedupe_key'']]"
  by (simp_all add: memory_record_table_v3_def memory_event_table_def memory_idempotency_table_def
      outbox_event_table_v2_def outbox_event_table_def memory_dedupe_index_table_def)

lemmas admits_row = admits_def record_row_conforms event_row_conforms idem_row_conforms outbox_row_conforms dedupe_row_conforms

lemma record_insert_admits:
  assumes "fits_i64 (mr_version r)" and "fits_i64 (mr_hit_count r)"
  shows "admits memory_record_table_v3 (map record_tuple rows) (record_tuple r :: 'j tuple)
    \<longleftrightarrow> (\<exists>rows'. insert_memory_record r rows = Inr rows')"
  using assms by (auto simp: admits_row insert_memory_record_def image_iff)

lemma event_insert_admits:
  assumes "fits_i64 (me_version e)"
  shows "admits memory_event_table (map event_tuple rows) (event_tuple e) \<longleftrightarrow> (\<exists>rows'. insert_memory_event e rows = Inr rows')"
  using assms by (auto simp: admits_row insert_memory_event_def image_iff)

lemma idem_insert_admits:
  "admits memory_idempotency_table (map idem_tuple rows) (idem_tuple i) \<longleftrightarrow> (\<exists>rows'. insert_idempotency i rows = Inr rows')"
  by (auto simp: admits_row insert_idempotency_def idem_key_def image_iff)

lemma outbox_insert_admits:
  assumes "- i32_max - 1 \<le> oe_attempt_count r" and "oe_attempt_count r \<le> i32_max"
  shows "admits outbox_event_table_v2 (map outbox_tuple rows) (outbox_tuple r) \<longleftrightarrow> (\<exists>rows'. insert_outbox_event r rows = Inr rows')"
  using assms by (auto simp: admits_row insert_outbox_event_def image_iff)

lemma dedupe_insert_admits:
  "admits memory_dedupe_index_table (map dedupe_tuple rows) (dedupe_tuple d :: 'j tuple) \<longleftrightarrow> (\<exists>x. claim_dedupe d rows = Inr x)"
  by (auto simp: admits_row claim_dedupe_def dedupe_key_def image_iff)

section \<open>The migrated catalog\<close>

lemma head_tables:
  assumes "plain_prefix cfg"
  shows "find_table (catalog_v3 cfg) (memoryRecordTable cfg) = Some memory_record_table_v3"
    "find_table (catalog_v3 cfg) (memoryEventTable cfg) = Some memory_event_table"
    "find_table (catalog_v3 cfg) (idempotencyTable cfg) = Some memory_idempotency_table"
    "find_table (catalog_v3 cfg) (outboxTable cfg) = Some outbox_event_table_v2"
    "find_table (catalog_v3 cfg) (dedupeIndexTable cfg) = Some memory_dedupe_index_table"
  using assms by (simp_all add: find_table_def catalog_defs name_stems pg_ident_stem pg_fold_def byte_of_def is_upper_def)

lemma migrated_catalog:
  assumes "plain_prefix cfg" and "k \<le> 3" and "Migrate me cfg (schema_level cfg k) = (Inr (), cat)"
  shows "cat = catalog_v3 cfg"
  using Migrate_from_level [OF assms(1,2), of me] assms(3) schema_levels(4) [OF assms(1)]
  by (auto simp del: schema_level.simps)

text \<open>The statements match the schema. Once a migration has succeeded, from any schema level, under a
  prefix that Postgres keeps as it is: each \<open>INSERT\<close> of the store succeeds exactly when the table the
  migration leaves admits the row beside those already there, by the declared columns, types, NOT NULL,
  CHECK and key constraints of \<^verbatim>\<open>schema.go\<close> (the integers given being those their columns hold).\<close>

theorem inserts_match_schema:
  assumes "plain_prefix cfg" and "k \<le> 3" and "Migrate me cfg (schema_level cfg k) = (Inr (), cat)"
    and "fits_i64 (mr_version r)" and "fits_i64 (mr_hit_count r)" and "fits_i64 (me_version e)"
    and "0 \<le> oe_attempt_count ob" and "oe_attempt_count ob \<le> i32_max"
  shows "\<exists>rec_t ev_t idem_t out_t dedupe_t.
      find_table cat (memoryRecordTable cfg) = Some rec_t \<and> find_table cat (memoryEventTable cfg) = Some ev_t
    \<and> find_table cat (idempotencyTable cfg) = Some idem_t \<and> find_table cat (outboxTable cfg) = Some out_t
    \<and> find_table cat (dedupeIndexTable cfg) = Some dedupe_t
    \<and> (admits rec_t (map record_tuple recs) (record_tuple r :: 'j tuple) \<longleftrightarrow> (\<exists>rows. insert_memory_record r recs = Inr rows))
    \<and> (admits ev_t (map event_tuple evs) (event_tuple (e :: 'j event_row)) \<longleftrightarrow> (\<exists>rows. insert_memory_event e evs = Inr rows))
    \<and> (admits idem_t (map idem_tuple ids) (idem_tuple (i :: 'j idem_row)) \<longleftrightarrow> (\<exists>rows. insert_idempotency i ids = Inr rows))
    \<and> (admits out_t (map outbox_tuple obs) (outbox_tuple (ob :: 'j outbox_row)) \<longleftrightarrow> (\<exists>rows. insert_outbox_event ob obs = Inr rows))
    \<and> (admits dedupe_t (map dedupe_tuple dds) (dedupe_tuple d :: 'j tuple) \<longleftrightarrow> (\<exists>x. claim_dedupe d dds = Inr x))"
proof -
  have "- i32_max - 1 \<le> oe_attempt_count ob" using assms(7) by (simp add: i32_max_def)
  with assms(4-8) show ?thesis
    unfolding migrated_catalog [OF assms(1-3)]
    by (simp add: head_tables [OF assms(1)] record_insert_admits event_insert_admits idem_insert_admits
        outbox_insert_admits dedupe_insert_admits)
qed

lemma inserts_match_schema_witness:
  "let cat = snd (Migrate calm_migration \<lparr>TablePrefix = ''''\<rparr> empty_catalog);
       r = row_of_record (sample_record\<lparr>MemoryID := ''m1''\<rparr>) in
   \<exists>t. find_table cat ''memory_record'' = Some t \<and> admits t [] (record_tuple r :: doc tuple)
     \<and> \<not> admits t [record_tuple r] (record_tuple r :: doc tuple)"
proof -
  let ?cfg = "\<lparr>TablePrefix = ''''\<rparr>"
  let ?r = "row_of_record (sample_record\<lparr>MemoryID := ''m1''\<rparr>)"
  let ?e = "\<lparr>me_event_id = ''e1'', me_memory_id = ''m1'', me_tenant_id = ''ta'', me_event_type = eventTypeMemoryCreated, me_version = 1,
     me_idempotency_key = None, me_payload = DocOutbox (sample_message ''m1''), me_created_at = 0\<rparr> :: doc event_row"
  let ?o = "new_outbox_row (calm_env ''1'' 5) ''o1'' ''m1'' ''ta'' ''e1'' eventTypeMemoryCreated (DocOutbox (sample_message ''m1''))"
  have p: "plain_prefix ?cfg" by (simp add: plain_prefix_def)
  define cat where "cat = snd (Migrate calm_migration ?cfg empty_catalog)"
  have run: "Migrate calm_migration ?cfg (schema_level ?cfg 0) = (Inr (), cat)"
    using Migrate_calm_level [OF p, of 0] by (simp add: cat_def del: schema_level.simps(2))
  have name: "memoryRecordTable ?cfg = ''memory_record''" by (simp add: table_name_defs)
  have r: "fits_i64 (mr_version ?r)" "fits_i64 (mr_hit_count ?r)" by (simp_all add: sample_record_def)
  have o: "fits_i64 (me_version ?e)" "0 \<le> oe_attempt_count ?o" "oe_attempt_count ?o \<le> i32_max"
    by (simp_all add: new_outbox_row_def i32_max_def)
  have ins: "\<exists>rows. insert_memory_record ?r [] = Inr rows" "\<not> (\<exists>rows. insert_memory_record ?r [?r] = Inr rows)"
    by (simp_all add: insert_memory_record_def row_of_record_def sample_record_def nonNilTags_def unit_interval_def kinds_v3_def
        sources_v1_def)
  note m = inserts_match_schema [OF p _ run r o, where evs = "[]" and ids = "[]" and obs = "[]" and dds = "[]"
      and i = "\<lparr>mi_tenant_id = ''ta'', mi_idempotency_key = ''k'', mi_request_hash = ''h'', mi_memory_id = None,
                 mi_response_snapshot = DocOutbox (sample_message ''m1''), mi_created_at = 0, mi_expires_at = None\<rparr>"
      and d = "\<lparr>dd_tenant_id = ''ta'', dd_dedupe_key = ''dk'', dd_winner_memory_id = ''m1'', dd_created_at = 0\<rparr>", unfolded name]
  obtain t where t: "find_table cat ''memory_record'' = Some t" "admits t (map record_tuple []) (record_tuple ?r :: doc tuple)"
    using m [where recs = "[]"] ins(1) by blast
  obtain u where "find_table cat ''memory_record'' = Some u" "\<not> admits u (map record_tuple [?r]) (record_tuple ?r :: doc tuple)"
    using m [where recs = "[?r]"] ins(2) by blast
  with t show ?thesis unfolding cat_def [symmetric] by (simp add: Let_def)
qed

section \<open>Upgrades\<close>

text \<open>What \<open>ADD COLUMN\<close> makes of the outbox rows that are there: the new columns are NULL.\<close>

definition with_lease_columns :: "'j tuple \<Rightarrow> 'j tuple" where
  "with_lease_columns tup = tup @ [(''claimed_by'', VNull), (''claimed_at'', VNull), (''lease_expires_at'', VNull)]"

lemma kinds_grow: "set kinds_v1 \<subseteq> set kinds_v3"
  by (simp add: kinds_v1_def kinds_v3_def)

lemma check_in_mono: "set vs \<subseteq> set ws \<Longrightarrow> check_ok tup (CheckIn c vs) \<Longrightarrow> check_ok tup (CheckIn c ws)"
  by (auto split: option.splits sql_value.splits)

lemma first_level_tables:
  "td_columns memory_record_table_v3 = td_columns memory_record_table"
  "td_constraints memory_record_table = [PrimaryKey [''memory_id''], Unique [''tenant_id'', ''memory_id''],
      CheckUnitInterval ''importance'', CheckIn ''kind'' kinds_v1, CheckIn ''source'' sources_v1]"
  "td_columns outbox_event_table_v2 = td_columns outbox_event_table
      @ [opt ''claimed_by'' TEXT, opt ''claimed_at'' TIMESTAMPTZ, opt ''lease_expires_at'' TIMESTAMPTZ]"
  "td_constraints outbox_event_table = [PrimaryKey [''outbox_id'']]"
  by (simp_all add: memory_record_table_v3_def memory_record_table_def outbox_event_table_v2_def outbox_event_table_def)

lemma record_upgrade:
  assumes "table_conforms memory_record_table tups"
  shows "table_conforms memory_record_table_v3 tups"
proof -
  have "row_conforms memory_record_table_v3 tup" if "row_conforms memory_record_table tup" for tup :: "'a tuple"
    using that check_in_mono [OF kinds_grow, of tup "''kind''"]
    by (simp add: row_conforms_def first_level_tables del: check_ok.simps)
  then show ?thesis using assms by (simp add: table_conforms_def keys_distinct_def first_level_tables list_all_iff)
qed

lemma outbox_upgrade:
  assumes "table_conforms outbox_event_table tups"
  shows "table_conforms outbox_event_table_v2 (map with_lease_columns tups)"
proof -
  have cols: "list_all2 (\<lambda>c (n, v). n = col_name c \<and> col_ok c v) (td_columns outbox_event_table) tup" if "tup \<in> set tups" for tup
    using assms that by (simp add: table_conforms_def row_conforms_def list_all_iff)
  have "row_conforms outbox_event_table_v2 (with_lease_columns tup)" if "tup \<in> set tups" for tup
    using cols [OF that]
    by (simp add: row_conforms_def first_level_tables with_lease_columns_def opt_def list_all2_appendI)
  moreover have "key_of [''outbox_id''] (with_lease_columns tup) = key_of [''outbox_id''] tup" if "tup \<in> set tups" for tup
    using cols [OF that]
    by (auto simp: key_of_def with_lease_columns_def outbox_event_table_def list_all2_Cons1 req_def dflt_def opt_def)
  then have "map (key_of [''outbox_id'']) (map with_lease_columns tups) = map (key_of [''outbox_id'']) tups" by simp
  then have "distinct (map (key_of [''outbox_id'']) (map with_lease_columns tups)) = distinct (map (key_of [''outbox_id'']) tups)"
    by (rule arg_cong)
  moreover have "distinct (map (key_of [''outbox_id'']) tups)"
    using assms by (simp add: table_conforms_def keys_distinct_def first_level_tables)
  ultimately show ?thesis by (simp add: table_conforms_def keys_distinct_def list_all_iff)
qed

lemma first_level_found:
  assumes "plain_prefix cfg"
  shows "find_table (schema_level cfg 1) (memoryRecordTable cfg) = Some memory_record_table"
    "find_table (schema_level cfg 1) (outboxTable cfg) = Some outbox_event_table"
proof -
  have "schema_level cfg 1 = catalog_v1 cfg" using schema_levels(2) [OF assms] by (simp only: One_nat_def)
  with assms show "find_table (schema_level cfg 1) (memoryRecordTable cfg) = Some memory_record_table"
    "find_table (schema_level cfg 1) (outboxTable cfg) = Some outbox_event_table"
    by (simp_all add: find_table_def catalog_defs name_stems pg_ident_stem pg_fold_def byte_of_def is_upper_def)
qed

text \<open>An upgrade loses no row. Rows that satisfied the record and outbox tables of the first schema level
  satisfy those of the head level: the widened kind constraint, which Postgres checks against every row
  when it is added, admits whatever the old one did, and the added lease columns are NULL, which they
  may be.\<close>

theorem upgrade_keeps_rows:
  assumes "plain_prefix cfg"
    and "find_table (schema_level cfg 1) (memoryRecordTable cfg) = Some rec1" and "table_conforms rec1 recs"
    and "find_table (schema_level cfg 1) (outboxTable cfg) = Some out1" and "table_conforms out1 outs"
  shows "\<exists>rec3 out3. find_table (schema_level cfg 3) (memoryRecordTable cfg) = Some rec3 \<and> table_conforms rec3 recs
    \<and> find_table (schema_level cfg 3) (outboxTable cfg) = Some out3 \<and> table_conforms out3 (map with_lease_columns outs)"
proof -
  have "rec1 = memory_record_table" "out1 = outbox_event_table"
    using first_level_found [OF assms(1)] assms(2,4) by simp_all
  with record_upgrade [of recs] outbox_upgrade [of outs] assms(3,5) show ?thesis
    by (simp add: schema_levels [OF assms(1)] head_tables [OF assms(1)] del: schema_level.simps)
qed

lemma upgrade_keeps_rows_witness:
  "let r = row_of_record (sample_record\<lparr>MemoryID := ''m1'', Kind := ''episodic''\<rparr>) in
   \<exists>rec3. find_table (schema_level \<lparr>TablePrefix = ''''\<rparr> 3) ''memory_record'' = Some rec3
     \<and> table_conforms rec3 [record_tuple r :: doc tuple]"
proof -
  let ?cfg = "\<lparr>TablePrefix = ''''\<rparr>"
  let ?r = "row_of_record (sample_record\<lparr>MemoryID := ''m1'', Kind := ''episodic''\<rparr>)"
  have p: "plain_prefix ?cfg" by (simp add: plain_prefix_def)
  have names: "memoryRecordTable ?cfg = ''memory_record''" "outboxTable ?cfg = ''outbox_event''"
    by (simp_all add: table_name_defs)
  have t: "find_table (schema_level ?cfg 1) (memoryRecordTable ?cfg) = Some memory_record_table"
    "find_table (schema_level ?cfg 1) (outboxTable ?cfg) = Some outbox_event_table"
    using first_level_found [OF p] by simp_all
  have "table_conforms memory_record_table [record_tuple ?r :: doc tuple]"
    by (simp add: conform_eval memory_record_table_def record_tuple_def row_of_record_def sample_record_def nullableString_def
        nonNilTags_def unit_interval_def kinds_v1_def sources_v1_def fits_i64_def i64_max_def i64_min_def)
  from upgrade_keeps_rows [OF p t(1) this t(2) table_conforms_nil] show ?thesis
    unfolding names Let_def by blast
qed

end
