(* ===== verification/ConformUpdate.thy ===== *)
theory ConformUpdate
  imports Conform Relay
begin

text \<open>
  A consistency check of the model: its \<open>UPDATE\<close>s against its schema. Those whose columns are constrained succeed exactly when the rows
  they would leave conform to the migrated table.
\<close>

lemma update_conforms:
  assumes "table_conforms t (map tup rows)"
    and keys: "\<And>k cs r. k \<in> set (td_constraints t) \<Longrightarrow> key_columns k = Some cs \<Longrightarrow> p r \<Longrightarrow> key_of cs (tup (f r)) = key_of cs (tup r)"
  shows "table_conforms t (map tup (update_where p f rows)) \<longleftrightarrow> (\<forall>r\<in>set rows. p r \<longrightarrow> row_conforms t (tup (f r)))"
proof -
  have "map (key_of cs) (map tup (update_where p f rows)) = map (key_of cs) (map tup rows)"
    if "k \<in> set (td_constraints t)" "key_columns k = Some cs" for k cs
    using keys [OF that] by (simp add: update_where_def)
  then have "distinct (map (key_of cs) (map tup (update_where p f rows)))"
    if "k \<in> set (td_constraints t)" "key_columns k = Some cs" for k cs
    using assms(1) that by (auto simp: table_conforms_def keys_distinct_def list_all_iff simp del: map_map)
  then have "keys_distinct t (map tup (update_where p f rows))"
    by (auto simp: keys_distinct_def list_all_iff split: option.split simp del: map_map)
  then show ?thesis
    using assms(1) by (auto simp: table_conforms_def list_all_iff set_update_where)
qed

lemma conforming_record:
  "table_conforms memory_record_table_v3 (map record_tuple rows :: 'j tuple list) \<Longrightarrow> r \<in> set rows \<Longrightarrow>
     mr_tags r \<noteq> None \<and> unit_interval (mr_importance r) \<and> mr_kind r \<in> set kinds_v3 \<and> mr_source r \<in> set sources_v1
     \<and> fits_i64 (mr_version r) \<and> fits_i64 (mr_hit_count r)"
  by (metis record_row_conforms table_conforms_def list_all_iff imageI list.set_map)

lemma conforming_outbox:
  "table_conforms outbox_event_table_v2 (map outbox_tuple rows) \<Longrightarrow> r \<in> set rows \<Longrightarrow>
     - i32_max - 1 \<le> oe_attempt_count r \<and> oe_attempt_count r \<le> i32_max"
  by (simp add: table_conforms_def list_all_iff outbox_row_conforms)

lemma record_update_conforms:
  assumes "table_conforms memory_record_table_v3 (map record_tuple rows :: 'j tuple list)"
    and "\<And>r. mr_memory_id (f r) = mr_memory_id r \<and> mr_tenant_id (f r) = mr_tenant_id r"
  shows "table_conforms memory_record_table_v3 (map record_tuple (update_where p f rows) :: 'j tuple list)
    \<longleftrightarrow> (\<forall>r\<in>set rows. p r \<longrightarrow> row_conforms memory_record_table_v3 (record_tuple (f r) :: 'j tuple))"
  by (rule update_conforms [OF assms(1)]) (use assms(2) in auto)

lemma mutated_conforms:
  assumes "table_conforms memory_record_table_v3 (map record_tuple rows :: 'j tuple list)" and "fits_i64 (Version cur)"
  shows "table_conforms memory_record_table_v3 (map record_tuple (update_where (guarded t m v) (set_mutated cur) rows) :: 'j tuple list)
    \<longleftrightarrow> (\<exists>n rows'. update_mutated cur t m v rows = Inr (n, rows'))"
proof -
  have "row_conforms memory_record_table_v3 (record_tuple (set_mutated cur r) :: 'j tuple) \<longleftrightarrow> Tags cur \<noteq> None \<and> unit_interval (Importance cur)"
    if "r \<in> set rows" for r
    using conforming_record [OF assms(1) that] assms(2) by (simp add: record_row_conforms set_mutated_def)
  then show ?thesis
    by (subst record_update_conforms [OF assms(1)]) (auto simp: mutated.setter_id update_mutated_def count_where_0)
qed

lemma promoted_conforms:
  assumes "table_conforms memory_record_table_v3 (map record_tuple rows :: 'j tuple list)" and "fits_i64 (Version cur)"
  shows "table_conforms memory_record_table_v3 (map record_tuple (update_where (guarded t m v) (set_promoted cur) rows) :: 'j tuple list)
    \<longleftrightarrow> (\<exists>n rows'. update_promoted cur t m v rows = Inr (n, rows'))"
proof -
  have "row_conforms memory_record_table_v3 (record_tuple (set_promoted cur r) :: 'j tuple) \<longleftrightarrow> Kind cur \<in> set kinds_v3"
    if "r \<in> set rows" for r
    using conforming_record [OF assms(1) that] assms(2) by (simp add: record_row_conforms set_promoted_def)
  then show ?thesis
    by (subst record_update_conforms [OF assms(1)]) (auto simp: promoted.setter_id update_promoted_def count_where_0)
qed

lemma access_conforms:
  assumes "table_conforms memory_record_table_v3 (map record_tuple rows :: 'j tuple list)"
  shows "table_conforms memory_record_table_v3 (map record_tuple (update_where (\<lambda>r. mr_tenant_id r = t \<and> mr_memory_id r \<in> set ids)
      (\<lambda>r. r\<lparr>mr_last_access_at := Some (pg_time a), mr_hit_count := mr_hit_count r + 1\<rparr>) rows) :: 'j tuple list)
    \<longleftrightarrow> (\<exists>rows'. update_access a t ids rows = Inr rows')"
proof -
  have "row_conforms memory_record_table_v3
      (record_tuple (r\<lparr>mr_last_access_at := Some (pg_time a), mr_hit_count := mr_hit_count r + 1\<rparr>) :: 'j tuple)
    \<longleftrightarrow> \<not> i64_max \<le> mr_hit_count r" if "r \<in> set rows" for r
    using conforming_record [OF assms that] by (auto simp: record_row_conforms fits_i64_def)
  then show ?thesis
    by (subst record_update_conforms [OF assms]) (auto simp: update_access_def Let_def)
qed

lemma claimed_conforms:
  assumes "table_conforms outbox_event_table_v2 (map outbox_tuple rows)"
  shows "table_conforms outbox_event_table_v2 (map outbox_tuple (update_where (\<lambda>r. oe_outbox_id r \<in> set ids) (claimed_row w t ms) rows))
    \<longleftrightarrow> (\<exists>rows'. update_claimed w t ms ids rows = Inr rows')"
proof -
  have "row_conforms outbox_event_table_v2 (outbox_tuple (claimed_row w t ms r)) \<longleftrightarrow> \<not> i32_max \<le> oe_attempt_count r"
    if "r \<in> set rows" for r
    using conforming_outbox [OF assms that] by (auto simp: outbox_row_conforms claimed_row_def)
  moreover have "table_conforms outbox_event_table_v2 (map outbox_tuple (update_where (\<lambda>r. oe_outbox_id r \<in> set ids) (claimed_row w t ms) rows))
    \<longleftrightarrow> (\<forall>r\<in>set rows. oe_outbox_id r \<in> set ids \<longrightarrow> row_conforms outbox_event_table_v2 (outbox_tuple (claimed_row w t ms r)))"
    by (rule update_conforms [OF assms]) (auto simp: claimed_row_def)
  ultimately show ?thesis by (auto simp: update_claimed_def Let_def)
qed

text \<open>The updates match the schema. On tables that conform to the migrated catalog, each \<open>UPDATE\<close> that
  sets constrained columns (of a mutation, of a promotion, of the access counters and of a claim) succeeds
  exactly when the rows it would leave conform again: a missing tag list, an importance outside the unit
  interval, an unknown kind, and a counter at the end of its column's range are refused, and nothing else
  is.\<close>

theorem updates_match_schema:
  assumes "plain_prefix cfg" and "k \<le> 3" and "Migrate me cfg (schema_level cfg k) = (Inr (), cat)"
    and "find_table cat (memoryRecordTable cfg) = Some rec_t" and "find_table cat (outboxTable cfg) = Some out_t"
    and "table_conforms rec_t (map record_tuple recs :: 'j tuple list)" and "table_conforms out_t (map outbox_tuple (obs :: 'j outbox_row list))"
    and "fits_i64 (Version cur)"
  shows "((\<exists>n recs'. update_mutated cur t m v recs = Inr (n, recs'))
        \<longleftrightarrow> table_conforms rec_t (map record_tuple (update_where (guarded t m v) (set_mutated cur) recs) :: 'j tuple list))
    \<and> ((\<exists>n recs'. update_promoted cur t m v recs = Inr (n, recs'))
        \<longleftrightarrow> table_conforms rec_t (map record_tuple (update_where (guarded t m v) (set_promoted cur) recs) :: 'j tuple list))
    \<and> ((\<exists>recs'. update_access a t ids recs = Inr recs')
        \<longleftrightarrow> table_conforms rec_t (map record_tuple (update_where (\<lambda>r. mr_tenant_id r = t \<and> mr_memory_id r \<in> set ids)
              (\<lambda>r. r\<lparr>mr_last_access_at := Some (pg_time a), mr_hit_count := mr_hit_count r + 1\<rparr>) recs) :: 'j tuple list))
    \<and> ((\<exists>obs'. update_claimed w tm ms oids obs = Inr obs')
        \<longleftrightarrow> table_conforms out_t (map outbox_tuple (update_where (\<lambda>r. oe_outbox_id r \<in> set oids) (claimed_row w tm ms) obs)))"
proof -
  have t: "rec_t = memory_record_table_v3" "out_t = outbox_event_table_v2"
    using assms(4,5) head_tables [OF assms(1)] unfolding migrated_catalog [OF assms(1-3)] by simp_all
  note c = assms(6,7) [unfolded t]
  show ?thesis
    unfolding t using mutated_conforms [OF c(1) assms(8)] promoted_conforms [OF c(1) assms(8)] access_conforms [OF c(1)]
      claimed_conforms [OF c(2)] by simp
qed

lemma updates_match_schema_witness:
  "let r = (row_of_record (sample_record\<lparr>MemoryID := ''m1'', TenantID := ''ta''\<rparr>))\<lparr>mr_hit_count := i64_max\<rparr>;
       r' = r\<lparr>mr_last_access_at := Some (pg_time 9000), mr_hit_count := i64_max + 1\<rparr> in
   \<exists>t. find_table (snd (Migrate calm_migration \<lparr>TablePrefix = ''''\<rparr> empty_catalog)) ''memory_record'' = Some t
     \<and> table_conforms t [record_tuple r :: doc tuple] \<and> \<not> table_conforms t [record_tuple r' :: doc tuple]"
proof -
  let ?cfg = "\<lparr>TablePrefix = ''''\<rparr>"
  let ?r = "(row_of_record (sample_record\<lparr>MemoryID := ''m1'', TenantID := ''ta''\<rparr>))\<lparr>mr_hit_count := i64_max\<rparr>"
  have p: "plain_prefix ?cfg" by (simp add: plain_prefix_def)
  define cat where "cat = snd (Migrate calm_migration ?cfg empty_catalog)"
  have run: "Migrate calm_migration ?cfg (schema_level ?cfg 0) = (Inr (), cat)"
    using Migrate_calm_level [OF p, of 0] by (simp add: cat_def del: schema_level.simps(2))
  have names: "memoryRecordTable ?cfg = ''memory_record''" by (simp add: table_name_defs)
  have f: "find_table cat (memoryRecordTable ?cfg) = Some memory_record_table_v3" "find_table cat (outboxTable ?cfg) = Some outbox_event_table_v2"
    using head_tables [OF p] migrated_catalog [OF p _ run] by simp_all
  have "row_conforms memory_record_table_v3 (record_tuple ?r :: doc tuple)"
    by (simp add: record_row_conforms row_of_record_def sample_record_def nonNilTags_def unit_interval_def kinds_v3_def
        sources_v1_def fits_i64_def i64_max_def i64_min_def)
  then have c: "table_conforms memory_record_table_v3 (map record_tuple [?r] :: doc tuple list)"
    by (simp add: table_conforms_def keys_distinct_def)
  have "\<not> (\<exists>recs'. update_access 9000 ''ta'' [''m1''] [?r] = Inr recs')"
    by (simp add: update_access_def row_of_record_def sample_record_def)
  then have "\<not> table_conforms memory_record_table_v3 (map record_tuple (update_where (\<lambda>r. mr_tenant_id r = ''ta'' \<and> mr_memory_id r \<in> set [''m1''])
      (\<lambda>r. r\<lparr>mr_last_access_at := Some (pg_time 9000), mr_hit_count := mr_hit_count r + 1\<rparr>) [?r]) :: doc tuple list)"
    using updates_match_schema [OF p _ run f c, where obs = "[] :: doc outbox_row list" and cur = sample_record
        and t = "''ta''" and ids = "[''m1'']" and a = 9000]
    by (simp add: sample_record_def fits_i64_def i64_max_def i64_min_def table_conforms_def keys_distinct_def)
  with c f(1) names show ?thesis
    unfolding cat_def [symmetric] Let_def by (simp add: update_where_def row_of_record_def sample_record_def)
qed

end
