(* ===== verification/MigrationDirect.thy ===== *)
theory MigrationDirect
  imports Migration
begin

text \<open>
  The direct runner of \<^verbatim>\<open>schema.go\<close>, for groups Postgres refuses inside a transaction. Without a
  rollback a failed run leaves some statements applied, so the statements have to bear being run again:
  here that is shown of every statement of the schema, and with it that a group run directly is completed
  by the next run, wherever the runs before it stopped.
\<close>

section \<open>Statements that bear being repeated\<close>

text \<open>A statement is done in a catalog that it leaves as it is.\<close>

definition done_in :: "catalog \<Rightarrow> ddl \<Rightarrow> bool" where
  "done_in cat d \<longleftrightarrow> exec_ddl d cat = Inr cat"

text \<open>Two replacements of a kind constraint would undo each other unless they ask for the same kinds.\<close>

fun agree :: "ddl \<Rightarrow> ddl \<Rightarrow> bool" where
  "agree (ReplaceKindCheck n ks) (ReplaceKindCheck m ks') = (ks = ks')"
| "agree _ _ = True"

definition kinds_agree :: "ddl list \<Rightarrow> bool" where
  "kinds_agree ds \<longleftrightarrow> (\<forall>d\<in>set ds. \<forall>e\<in>set ds. agree d e)"

lemma map_of_set_table:
  "map_of (map (\<lambda>(m, u). if m = k then (m, t) else (m, u)) ts) n
     = (if n = k then map_option (\<lambda>_. t) (map_of ts n) else map_of ts n)"
  by (induction ts) auto

lemma find_set_table:
  "find_table (set_table n t cat) m
     = (if pg_ident m = pg_ident n then map_option (\<lambda>_. t) (find_table cat m) else find_table cat m)"
  by (simp add: find_table_def set_table_def map_of_set_table)

lemma set_table_simps [simp]:
  "map fst (tables (set_table n t cat)) = map fst (tables cat)" "indexes (set_table n t cat) = indexes cat"
  "relation_exists (set_table n t cat) m = relation_exists cat m"
  "set_table n u (set_table n t cat) = set_table n u cat"
  by (auto simp: set_table_def relation_exists_def fst_set_table [unfolded set_table_def, simplified] image_iff split: prod.splits)

lemma find_none_absent: "find_table cat n = None \<longleftrightarrow> pg_ident n \<notin> fst ` set (tables cat)"
  by (simp add: find_table_def map_of_eq_None_iff)

lemma same_table: "pg_ident n = pg_ident m \<Longrightarrow> find_table cat n = find_table cat m"
  by (simp add: find_table_def)

lemma appended [simp]:
  "find_table (cat\<lparr>tables := tables cat @ [(pg_ident n, t)]\<rparr>) m
     = (case find_table cat m of Some u \<Rightarrow> Some u | None \<Rightarrow> if pg_ident m = pg_ident n then Some t else None)"
  "relation_exists (cat\<lparr>tables := tables cat @ [(pg_ident n, t)]\<rparr>) m \<longleftrightarrow> relation_exists cat m \<or> pg_ident m = pg_ident n"
  "find_table (cat\<lparr>indexes := is\<rparr>) m = find_table cat m"
  "relation_exists (cat\<lparr>indexes := indexes cat @ [pg_ident n]\<rparr>) m \<longleftrightarrow> relation_exists cat m \<or> pg_ident m = pg_ident n"
  by (auto simp: find_table_def relation_exists_def map_add_def split: option.split)

definition rekind :: "string list \<Rightarrow> table_def \<Rightarrow> table_def" where
  "rekind ks t = t\<lparr>td_constraints := filter (\<lambda>k. \<not> check_mentions ''kind'' k) (td_constraints t) @ [CheckIn ''kind'' ks]\<rparr>"

lemma rekind_idem [simp]: "rekind ks (rekind ks t) = rekind ks t"
proof -
  have "map pg_fold ''kind'' = ''kind''" by (simp add: pg_fold_def is_upper_def byte_of_def)
  then show ?thesis by (simp add: rekind_def prefix_def)
qed

lemma set_table_id: "set_table n u cat = cat \<longleftrightarrow> (\<forall>(m, x)\<in>set (tables cat). m = pg_ident n \<longrightarrow> x = u)"
proof -
  have "set_table n u cat = cat \<longleftrightarrow> map (\<lambda>(m, x). if m = pg_ident n then (m, u) else (m, x)) (tables cat) = tables cat"
    by (cases cat) (simp add: set_table_def)
  also have "\<dots> \<longleftrightarrow> (\<forall>(m, x)\<in>set (tables cat). m = pg_ident n \<longrightarrow> x = u)"
    using map_eq_conv [of "\<lambda>(m, x). if m = pg_ident n then (m, u) else (m, x)" "tables cat" id] by auto
  finally show ?thesis .
qed

text \<open>What a done statement has left behind.\<close>

lemma done_in_simps:
  "done_in cat (CreateTable n t) \<longleftrightarrow> ident_start_ok n \<and> relation_exists cat n"
  "done_in cat (CreateIndex i n keys p) \<longleftrightarrow> ident_start_ok i \<and> ident_start_ok n \<and> relation_exists cat i
     \<and> (\<exists>t. find_table cat n = Some t \<and> (\<forall>k\<in>set keys. fst k \<in> set (column_names t)))"
  "done_in cat (AddColumn n c) \<longleftrightarrow> ident_start_ok n \<and> (\<exists>t. find_table cat n = Some t \<and> col_name c \<in> set (column_names t))"
  "done_in cat (ReplaceKindCheck n ks) \<longleftrightarrow> ident_start_ok n
     \<and> (\<exists>t. find_table cat n = Some t \<and> set_table n (rekind ks t) cat = cat)"
  "done_in cat (CommentOnColumn n f x) \<longleftrightarrow> ident_start_ok n \<and> (\<exists>t. find_table cat n = Some t \<and> f \<in> set (column_names t))"
proof -
  have grown: "cat\<lparr>tables := tables cat @ [x]\<rparr> \<noteq> cat" "cat\<lparr>indexes := indexes cat @ [y]\<rparr> \<noteq> cat" for x y
    by (cases cat, simp)+
  have added: "set_table n (t\<lparr>td_columns := td_columns t @ [c]\<rparr>) cat \<noteq> cat" if "find_table cat n = Some t" for n t c
  proof
    assume "set_table n (t\<lparr>td_columns := td_columns t @ [c]\<rparr>) cat = cat"
    with find_set_table [of n "t\<lparr>td_columns := td_columns t @ [c]\<rparr>" cat n] that
    have "t = t\<lparr>td_columns := td_columns t @ [c]\<rparr>" by simp
    from arg_cong [OF this, of td_columns] show False by simp
  qed
  show "done_in cat (CreateTable n t) \<longleftrightarrow> ident_start_ok n \<and> relation_exists cat n"
    using grown by (auto simp: done_in_def exec_ddl_def)
  show "done_in cat (CreateIndex i n keys p) \<longleftrightarrow> ident_start_ok i \<and> ident_start_ok n \<and> relation_exists cat i
     \<and> (\<exists>t. find_table cat n = Some t \<and> (\<forall>k\<in>set keys. fst k \<in> set (column_names t)))"
    using grown by (auto simp: done_in_def exec_ddl_def split: option.splits)
  show "done_in cat (AddColumn n c) \<longleftrightarrow> ident_start_ok n \<and> (\<exists>t. find_table cat n = Some t \<and> col_name c \<in> set (column_names t))"
    using added by (auto simp: done_in_def exec_ddl_def split: option.splits)
  show "done_in cat (ReplaceKindCheck n ks) \<longleftrightarrow> ident_start_ok n
     \<and> (\<exists>t. find_table cat n = Some t \<and> set_table n (rekind ks t) cat = cat)"
    by (auto simp: done_in_def exec_ddl_def rekind_def split: option.splits)
  show "done_in cat (CommentOnColumn n f x) \<longleftrightarrow> ident_start_ok n \<and> (\<exists>t. find_table cat n = Some t \<and> f \<in> set (column_names t))"
    by (auto simp: done_in_def exec_ddl_def split: option.splits)
qed

text \<open>A statement that goes through is done, and what was there stays: relations, and the columns of tables.\<close>

lemma grows:
  assumes "exec_ddl e cat = Inr cat'"
  shows "relation_exists cat n \<Longrightarrow> relation_exists cat' n"
    and "find_table cat n = Some t \<Longrightarrow> \<exists>t'. find_table cat' n = Some t' \<and> set (column_names t) \<subseteq> set (column_names t')"
proof -
  show "relation_exists cat n \<Longrightarrow> relation_exists cat' n"
    using assms by (cases e) (auto simp: exec_ddl_def split: if_splits option.splits)
  show "find_table cat n = Some t \<Longrightarrow> \<exists>t'. find_table cat' n = Some t' \<and> set (column_names t) \<subseteq> set (column_names t')"
    using assms by (cases e) (auto simp: exec_ddl_def find_set_table column_names_def dest!: same_table [of _ _ cat] split: if_splits option.splits)
qed

lemma exec_done:
  assumes "exec_ddl d cat = Inr cat'"
  shows "done_in cat' d"
  using assms
  by (cases d) (auto simp: exec_ddl_def done_in_simps find_set_table column_names_def rekind_def [symmetric]
      split: if_splits option.splits)

text \<open>What is done stays done, whatever compatible statement follows.\<close>

lemma rekind_columns: "rekind ks t = t \<Longrightarrow> rekind ks (t\<lparr>td_columns := cs\<rparr>) = t\<lparr>td_columns := cs\<rparr>"
  by (cases t) (simp add: rekind_def)

lemma retabled:
  assumes "find_table cat n = Some t" and "rekind ks t = t" and "set_table n t cat = cat"
    and "pg_ident n = pg_ident m \<Longrightarrow> rekind ks w = w"
  shows "\<exists>t'. find_table (set_table m w cat) n = Some t' \<and> set_table n (rekind ks t') (set_table m w cat) = set_table m w cat"
proof (cases "pg_ident n = pg_ident m")
  case True
  then have "set_table n = set_table m" by (simp add: set_table_def fun_eq_iff)
  then show ?thesis using True assms(1,4) by (simp add: find_set_table)
next
  case False
  have "set_table n t (set_table m w cat) = set_table m w cat"
    using assms(3) False unfolding set_table_id by (auto simp: set_table_def split: if_splits)
  then show ?thesis using False assms(1,2) by (simp add: find_set_table)
qed

lemma rekind_stays:
  assumes "find_table cat n = Some t" and "set_table n (rekind ks t) cat = cat" and "exec_ddl e cat = Inr cat'"
    and "agree (ReplaceKindCheck n ks) e"
  shows "\<exists>t'. find_table cat' n = Some t' \<and> set_table n (rekind ks t') cat' = cat'"
proof -
  have t: "rekind ks t = t" using arg_cong [OF assms(2), of "\<lambda>c. find_table c n"] assms(1) by (simp add: find_set_table)
  note id = assms(2) [unfolded t]
  show ?thesis
  proof (cases e)
    case (CreateTable m u)
    have "pg_ident n \<in> fst ` set (tables cat)" using assms(1) find_none_absent [of cat n] by simp
    then show ?thesis
      using CreateTable assms(1,3) t id
      by (auto simp: exec_ddl_def set_table_id relation_exists_def simp del: set_map split: if_splits) force+
  next
    case (CreateIndex i m keys p)
    then show ?thesis using assms(1,3) t id by (auto simp: exec_ddl_def set_table_id split: if_splits option.splits)
  next
    case (AddColumn m c)
    then obtain v where v: "find_table cat m = Some v" "cat' = cat \<or> cat' = set_table m (v\<lparr>td_columns := td_columns v @ [c]\<rparr>) cat"
      using assms(3) by (auto simp: exec_ddl_def split: if_splits option.splits)
    have "pg_ident n = pg_ident m \<Longrightarrow> rekind ks (v\<lparr>td_columns := td_columns v @ [c]\<rparr>) = v\<lparr>td_columns := td_columns v @ [c]\<rparr>"
      using same_table [of n m cat] assms(1) v(1) t by (simp add: rekind_columns)
    from v(2) retabled [OF assms(1) t id this] assms(1,2) show ?thesis by blast
  next
    case (ReplaceKindCheck m ks')
    then obtain v where v: "cat' = set_table m (rekind ks v) cat"
      using assms(3,4) by (auto simp: exec_ddl_def rekind_def split: if_splits option.splits)
    show ?thesis unfolding v by (rule retabled [OF assms(1) t id]) simp
  next
    case (CommentOnColumn m c x)
    then show ?thesis using assms(1-3) by (auto simp: exec_ddl_def split: if_splits option.splits)
  qed
qed

lemma done_stays:
  assumes "done_in cat d" and "exec_ddl e cat = Inr cat'" and "agree d e"
  shows "done_in cat' d"
proof (cases d)
  case (ReplaceKindCheck n ks)
  with assms rekind_stays [of cat n _ ks e cat'] show ?thesis by (auto simp: done_in_simps)
next
  case (CreateTable n t)
  with assms grows(1) [OF assms(2)] show ?thesis by (auto simp: done_in_simps)
next
  case (CreateIndex i n keys p)
  with assms(1) obtain t where t: "find_table cat n = Some t" "\<forall>k\<in>set keys. fst k \<in> set (column_names t)"
    by (auto simp: done_in_simps)
  with grows(2) [OF assms(2) t(1)] grows(1) [OF assms(2)] assms(1) CreateIndex show ?thesis by (force simp: done_in_simps)
next
  case (AddColumn n c)
  with assms(1) grows(2) [OF assms(2)] show ?thesis by (force simp: done_in_simps)
next
  case (CommentOnColumn n c x)
  with assms(1) grows(2) [OF assms(2)] show ?thesis by (force simp: done_in_simps)
qed

section \<open>Interrupted runs\<close>

abbreviation calm_stmts :: "ddl list \<Rightarrow> catalog \<Rightarrow> pg_error option \<times> catalog" where
  "calm_stmts ds cat \<equiv> exec_stmts (\<lambda>_. Committed) 0 ds cat"

lemma calm_index: "exec_stmts (\<lambda>_. Committed) i ds cat = exec_stmts (\<lambda>_. Committed) j ds cat"
proof (induction ds arbitrary: i j cat)
  case (Cons d ds)
  from Cons.IH [of "Suc i" _ "Suc j"] show ?case by (simp add: answered_def split: sum.split)
qed simp

lemma calm_Suc [simp]: "exec_stmts (\<lambda>_. Committed) (Suc i) ds cat = exec_stmts (\<lambda>_. Committed) i ds cat"
  by (rule calm_index)

lemma calm_append: "calm_stmts (ps @ qs) cat = (case calm_stmts ps cat of (Some e, c) \<Rightarrow> (Some e, c) | (None, c) \<Rightarrow> calm_stmts qs c)"
  using calm_index [of "length ps" qs _ 0] by (simp add: exec_stmts_append split: prod.split option.split)

text \<open>Statements that are done are passed over, unless one of them is interrupted again.\<close>

lemma done_passed:
  assumes "\<forall>d\<in>set ps. done_in cat d"
  shows "(\<exists>e. exec_stmts f i (ps @ qs) cat = (Some e, cat)) \<or> exec_stmts f i (ps @ qs) cat = exec_stmts f (i + length ps) qs cat"
    and "calm_stmts (ps @ qs) cat = calm_stmts qs cat"
proof -
  show "(\<exists>e. exec_stmts f i (ps @ qs) cat = (Some e, cat)) \<or> exec_stmts f i (ps @ qs) cat = exec_stmts f (i + length ps) qs cat"
    using assms
  proof (induction ps arbitrary: i)
    case (Cons d ps)
    then have "exec_ddl d cat = Inr cat" by (simp add: done_in_def)
    with Cons.IH [of "Suc i"] Cons.prems show ?case by (auto simp: answered_def split: commit_outcome.split)
  qed simp
  have "calm_stmts ps cat = (None, cat)"
    using assms by (induction ps) (simp_all add: done_in_def)
  then show "calm_stmts (ps @ qs) cat = calm_stmts qs cat" by (simp add: calm_append)
qed

lemma stmts_prefix:
  "exec_stmts f i qs cat = (r, c) \<Longrightarrow> \<exists>xs ys. qs = xs @ ys \<and> calm_stmts xs cat = (None, c) \<and> (r = None \<longrightarrow> ys = [])"
proof (induction qs arbitrary: i cat)
  case (Cons d qs)
  obtain e c1 where a: "answered (f i) (exec_ddl d cat) cat = (e, c1)" by fastforce
  show ?case
  proof (cases e)
    case (Some x)
    with Cons.prems a have rc: "c = c1" "r \<noteq> None" by auto
    from answered_snd [OF a] show ?thesis
    proof
      assume "c1 = cat"
      with rc show ?thesis by - (rule exI [of _ "[]"], rule exI [of _ "d # qs"], simp)
    next
      assume "exec_ddl d cat = Inr c1"
      with rc show ?thesis by - (rule exI [of _ "[d]"], rule exI [of _ qs], auto)
    qed
  next
    case None
    with Cons.prems a have "exec_stmts f (Suc i) qs c1 = (r, c)" by simp
    from Cons.IH [OF this] obtain xs ys where "qs = xs @ ys" "calm_stmts xs c1 = (None, c)" "r = None \<longrightarrow> ys = []" by blast
    with a None show ?thesis
      by - (rule exI [of _ "d # xs"], rule exI [of _ ys], simp add: answered_None)
  qed
qed simp

lemma calm_done:
  "calm_stmts ds cat = (None, c) \<Longrightarrow> kinds_agree ds \<Longrightarrow> \<forall>d\<in>set ds. done_in c d"
proof (induction ds arbitrary: c rule: rev_induct)
  case (snoc d ds)
  then obtain c1 where c1: "calm_stmts ds cat = (None, c1)" "exec_ddl d c1 = Inr c"
    by (auto simp: calm_append answered_def split: prod.splits option.splits sum.splits)
  have "\<forall>x\<in>set ds. done_in c1 x" using snoc.IH [OF c1(1)] snoc.prems(2) by (auto simp: kinds_agree_def)
  then have "\<forall>x\<in>set ds. done_in c x" using done_stays [OF _ c1(2)] snoc.prems(2) by (auto simp: kinds_agree_def)
  with exec_done [OF c1(2)] show ?case by simp
qed simp

section \<open>Retrying a group\<close>

lemma exec_ddl_versions:
  "exec_ddl d cat = Inr cat' \<Longrightarrow> exec_ddl d (cat\<lparr>version_rows := vs\<rparr>) = Inr (cat'\<lparr>version_rows := vs\<rparr>)"
  by (cases d) (auto simp: exec_ddl_def find_table_def relation_exists_def set_table_def split: if_splits option.splits)

lemma record_version_again:
  assumes "record_version cfg v cat = Inr cat'"
  shows "record_version cfg v cat' = Inr cat'" and "done_in cat d \<Longrightarrow> done_in cat' d"
proof -
  from assms obtain vs where "cat' = cat\<lparr>version_rows := vs\<rparr>"
    by (auto simp: record_version_def Let_def split: if_splits intro: that [of "version_rows cat"])
  then show "done_in cat d \<Longrightarrow> done_in cat' d" using exec_ddl_versions by (auto simp: done_in_def)
  show "record_version cfg v cat' = Inr cat'"
    using assms by (auto simp: record_version_def Let_def find_table_def split: if_splits)
qed

text \<open>A group is partly done when some of its first statements are, or all of them and the version row.\<close>

definition partly_done :: "Config \<Rightarrow> migrationGroup \<Rightarrow> catalog \<Rightarrow> catalog \<Rightarrow> bool" where
  "partly_done cfg g start cat \<longleftrightarrow>
     (\<exists>xs ys. mg_Statements g = xs @ ys \<and> calm_stmts xs start = (None, cat))
     \<or> (\<exists>c. calm_stmts (mg_Statements g) start = (None, c) \<and> record_version cfg (mg_Version g) c = Inr cat)"

lemma kinds_agree_prefix: "kinds_agree (xs @ ys) \<Longrightarrow> kinds_agree xs"
  by (simp add: kinds_agree_def)

lemma recorded_done:
  "calm_stmts ds start = (None, c) \<Longrightarrow> record_version cfg v c = Inr cat \<Longrightarrow> kinds_agree ds \<Longrightarrow> \<forall>d\<in>set ds. done_in cat d"
  using calm_done record_version_again(2) by blast

lemma direct_keeps:
  assumes "partly_done cfg g start cat" and "kinds_agree (mg_Statements g)"
  shows "partly_done cfg g start (snd (runGroupDirect me cfg g cat))"
proof -
  let ?ds = "mg_Statements g" and ?v = "mg_Version g"
  obtain r c where run: "exec_stmts (me_stmt me ?v) 0 ?ds cat = (r, c)" by fastforce
  obtain e c2 where rec: "answered (me_record me ?v) (record_version cfg ?v c) c = (e, c2)" by fastforce
  have snd: "snd (runGroupDirect me cfg g cat) = (if r = None then c2 else c)"
    using run rec by (simp add: runGroupDirect_def Let_def split: option.split)
  from assms(1) consider (stmts) xs ys where "?ds = xs @ ys" "calm_stmts xs start = (None, cat)"
    | (recorded) c1 where "calm_stmts ?ds start = (None, c1)" "record_version cfg ?v c1 = Inr cat"
    unfolding partly_done_def by blast
  then show ?thesis
  proof cases
    case stmts
    have d: "\<forall>d\<in>set xs. done_in cat d"
      using calm_done [OF stmts(2)] kinds_agree_prefix assms(2) unfolding stmts(1) by blast
    have "\<exists>as bs. ?ds = as @ bs \<and> calm_stmts as start = (None, c) \<and> (r = None \<longrightarrow> bs = [])"
    proof (rule disjE [OF done_passed(1) [OF d, of "me_stmt me ?v" 0 ys]])
      assume "\<exists>x. exec_stmts (me_stmt me ?v) 0 (xs @ ys) cat = (Some x, cat)"
      then show ?thesis using stmts run by fastforce
    next
      assume "exec_stmts (me_stmt me ?v) 0 (xs @ ys) cat = exec_stmts (me_stmt me ?v) (0 + length xs) ys cat"
      then have "exec_stmts (me_stmt me ?v) (0 + length xs) ys cat = (r, c)" using run stmts(1) by simp
      from stmts_prefix [OF this] obtain as bs where
        "ys = as @ bs" "calm_stmts as cat = (None, c)" "r = None \<longrightarrow> bs = []" by blast
      then show ?thesis
        by - (rule exI [of _ "xs @ as"], rule exI [of _ bs], simp add: stmts calm_append)
    qed
    then obtain as bs where p: "?ds = as @ bs" "calm_stmts as start = (None, c)" "r = None \<longrightarrow> bs = []" by blast
    then have "partly_done cfg g start c" unfolding partly_done_def by blast
    moreover have "partly_done cfg g start c2" if "r = None"
      using answered_snd [OF rec] calculation p that unfolding partly_done_def by auto
    ultimately show ?thesis by (simp add: snd)
  next
    case recorded
    from done_passed(1) [OF recorded_done [OF recorded assms(2)], of "me_stmt me ?v" 0 "[]"] run
    have "c = cat" by auto
    moreover from this answered_snd [OF rec] record_version_again(1) [OF recorded(2)] have "c2 = cat" by auto
    ultimately show ?thesis using assms(1) by (simp add: snd)
  qed
qed

text \<open>The direct runs of a group, one after another, each with its own faults.\<close>

definition direct_runs :: "migrate_env list \<Rightarrow> Config \<Rightarrow> migrationGroup \<Rightarrow> catalog \<Rightarrow> catalog" where
  "direct_runs mes cfg g cat = foldl (\<lambda>c me. snd (runGroupDirect me cfg g c)) cat mes"

lemma direct_runs_keep:
  "partly_done cfg g start cat \<Longrightarrow> kinds_agree (mg_Statements g) \<Longrightarrow> partly_done cfg g start (direct_runs mes cfg g cat)"
  by (induction mes arbitrary: cat) (simp_all add: direct_runs_def direct_keeps)

lemma direct_calm:
  "runGroupDirect calm_migration cfg g cat = (Inr (), c) \<longleftrightarrow>
     (\<exists>c1. calm_stmts (mg_Statements g) cat = (None, c1) \<and> record_version cfg (mg_Version g) c1 = Inr c)"
  by (cases "calm_stmts (mg_Statements g) cat"; cases "fst (calm_stmts (mg_Statements g) cat)")
    (auto simp: runGroupDirect_def calm_migration_def Let_def answered_def split: sum.split)

lemma direct_completes:
  assumes "partly_done cfg g start cat" and "kinds_agree (mg_Statements g)"
    and "runGroupDirect calm_migration cfg g start = (Inr (), c)"
  shows "runGroupDirect calm_migration cfg g cat = (Inr (), c)"
proof -
  let ?ds = "mg_Statements g"
  from assms(3) obtain c1 where c: "calm_stmts ?ds start = (None, c1)" "record_version cfg (mg_Version g) c1 = Inr c"
    unfolding direct_calm by blast
  from assms(1) consider (stmts) xs ys where "?ds = xs @ ys" "calm_stmts xs start = (None, cat)"
    | (recorded) "cat = c"
    unfolding partly_done_def using c by auto
  then show ?thesis
  proof cases
    case stmts
    have "\<forall>d\<in>set xs. done_in cat d"
      using calm_done [OF stmts(2)] kinds_agree_prefix assms(2) unfolding stmts(1) by blast
    from done_passed(2) [OF this, of ys] c(1) stmts have "calm_stmts ?ds cat = (None, c1)" by (simp add: calm_append)
    with c(2) show ?thesis unfolding direct_calm by blast
  next
    case recorded
    from done_passed(2) [OF recorded_done [OF c assms(2)], of "[]"] have "calm_stmts ?ds c = (None, c)" by simp
    with record_version_again(1) [OF c(2)] show ?thesis unfolding direct_calm recorded by blast
  qed
qed

text \<open>The groups of the schema agree on their kinds, and run directly they do what they do in a transaction.\<close>

fun replaces_kinds :: "ddl \<Rightarrow> bool" where
  "replaces_kinds (ReplaceKindCheck n ks) = True"
| "replaces_kinds _ = False"

lemma at_most_one_agrees:
  assumes "length (filter replaces_kinds ds) \<le> 1"
  shows "kinds_agree ds"
proof -
  have "agree d e" if "d \<in> set ds" "e \<in> set ds" for d e
  proof (cases "replaces_kinds d \<and> replaces_kinds e")
    case True
    with that have "d \<in> set (filter replaces_kinds ds)" "e \<in> set (filter replaces_kinds ds)" by simp_all
    with assms have "d = e" by (cases "filter replaces_kinds ds") (auto simp: le_Suc_eq)
    moreover have "agree d d" by (cases d) simp_all
    ultimately show ?thesis by simp
  next
    case False
    then show ?thesis by (cases d; cases e) simp_all
  qed
  then show ?thesis by (simp add: kinds_agree_def)
qed

lemma groups_agree:
  assumes "g \<in> set (migrationGroups cfg)"
  shows "kinds_agree (mg_Statements g)"
proof (rule at_most_one_agrees)
  have "filter replaces_kinds (v1Statements cfg) = []" "filter replaces_kinds (v2RelayLeaseStatements cfg) = []"
    by (simp_all add: v1Statements_def v1_tables_def v1_indexes_def v1_trace_def v2RelayLeaseStatements_def Let_def)
  then show "length (filter replaces_kinds (mg_Statements g)) \<le> 1"
    using assms by (auto simp: migrationGroups_def v3WorkingAndDedupeStatements_def)
qed

lemma direct_as_tx:
  assumes "runGroupInTx calm_migration cfg g cat = (Inr (), c)"
  shows "runGroupDirect calm_migration cfg g cat = (Inr (), c)"
  using assms unfolding direct_calm
  by (auto simp: runGroupInTx_def calm_migration_def Let_def answered_def split: prod.splits option.splits sum.splits)

text \<open>C21: A group run without a transaction can be retried, under a prefix that does not start with a digit, has
  no upper-case letter and is at most 24 bytes long. Take any group of the schema at the level before
  it and let the direct runner try it any number of times, each try stopping anywhere: before or after any
  statement, with the statement applied or not, before or after the version row. One more try without a
  fault then succeeds and leaves exactly the next level, as the transactional runner does: the statements
  already applied are passed over, none is lost and none is applied twice.\<close>

theorem direct_rerun_completes:
  assumes "plain_prefix cfg" and "k < 3"
  shows "runGroupDirect calm_migration cfg (migrationGroups cfg ! k)
      (direct_runs mes cfg (migrationGroups cfg ! k) (schema_level cfg k)) = (Inr (), schema_level cfg (Suc k))"
proof -
  let ?g = "migrationGroups cfg ! k"
  have "?g \<in> set (migrationGroups cfg)" using assms(2) by (intro nth_mem) (simp add: migrationGroups_def)
  then have agree: "kinds_agree (mg_Statements ?g)" by (rule groups_agree)
  have "partly_done cfg ?g (schema_level cfg k) (schema_level cfg k)"
    unfolding partly_done_def by (rule disjI1, rule exI [of _ "[]"]) simp
  from direct_completes [OF direct_runs_keep [OF this agree] agree direct_as_tx [OF group_run [OF assms]]]
  show ?thesis .
qed

lemma direct_rerun_completes_witness:
  "let cfg = \<lparr>TablePrefix = ''m5''\<rparr>; g = migrationGroups cfg ! 2;
       crash = calm_migration\<lparr>me_stmt := (\<lambda>v i. if i = 0 then CommitUnknown ''reset'' else Committed)\<rparr> in
   runGroupDirect calm_migration cfg g (direct_runs [crash, crash] cfg g (schema_level cfg 2)) = (Inr (), schema_level cfg 3)"
proof -
  have "plain_prefix \<lparr>TablePrefix = ''m5''\<rparr>"
    by (simp add: plain_prefix_def is_upper_def is_digit_def byte_of_def ident_start_ok_def)
  from direct_rerun_completes [OF this, of 2] show ?thesis
    by (simp add: Let_def numeral_3_eq_3 numeral_2_eq_2 del: schema_level.simps)
qed

end
