(* ===== verification/Lifecycle.thy ===== *)
theory Lifecycle
  imports HistoryProps
begin

text \<open>
  The state machine of an outbox row: which actor may move its status from where to where, and that
  every run of the store and the relay follows it, on every row, with the attempt count and the
  row's content as the machine promises.
\<close>

section \<open>The machine\<close>

inductive transition :: "actor \<Rightarrow> string \<Rightarrow> string \<Rightarrow> bool" where
  claim: "transition (Worker w) outboxStatusPending outboxStatusProcessing"
| reclaim: "transition (Worker w) outboxStatusProcessing outboxStatusProcessing"
| deliver: "transition (Worker w) outboxStatusProcessing outboxStatusSent"
| hand_back: "transition (Worker w) outboxStatusProcessing outboxStatusPending"
| give_up: "transition (Worker w) outboxStatusProcessing outboxStatusFailed"
| requeue: "transition Operator outboxStatusFailed outboxStatusPending"

inductive_simps transition_simps [simp]:
  "transition a outboxStatusPending s" "transition a outboxStatusProcessing s"
  "transition a outboxStatusSent s" "transition a outboxStatusFailed s"
  "transition StoreOp s s'" "transition (Saver k) s s'"

text \<open>Which of its rules a step of a given actor can be.\<close>

inductive_cases store_stepE: "outbox_step ev StoreOp r r'"
inductive_cases saver_stepE: "outbox_step ev (Saver k) r r'"
inductive_cases operator_stepE: "outbox_step ev Operator r r'"
inductive_cases worker_stepE: "outbox_step ev (Worker w) r r'"

text \<open>What the machine asks of one step by one actor: the row is left alone, or its status makes a
  transition of that actor; only a worker counts attempts, only an operator resets them.\<close>

definition lawful :: "actor \<Rightarrow> 'j outbox_row \<Rightarrow> 'j outbox_row \<Rightarrow> bool" where
  "lawful a r r' \<longleftrightarrow> r' = r \<or>
     transition a (oe_status r) (oe_status r')
     \<and> (case a of
          Worker w \<Rightarrow> oe_attempt_count r' = oe_attempt_count r + (if oe_status r' = outboxStatusProcessing then 1 else 0)
        | Operator \<Rightarrow> r' = requeued r
        | _ \<Rightarrow> False)"

lemma worker_lawful:
  assumes "outbox_step ev (Worker w) r r'" and "outbox_ok r"
  shows "lawful (Worker w) r r'"
  using assms(1)
proof (cases rule: worker_stepE [consumes 1, case_names stays claims acks releases])
  case stays
  then show ?thesis by (simp add: lawful_def)
next
  case (claims ms)
  then have "oe_status r = outboxStatusPending \<or> oe_status r = outboxStatusProcessing" by (auto simp: claimable_def)
  then show ?thesis unfolding claims lawful_def by (auto simp: claimed_row_def)
next
  case (acks rl et ok n pe)
  then have "oe_status r = outboxStatusProcessing" using assms(2) by (auto simp: owned_def outbox_ok_def)
  then show ?thesis unfolding acks lawful_def
    by (auto simp: ack_setter_def acked_sent_def acked_error_def unleased_def)
next
  case releases
  then show ?thesis by (auto simp: lawful_def released_def unleased_def)
qed

lemma step_lawful:
  assumes "outbox_step ev a r r'" and "outbox_ok r"
  shows "lawful a r r'"
proof (cases a)
  case StoreOp
  with assms(1) have "r' = r" by (auto elim: store_stepE)
  then show ?thesis by (simp add: lawful_def)
next
  case (Saver k)
  with assms(1) have "r' = r" by (auto elim: saver_stepE)
  then show ?thesis by (simp add: lawful_def)
next
  case Operator
  with assms(1) show ?thesis by (auto elim!: operator_stepE simp: lawful_def requeued_def)
next
  case (Worker w)
  with assms show ?thesis by (simp add: worker_lawful)
qed

section \<open>Runs\<close>

text \<open>The transitions open to the actors of a run, and what a run made of them does to a row.\<close>

definition status_move :: "(env \<Rightarrow> actor \<Rightarrow> bool) \<Rightarrow> string \<Rightarrow> string \<Rightarrow> bool" where
  "status_move P s s' \<longleftrightarrow> (\<exists>ev a. P ev a \<and> transition a s s')"

definition same_message :: "'j outbox_row \<Rightarrow> 'j outbox_row \<Rightarrow> bool" where
  "same_message r r' \<longleftrightarrow> oe_outbox_id r' = oe_outbox_id r \<and> oe_event_id r' = oe_event_id r \<and> oe_payload r' = oe_payload r
     \<and> oe_event_type r' = oe_event_type r \<and> oe_aggregate_id r' = oe_aggregate_id r \<and> oe_created_at r' = oe_created_at r"

definition follows :: "(env \<Rightarrow> actor \<Rightarrow> bool) \<Rightarrow> 'j outbox_row \<Rightarrow> 'j outbox_row \<Rightarrow> bool" where
  "follows P r r' \<longleftrightarrow> same_message r r' \<and> (status_move P)\<^sup>*\<^sup>* (oe_status r) (oe_status r')
     \<and> ((\<forall>ev. \<not> P ev Operator) \<longrightarrow> oe_attempt_count r \<le> oe_attempt_count r'
          \<and> (oe_status r \<in> {outboxStatusSent, outboxStatusFailed} \<longrightarrow> r' = r))
     \<and> ((\<forall>ev w. \<not> P ev (Worker w)) \<longrightarrow> r' = r \<or> oe_status r = outboxStatusFailed \<and> r' = requeued r)"

lemma follows_refl [simp]: "follows P r r"
  by (simp add: follows_def same_message_def)

lemma no_worker_lawful:
  assumes "lawful a r r'" and "\<forall>w. a \<noteq> Worker w"
  shows "r' = r \<or> oe_status r = outboxStatusFailed \<and> r' = requeued r"
  using assms by (cases a) (auto simp: lawful_def elim: transition.cases)

lemma no_operator_lawful:
  assumes "lawful a r r'" and "a \<noteq> Operator"
  shows "oe_attempt_count r \<le> oe_attempt_count r'"
    and "oe_status r \<in> {outboxStatusSent, outboxStatusFailed} \<Longrightarrow> r' = r"
  using assms by (cases a; auto simp: lawful_def)+

lemma lawful_move: "lawful a r r' \<Longrightarrow> P ev a \<Longrightarrow> (status_move P)\<^sup>*\<^sup>* (oe_status r) (oe_status r')"
  by (cases "r' = r") (auto simp only: lawful_def status_move_def intro!: r_into_rtranclp exI)

lemma follows_step:
  assumes "follows P r r1" and "lawful a r1 r2" and "same_message r1 r2" and "P ev a"
  shows "follows P r r2"
proof -
  have "same_message r r2" using assms(1,3) by (auto simp: follows_def same_message_def)
  moreover have "(status_move P)\<^sup>*\<^sup>* (oe_status r) (oe_status r2)"
    using assms(1) lawful_move [of a r1 r2 P ev] assms(2,4) unfolding follows_def by (metis rtranclp_trans)
  moreover have "oe_attempt_count r \<le> oe_attempt_count r2 \<and> (oe_status r \<in> {outboxStatusSent, outboxStatusFailed} \<longrightarrow> r2 = r)"
    if none: "\<forall>ev. \<not> P ev Operator"
  proof -
    from none assms(4) have "a \<noteq> Operator" by auto
    from no_operator_lawful [OF assms(2) this] assms(1) none show ?thesis
      unfolding follows_def by (metis order_trans)
  qed
  moreover have "r2 = r \<or> oe_status r = outboxStatusFailed \<and> r2 = requeued r" if none: "\<forall>ev w. \<not> P ev (Worker w)"
  proof -
    from none assms(4) have "\<forall>w. a \<noteq> Worker w" by auto
    then have s: "r2 = r1 \<or> oe_status r1 = outboxStatusFailed \<and> r2 = requeued r1" by (rule no_worker_lawful [OF assms(2)])
    from assms(1) none have "r1 = r \<or> oe_status r = outboxStatusFailed \<and> r1 = requeued r" by (simp add: follows_def)
    moreover have "oe_status (requeued r) \<noteq> outboxStatusFailed" by (simp add: requeued_def)
    ultimately show ?thesis using s by metis
  qed
  ultimately show ?thesis by (simp add: follows_def)
qed

lemma outbox_follows_run:
  assumes "later_where K P db db'" and "reachable K db" and "r \<in> set (outbox db)"
  shows "\<exists>r'\<in>set (outbox db'). follows P r r'"
  using assms(1)
proof (induction rule: later_where.induct)
  case stay
  with assms(3) show ?case by (intro bexI [of _ r]) simp_all
next
  case (move db1 ev a db2)
  then obtain r1 where r1: "r1 \<in> set (outbox db1)" "follows P r r1" by blast
  have reach: "reachable K db1" by (rule later_reachable [OF later_where_later [OF move.hyps(1)] assms(2)])
  obtain r2 where r2: "r2 \<in> set (outbox db2)" "outbox_step ev a r1 r2"
    by (rule outbox_follows [OF move.hyps(2) reach r1(1)])
  have "follows P r r2"
    using follows_step [OF r1(2) step_lawful [OF r2(2) reachable_outbox [OF reach r1(1)]] _ move.hyps(3)]
      outbox_step_keeps [OF r2(2)] by (simp add: same_message_def)
  with r2(1) show ?case by blast
qed

text \<open>C13: The life of an outbox row. From any database that can arise, along any run whose steps satisfy some
  condition on their clocks and actors: the row is still there with the same identity, event and
  payload; its status has only made transitions of the machine open to those actors; without an operator in
  the run its attempts have not gone down, and a sent or failed row has not changed at all; without a
  worker it has not changed but for one requeue of a failed row.\<close>

theorem outbox_lifecycle:
  assumes "reachable K db" and "r \<in> set (outbox db)" and "later_where K P db db'"
  shows "\<exists>r'\<in>set (outbox db').
    oe_outbox_id r' = oe_outbox_id r \<and> oe_event_id r' = oe_event_id r \<and> oe_payload r' = oe_payload r
    \<and> (\<lambda>s s'. \<exists>ev a. P ev a \<and> transition a s s')\<^sup>*\<^sup>* (oe_status r) (oe_status r')
    \<and> ((\<forall>ev. \<not> P ev Operator) \<longrightarrow> oe_attempt_count r \<le> oe_attempt_count r'
         \<and> (oe_status r \<in> {outboxStatusSent, outboxStatusFailed} \<longrightarrow> r' = r))
    \<and> ((\<forall>ev w. \<not> P ev (Worker w)) \<longrightarrow> r' = r \<or> oe_status r = outboxStatusFailed \<and> r' = requeued r)"
proof -
  from outbox_follows_run [OF assms(3,1,2)] obtain r' where r': "r' \<in> set (outbox db')" "follows P r r'" by blast
  show ?thesis
    by (rule bexI [OF _ r'(1)]) (use r'(2) in \<open>simp add: follows_def same_message_def status_move_def [abs_def]\<close>)
qed

lemma outbox_lifecycle_witness:
  "\<exists>r r'. outbox claimed_db = [r] \<and> r' \<in> set (outbox (snd (Ack (\<lambda>_. []) sample_relay (calm_env ''3'' 30000) ''o1'' True 1 None claimed_db)))
     \<and> oe_payload r' = oe_payload r \<and> oe_attempt_count r \<le> oe_attempt_count r'"
proof -
  obtain r where r: "outbox claimed_db = [r]" using claimed_rows by auto
  have run: "later_where doc_sdk (\<lambda>_ a. a \<noteq> Operator) claimed_db
      (snd (Ack (\<lambda>_. []) sample_relay (calm_env ''3'' 30000) ''o1'' True 1 None claimed_db))"
    by (rule disjE [OF Ack_step [of "\<lambda>_. []" sample_relay "calm_env ''3'' 30000" "''o1''" True 1 None claimed_db doc_sdk]])
      (auto intro: later_where.intros)
  have "r \<in> set (outbox claimed_db)" by (simp add: r)
  from outbox_lifecycle [OF claimed_reach this run] r show ?thesis by auto
qed

end
