(* ===== verification/Spec2Isabelle.thy ===== *)
theory Spec2Isabelle
  imports Naming Startup Refinement StoreOpsProps Payloads Peers ConformUpdate MigrationDirect Lifecycle
begin

text \<open>
  A verification development for the Postgres store of agent memories
  (\<^verbatim>\<open>llm-agent-memory-postgres\<close>): the Go package \<^verbatim>\<open>postgres\<close> and the command
  \<^verbatim>\<open>cmd/memory-migrate\<close>.

  \<^bold>\<open>The program.\<close> A \<open>Store\<close> (a connection pool and a table prefix) keeps versioned records in
  \<^verbatim>\<open>memory_record\<close>. Every change of a record is one transaction that also appends an event to
  \<^verbatim>\<open>memory_event\<close> and a message to \<^verbatim>\<open>outbox_event\<close>; first writes and promotions also leave an
  idempotency row to replay. A \<open>Relay\<close> claims pending messages under a lease, hands them to a
  \<open>Publisher\<close> and acknowledges them. \<open>Migrate\<close> brings the schema to its head version.

  \<^bold>\<open>How it is modelled.\<close> The database is a record of five tables, each the list of its rows; an SQL
  statement is a function on the rows that applies the constraints of \<^verbatim>\<open>schema.go\<close> and may report a
  driver error. An operation of the package is a function from an environment, its input and the
  database to a result (an error or a value) and the database. The environment (\<open>env\<close>) holds what the
  program does not decide: the two clocks, the random identifiers, which database call fails (each call of
  \<open>rows.Next\<close> and \<open>rows.Scan\<close> is one), in which order the server meets rows that an \<open>ORDER BY\<close> leaves tied, and
  whether a commit is applied, refused, or applied with its answer lost. A transaction works on a copy that its
  commit publishes (\<open>run_tx\<close>); a single statement commits by itself (\<open>auto_stmt\<close>). The code takes no lock
  between loading a record and updating it, so the part after the load is a definition of its own
  (\<open>mutate_loaded\<close>, \<open>promote_loaded\<close>, \<open>write_fresh\<close>), and the theorems about interleavings run it on a
  database that has moved on.

  \<^bold>\<open>The theories.\<close>
  \<^item> \<^verbatim>\<open>Prelude\<close>: fallible calls, 64-bit increments, times, decimal numbers, tables as keyed lists.
  \<^item> \<^verbatim>\<open>GoErrors\<close>: the sentinels of \<^verbatim>\<open>errors.go\<close>, wrapping, \<open>errors.Is\<close>, \<open>errors.Join\<close>.
  \<^item> \<^verbatim>\<open>Config\<close> (\<^verbatim>\<open>config.go\<close>): \<open>New\<close>, \<open>isSafeIdent\<close> over the runes of a byte string, table names.
    \<^verbatim>\<open>WorkerId\<close> (\<^verbatim>\<open>worker_id.go\<close>). \<^verbatim>\<open>Naming\<close>: table names are disjoint and safe to splice into SQL; the
    form of a worker identity.
  \<^item> \<^verbatim>\<open>Schema\<close> (\<^verbatim>\<open>schema.go\<close>): each DDL statement as data with its effect on a catalog, the migration
    groups, the runners, \<open>currentSchemaVersion\<close> and \<open>Migrate\<close>. \<^verbatim>\<open>Migration\<close>: atomic groups, crash and
    resume, success, version skew, and the prefixes for which the guard or the DDL does not work (Postgres folds
    the unquoted names of the DDL and cuts them at 63 bytes; the name the version lookup is given is cut but not
    folded). The theorems that a migration completes are for prefixes without a leading digit or an upper-case
    letter and of at most 24 bytes, which Postgres keeps as they are (\<open>plain_prefix\<close>).
    \<^verbatim>\<open>MigrationDirect\<close>: a group run without a transaction, whose statements may be applied with their
    answers lost, can be retried from wherever it stopped. \<^verbatim>\<open>Startup\<close> (\<^verbatim>\<open>cmd/memory-migrate/main.go\<close>).
  \<^item> \<^verbatim>\<open>Records\<close> and \<^verbatim>\<open>Database\<close>: the data, the rows, the statements, the environment. \<^verbatim>\<open>Queries\<close>:
    what \<open>ORDER BY\<close> with descending keys and ties returns (descending keys are a type of their own with the
    reversed order), and the loop over the rows of a result with its errors. \<^verbatim>\<open>Tables\<close>: the
    contracts of an insert into a keyed table and of a version-guarded update, as locales interpreted on
    the statements, and the lemmas on transactions. \<^verbatim>\<open>Samples\<close>: a concrete JSON form and environment for
    the witnesses.
  \<^item> \<^verbatim>\<open>WriteRecord\<close> and \<^verbatim>\<open>WriteProps\<close> (\<^verbatim>\<open>store.go\<close>): the event and the outbox message of a change
    (\<open>emit_change\<close>, whose columns come from the record and the event type as in the code; \<open>emit\<close> is its form
    for documents that agree with them, which the proofs use), and the idempotent write; exactly once under retries,
    its effect, replay and conflict, atomicity, progress, and the race of two first writes.
  \<^item> \<^verbatim>\<open>MutateRecord\<close> and \<^verbatim>\<open>MutateProps\<close> (\<^verbatim>\<open>store.go\<close>): reads, patch, delete, pin, disable. The contract of
    an \<open>apply\<close> closure is the locale \<open>mutation\<close>, interpreted on the four closures; effect, emission,
    visibility, refusals, atomicity, one winner, progress.
  \<^item> \<^verbatim>\<open>StoreOps\<close> and \<^verbatim>\<open>StoreOpsProps\<close> (\<^verbatim>\<open>store.go\<close>): events, idempotency entries, outbox, and the operator's
    \<open>RequeueFailed\<close> and \<open>ListFailed\<close>.
  \<^item> \<^verbatim>\<open>Durable\<close>, \<^verbatim>\<open>DurableProps\<close>, \<^verbatim>\<open>DedupeProps\<close> (\<^verbatim>\<open>durable_ops.go\<close>): \<open>MarkAccess\<close>, \<open>Promote\<close>,
    \<open>ResolveDedupe\<close>, \<open>ListSessionWorking\<close>.
  \<^item> \<^verbatim>\<open>Publishers\<close> (\<^verbatim>\<open>relay.go\<close>, \<^verbatim>\<open>fanout_publisher.go\<close>, \<^verbatim>\<open>lease_aware_publisher.go\<close>): the interface as
    the locale \<open>publisher\<close>, the fanout of a family of publishers as a sublocale, interpreted on the code's
    publishers.
  \<^item> \<^verbatim>\<open>Relay\<close>, \<^verbatim>\<open>RelayProps\<close>, \<^verbatim>\<open>RelayRun\<close>, \<^verbatim>\<open>RelayDrain\<close> (\<^verbatim>\<open>relay.go\<close>): claims, acknowledgements, rounds;
    what a claim takes, how it fails, fencing, what a round counts, termination under any publisher, draining, and
    the messages and leases with which the relay does not get on. What the other parties do to the tables and the
    downstream between two calls of a round is a function (\<open>su_others\<close>); what they must keep to for the round
    to deliver what it marks sent is the locale \<open>bystanders\<close>. \<^verbatim>\<open>Peers\<close>: other workers of the same relay,
    in any number, taking their turns call by call (claim, publish, acknowledge, or die), and clients who write or requeue,
    are such parties; so every row marked sent, by whichever worker, was delivered.
  \<^item> \<^verbatim>\<open>History\<close>: the store over time as a step relation (\<open>commit_step\<close>), one rule per way a transaction or
    statement takes effect, with transactions running on whatever they had loaded; every operation is one
    step or none; each step moves the rows of a table in one of a few ways. \<^verbatim>\<open>HistoryProps\<close>: the
    invariants of the reachable databases and the safety of histories. \<^verbatim>\<open>Lifecycle\<close>: the state machine of an
    outbox row, which every run follows. \<^verbatim>\<open>Refinement\<close>: the tables refine
    an abstract map with a journal.
  \<^item> \<^verbatim>\<open>Conform\<close>, \<^verbatim>\<open>ConformUpdate\<close>: a check of the model against itself, not a property of the
    program. The constraints that the statements of \<^verbatim>\<open>Database\<close> apply by hand are those of the table
    definitions of \<^verbatim>\<open>Schema\<close>: rows as tuples of SQL values, what a table definition admits, and that the
    \<open>INSERT\<close>s and \<open>UPDATE\<close>s succeed exactly when what they leave is admitted by the migrated tables. The rows of
    the first schema level survive the upgrade.
  \<^item> \<^verbatim>\<open>Composition\<close>: the store and the relay together; a write and a promotion are replayed to their
    retries after any history, and the message of a write or mutation is delivered or ends up failed where
    the operator sees it. \<^verbatim>\<open>Payloads\<close>: the columns restate the JSON documents beside them, so every claim
    decodes what the store wrote.

  \<^bold>\<open>Bounds.\<close> Versions and counters are integers with Go's wrap-around (\<open>i64_inc\<close>) and the column ranges
  written out. The loops of the program are over lists and the definitions structurally recursive: no
  fuel is used. A relay is run round after round by its caller, so the theorems on rounds say how many are
  enough: as many as the pending messages fill batches when the publisher accepts (\<open>relay_drains\<close>), as many
  as there are attempts left, the measure \<open>work\<close>, when it answers as it likes (\<open>relay_settles\<close>). The integers a
  step takes from a Go value are assumed to be \<open>int64\<close>s (\<open>fits_i64\<close>). \<open>no_lost_update\<close> assumes fewer events than an \<open>int64\<close> counts.

  \<^bold>\<open>Parameters.\<close> The contract package's constants and \<^verbatim>\<open>encoding/json\<close> (the record \<open>sdk\<close>), the pool, the host
  name, the random bytes, \<open>Error()\<close>, the rows other claims have locked and what other parties do, to the tables
  and the downstream, between the calls of a round. The JSON form is a parameter because the record, event and entry types, whose tags name
  the fields, are declared in the contract package, not here. Hypotheses on them are named where they are used (\<open>sdk_ok\<close>, \<open>marshals\<close>) and hold for the
  sample instance.

  \<^bold>\<open>Not modelled.\<close> The text of driver errors and of the quoted prefix; the encoding of strings in TEXT and
  JSONB columns (a refusal is one of the environment's failures); names of implicit indexes; contexts and
  cancellation, which also appear as failures; a nil pointer inside a non-nil interface; tests and
  \<^verbatim>\<open>doc.go\<close>, which has no code.
\<close>

end
